(* ===== verification/Prelude.thy ===== *)
theory Prelude
  imports Main "HOL-Library.Word" "HOL-Library.Char_ord" "HOL-Library.List_Lexorder"
begin

text \<open>
  Shared vocabulary of the development: the machine integers of the C++ sources, the
  result type of fallible operations, characters and decimal numerals as the formatting
  and parsing code of the repository uses them, and the generic facts on lists and
  options that the component theories rest on.

  \<^item> \<open>std::expected<T, E>\<close> is the sum \<open>'e + 'a\<close>, the error on the left.
  \<^item> \<open>std::string\<close> and \<open>std::string_view\<close> are \<open>string\<close>, a list of bytes
    (\<open>char\<close> is a byte in Isabelle/HOL as in C++).
  \<^item> container sizes and indices (\<open>size_t\<close>) are \<open>nat\<close>; fixed-width fields of the
    data model keep their width as \<open>'w word\<close>.
\<close>

named_theorems char_simps \<open>facts on characters, digits and numerals\<close>
named_theorems text_simps \<open>facts on the text helpers\<close>
named_theorems buf_simps \<open>facts on column buffers\<close>

type_synonym u8 = "8 word"
type_synonym u16 = "16 word"
type_synonym u32 = "32 word"
type_synonym u64 = "64 word"
type_synonym i16 = "16 word"
type_synonym i32 = "32 word"
type_synonym i64 = "64 word"
type_synonym str_t = string
type_synonym ('e, 'a) expected = "'e + 'a"

subsection \<open>Fallible computations\<close>

definition bind_result :: "'e + 'a \<Rightarrow> ('a \<Rightarrow> 'e + 'b) \<Rightarrow> 'e + 'b" where
  "bind_result m f = (case m of Inl e \<Rightarrow> Inl e | Inr a \<Rightarrow> f a)"

lemma bind_result_simps [simp]:
  "bind_result (Inl e) f = Inl e"
  "bind_result (Inr a) f = f a"
  by (simp_all add: bind_result_def)

lemma bind_result_eq_Inr:
  "bind_result m f = Inr b \<longleftrightarrow> (\<exists>a. m = Inr a \<and> f a = Inr b)"
  by (cases m) auto

subsection \<open>Characters\<close>

text \<open>The classification of \<open>std::isspace\<close> and the folding of \<open>std::tolower\<close> in the C
  locale, both applied by the sources to an \<open>unsigned char\<close>.\<close>

definition is_space :: "char \<Rightarrow> bool" where
  "is_space c \<longleftrightarrow> (let n = (of_char c :: nat) in n = 32 \<or> (9 \<le> n \<and> n \<le> 13))"

definition to_lower :: "char \<Rightarrow> char" where
  "to_lower c = (let n = (of_char c :: nat) in if 65 \<le> n \<and> n \<le> 90 then char_of (n + 32) else c)"

definition is_digit :: "char \<Rightarrow> bool" where
  "is_digit c \<longleftrightarrow> 48 \<le> (of_char c :: nat) \<and> (of_char c :: nat) \<le> 57"

definition digit_val :: "char \<Rightarrow> nat" where
  "digit_val c = of_char c - 48"

definition digit_char :: "nat \<Rightarrow> char" where
  "digit_char n = char_of (48 + n)"

lemma of_char_less_256 [char_simps]: "(of_char c :: nat) < 256"
  by (metis char_of_nat mod_less_divisor nat_of_char_less_256 of_char_of zero_less_numeral)

lemma of_char_digit_char [char_simps]: "n < 10 \<Longrightarrow> (of_char (digit_char n) :: nat) = 48 + n"
  by (simp add: digit_char_def)

lemma is_digit_digit_char [simp, char_simps]: "n < 10 \<Longrightarrow> is_digit (digit_char n)"
  by (simp add: is_digit_def of_char_digit_char)

lemma digit_val_digit_char [simp, char_simps]: "n < 10 \<Longrightarrow> digit_val (digit_char n) = n"
  by (simp add: digit_val_def of_char_digit_char)

lemma to_lower_idem [simp]: "to_lower (to_lower c) = to_lower c"
  by (auto simp: to_lower_def Let_def)

subsection \<open>Decimal and hexadecimal numerals\<close>

text \<open>\<open>dec\<close> is the shortest decimal numeral (\<open>"{}"\<close>, \<open>std::to_string\<close>), \<open>zpad w\<close> the one
  filled with zeroes to at least \<open>w\<close> characters (\<open>"{:04d}"\<close>, \<open>"%09u"\<close>), with the
  sign in front of the fill for a negative value. \<open>digits_w w n\<close> is the reference the proofs
  use: the last \<open>w\<close> decimal digits of \<open>n\<close>.\<close>

fun dec :: "nat \<Rightarrow> string" where
  "dec n = (if n < 10 then [digit_char n] else dec (n div 10) @ [digit_char (n mod 10)])"

declare dec.simps [simp del]

definition dec_int :: "int \<Rightarrow> string" where
  "dec_int v = (if v < 0 then CHR ''-'' # dec (nat (- v)) else dec (nat v))"

definition zpad :: "nat \<Rightarrow> nat \<Rightarrow> string" where
  "zpad w n = replicate (w - length (dec n)) (CHR ''0'') @ dec n"

definition zpad_int :: "nat \<Rightarrow> int \<Rightarrow> string" where
  "zpad_int w v = (if v < 0 then CHR ''-'' # zpad (w - 1) (nat (- v)) else zpad w (nat v))"

primrec digits_w :: "nat \<Rightarrow> nat \<Rightarrow> string" where
  "digits_w 0 n = []"
| "digits_w (Suc w) n = digits_w w (n div 10) @ [digit_char (n mod 10)]"

definition hex_digit :: "nat \<Rightarrow> char" where
  "hex_digit n = ''0123456789abcdef'' ! n"

definition hex2 :: "u8 \<Rightarrow> string" where
  "hex2 b = [hex_digit (unat b div 16), hex_digit (unat b mod 16)]"

text \<open>\<open>"%0wx"\<close> of a non-negative value: at least \<open>w\<close> hexadecimal digits, more when needed.\<close>

fun hex_pad :: "nat \<Rightarrow> nat \<Rightarrow> string" where
  "hex_pad 0 n = (if n = 0 then [] else hex_pad 0 (n div 16) @ [hex_digit (n mod 16)])"
| "hex_pad (Suc w) n = hex_pad w (n div 16) @ [hex_digit (n mod 16)]"

declare hex_pad.simps(1) [simp del]

text \<open>The value of a string of decimal digits.\<close>

definition digits_value :: "string \<Rightarrow> nat" where
  "digits_value ds = foldl (\<lambda>v c. v * 10 + digit_val c) 0 ds"

lemma digit_char_0 [simp]: "digit_char 0 = CHR ''0''"
  by code_simp

lemma length_digits_w [simp]: "length (digits_w w n) = w"
  by (induction w arbitrary: n) auto

lemma digits_w_all_digits: "\<forall>c \<in> set (digits_w w n). is_digit c"
  by (induction w arbitrary: n) auto

lemma digits_w_zero_front: "n < 10 ^ w \<Longrightarrow> digits_w (Suc w) n = CHR ''0'' # digits_w w n"
proof (induction w arbitrary: n)
  case 0
  then show ?case by simp
next
  case (Suc w)
  then have "n div 10 < 10 ^ w" by (simp add: div_less_iff_less_mult mult.commute)
  from Suc.IH [OF this] show ?case by simp
qed

lemma digits_w_fill: "n < 10 ^ w \<Longrightarrow> digits_w (k + w) n = replicate k (CHR ''0'') @ digits_w w n"
proof (induction k)
  case (Suc k)
  have "n < 10 ^ (k + w)"
    using Suc.prems by (meson less_le_trans one_le_numeral power_increasing le_add2)
  then have "digits_w (Suc (k + w)) n = CHR ''0'' # digits_w (k + w) n" by (rule digits_w_zero_front)
  with Suc show ?case by simp
qed simp

lemma length_dec_pos: "0 < length (dec n)"
  by (subst dec.simps) simp

lemma dec_ne [simp]: "dec n \<noteq> []"
  by (subst dec.simps) simp

lemma dec_eq_digits_w: "dec n = digits_w (length (dec n)) n \<and> n < 10 ^ length (dec n)"
proof (induction n rule: dec.induct)
  case (1 n)
  show ?case
  proof (cases "n < 10")
    case True
    then show ?thesis by (simp add: dec.simps [of n])
  next
    case False
    with 1 have IH: "dec (n div 10) = digits_w (length (dec (n div 10))) (n div 10)"
      "n div 10 < 10 ^ length (dec (n div 10))" by auto
    have eq: "dec n = dec (n div 10) @ [digit_char (n mod 10)]"
      using False by (simp add: dec.simps [of n])
    have "n < 10 * 10 ^ length (dec (n div 10))"
      using IH(2) by (simp add: div_less_iff_less_mult mult.commute)
    with IH eq show ?thesis by simp
  qed
qed

lemma dec_shortest: "n < 10 ^ w \<Longrightarrow> 0 < w \<Longrightarrow> length (dec n) \<le> w"
proof (induction n arbitrary: w rule: dec.induct)
  case (1 n)
  show ?case
  proof (cases "n < 10")
    case True
    with 1 show ?thesis by (simp add: dec.simps [of n])
  next
    case False
    then obtain v where w: "w = Suc v" "0 < v"
    proof -
      have "w \<noteq> 1" using 1(2) False by auto
      with 1(3) that [of "w - 1"] show thesis by simp
    qed
    with 1(2) have "n div 10 < 10 ^ v" by (simp add: div_less_iff_less_mult mult.commute)
    then have "length (dec (n div 10)) \<le> v" using w(2) by (rule 1(1) [OF False])
    with False w show ?thesis by (simp add: dec.simps [of n])
  qed
qed

lemma zpad_digits_w: "n < 10 ^ w \<Longrightarrow> 0 < w \<Longrightarrow> zpad w n = digits_w w n"
proof -
  assume n: "n < 10 ^ w" "0 < w"
  define k where "k = length (dec n)"
  have dk: "dec n = digits_w k n" "n < 10 ^ k"
    using dec_eq_digits_w [of n] by (auto simp: k_def)
  have "k \<le> w" using dec_shortest [OF n] by (simp add: k_def)
  then have "digits_w w n = replicate (w - k) (CHR ''0'') @ digits_w k n"
    using digits_w_fill [OF dk(2), of "w - k"] by simp
  then show ?thesis unfolding zpad_def k_def [symmetric] by (simp only: dk(1) [symmetric])
qed

lemma length_zpad: "n < 10 ^ w \<Longrightarrow> 0 < w \<Longrightarrow> length (zpad w n) = w"
  by (simp add: zpad_digits_w)

lemma length_zpad_ge: "length (zpad w n) = max w (length (dec n))"
  by (simp add: zpad_def)

lemma dec_all_digits: "\<forall>c \<in> set (dec n). is_digit c"
proof -
  have "\<forall>c \<in> set (digits_w (length (dec n)) n). is_digit c" by (rule digits_w_all_digits)
  then show ?thesis using dec_eq_digits_w [of n] by metis
qed

lemma hex_pad_0_0 [simp]: "hex_pad 0 0 = []"
  by (simp add: hex_pad.simps(1))

lemma length_hex_pad: "n < 16 ^ w \<Longrightarrow> length (hex_pad w n) = w"
proof (induction w arbitrary: n)
  case (Suc w)
  then have "n div 16 < 16 ^ w" by (intro less_mult_imp_div_less) (simp add: mult.commute)
  with Suc.IH show ?case by simp
qed simp

lemma hex_pad_add: "hex_pad (a + b) n = hex_pad a (n div 16 ^ b) @ hex_pad b (n mod 16 ^ b)"
proof (induction b arbitrary: n)
  case (Suc b)
  have "n mod 16 ^ Suc b div 16 = n div 16 mod 16 ^ b" "n mod 16 ^ Suc b mod 16 = n mod 16"
    by (simp_all add: mod_mult2_eq div_mult2_eq)
  moreover have "n div 16 div 16 ^ b = n div 16 ^ Suc b" by (simp add: div_mult2_eq)
  ultimately show ?case using Suc.IH [of "n div 16"] by simp
qed simp

lemma hex_pad_2: "hex_pad 2 (unat b) = hex2 b"
proof -
  have "unat b < 16 * 16" using unsigned_less [of b] by simp
  then have "unat b div 16 < 16" by (intro less_mult_imp_div_less) simp
  then show ?thesis by (simp add: numeral_2_eq_2 hex2_def)
qed

lemma digits_value_snoc [simp]: "digits_value (ds @ [c]) = digits_value ds * 10 + digit_val c"
  by (simp add: digits_value_def)

lemma digits_value_Nil [simp]: "digits_value [] = 0"
  by (simp add: digits_value_def)

lemma digits_value_digits_w: "digits_value (digits_w w n) = n mod 10 ^ w"
proof (induction w arbitrary: n)
  case (Suc w)
  have "n div 10 mod 10 ^ w * 10 + n mod 10 = n mod 10 ^ Suc w"
    by (simp add: mod_mult2_eq mult.commute)
  with Suc show ?case by simp
qed simp

lemma digits_value_dec [simp]: "digits_value (dec n) = n"
  using dec_eq_digits_w [of n] digits_value_digits_w [of "length (dec n)" n] by simp

lemma dec_inj: "dec m = dec n \<longleftrightarrow> m = n"
  by (metis digits_value_dec)

text \<open>The ranges of the fixed-width fields.\<close>

lemma unat_u8_less: "unat (w :: u8) < 256"
  and unat_u16_less: "unat (v :: u16) < 65536"
  and unat_u32_less: "unat (x :: u32) < 4294967296"
  using unsigned_less [where 'a = nat, of w] unsigned_less [where 'a = nat, of v]
    unsigned_less [where 'a = nat, of x] by simp_all

text \<open>Disjoint bits: an \<open>OR\<close> of a shifted part with a smaller one is a sum.\<close>

lemma or_low_nat: "n < 2 ^ k \<Longrightarrow> Bit_Operations.or (m * 2 ^ k :: nat) n = m * 2 ^ k + n"
proof -
  assume "n < 2 ^ k"
  then have n: "n = take_bit k n" by (simp add: take_bit_nat_eq_self)
  have "Bit_Operations.and (push_bit k m) (take_bit k n) = 0" by (rule bit_eqI) (auto simp: bit_simps)
  then have "push_bit k m + take_bit k n = Bit_Operations.or (push_bit k m) (take_bit k n)"
    by (simp add: disjunctive_add_eq_or)
  with n show ?thesis by (simp add: push_bit_eq_mult)
qed

lemma length_hex2 [simp]: "length (hex2 b) = 2"
  by (simp add: hex2_def)

subsection \<open>Formatting\<close>

text \<open>Alignment of a replacement field in a width, as \<open>"{:<w}"\<close>, \<open>"{:>w}"\<close> and \<open>"{:^w}"\<close>
  do it for byte strings; a wider argument is never cut.\<close>

abbreviation nl :: string where
  "nl \<equiv> [CHR 0x0A]"

definition fill :: "nat \<Rightarrow> string" where
  "fill n = replicate n (CHR '' '')"

definition align_left :: "nat \<Rightarrow> string \<Rightarrow> string" where
  "align_left w s = s @ fill (w - length s)"

definition align_right :: "nat \<Rightarrow> string \<Rightarrow> string" where
  "align_right w s = fill (w - length s) @ s"

definition align_center :: "nat \<Rightarrow> string \<Rightarrow> string" where
  "align_center w s = fill ((w - length s) div 2) @ s @ fill (w - length s - (w - length s) div 2)"

lemma length_fill [simp]: "length (fill n) = n"
  by (simp add: fill_def)

lemma length_align [simp]:
  "length (align_left w s) = max w (length s)"
  "length (align_right w s) = max w (length s)"
  "length (align_center w s) = max w (length s)"
  by (auto simp: align_left_def align_right_def align_center_def)

subsection \<open>Outcomes of C++ code that checks bounds by hand\<close>

text \<open>A call returns, throws, fails an \<open>assert\<close>, or does something the language leaves
  undefined (an access outside an array, a null dereference).\<close>

datatype 'a cpp = Ret 'a | Throws string | Assert_failed | Undefined_behaviour

subsection \<open>Logging\<close>

text \<open>The shared \<open>Logger\<close>, reduced to the lines it was handed, oldest first.\<close>

datatype log_level = Lvl_debug | Lvl_info | Lvl_warn | Lvl_error | Lvl_critical

type_synonym log_t = "(log_level \<times> string) list"

definition log_error :: "string \<Rightarrow> log_t \<Rightarrow> log_t" where
  "log_error msg l = l @ [(Lvl_error, msg)]"

definition log_warn :: "string \<Rightarrow> log_t \<Rightarrow> log_t" where
  "log_warn msg l = l @ [(Lvl_warn, msg)]"

definition log_info :: "string \<Rightarrow> log_t \<Rightarrow> log_t" where
  "log_info msg l = l @ [(Lvl_info, msg)]"

definition log_debug :: "string \<Rightarrow> log_t \<Rightarrow> log_t" where
  "log_debug msg l = l @ [(Lvl_debug, msg)]"

text \<open>A text between single quotes, as the messages of the program show it.\<close>

definition quoted :: "string \<Rightarrow> string" where
  "quoted t = [CHR 0x27] @ t @ [CHR 0x27]"

end
