(* ===== verification/Sql_Types.thy ===== *)
theory Sql_Types
  imports Prelude
begin

text \<open>
  The sql type vocabulary shared by the generator and every backend
  (\<open>src/rtl/sql_types.hpp\<close>): the enumerations \<open>sql_type\<close> and \<open>sql_cat\<close>, the date/time,
  interval and guid structures, the table \<open>sql_to_cpp_table\<close> built at compile time and
  its total lookup \<open>get_sql_mapping\<close>, and the description \<open>meta_dscr\<close> of one column or
  parameter. An enumerator \<open>e\<close> of \<open>sql_type\<close> is the constructor \<open>st_e\<close>, one of
  \<open>sql_cat\<close> is \<open>cat_e\<close>. The theory shows that the table has no hole, that the lookup is
  total on every value of the underlying 16-bit type, and that the defaulted comparison
  of \<open>date\<close> is calendar order.
\<close>

subsection \<open>Text\<close>

definition lowercase :: "string \<Rightarrow> string" where
  "lowercase input = map to_lower input"

subsection \<open>Enumerations\<close>

datatype (plugins only: code) sql_type =
    st_unknown | st_integer | st_smallint | st_bigint | st_tiny_int
  | st_float | st_real | st_double | st_bit | st_char
  | st_numeric | st_decimal | st_var_char | st_decfloat | st_long_var_char
  | st_clob | st_xml | st_wchar | st_wvar_char | st_wlong_var_char
  | st_dbclob | st_graphic | st_var_graphic | st_binary | st_var_binary
  | st_long_var_binary | st_blob | st_date | st_time | st_timestamp
  | st_type_date | st_type_time | st_type_timestamp | st_interval_year | st_interval_month
  | st_interval_year_to_month | st_interval_day | st_interval_hour | st_interval_minute | st_interval_second
  | st_interval_day_to_hour | st_interval_day_to_minute | st_interval_day_to_second | st_interval_hour_to_minute | st_interval_hour_to_second
  | st_interval_minute_to_second | st_guid | st_count

datatype sql_cat = cat_atomic | cat_c_string | cat_w_string | cat_b_string | cat_structure

primrec sql_type_index :: "sql_type \<Rightarrow> nat" where
  "sql_type_index st_unknown = 0"
| "sql_type_index st_integer = 1"
| "sql_type_index st_smallint = 2"
| "sql_type_index st_bigint = 3"
| "sql_type_index st_tiny_int = 4"
| "sql_type_index st_float = 5"
| "sql_type_index st_real = 6"
| "sql_type_index st_double = 7"
| "sql_type_index st_bit = 8"
| "sql_type_index st_char = 9"
| "sql_type_index st_numeric = 10"
| "sql_type_index st_decimal = 11"
| "sql_type_index st_var_char = 12"
| "sql_type_index st_decfloat = 13"
| "sql_type_index st_long_var_char = 14"
| "sql_type_index st_clob = 15"
| "sql_type_index st_xml = 16"
| "sql_type_index st_wchar = 17"
| "sql_type_index st_wvar_char = 18"
| "sql_type_index st_wlong_var_char = 19"
| "sql_type_index st_dbclob = 20"
| "sql_type_index st_graphic = 21"
| "sql_type_index st_var_graphic = 22"
| "sql_type_index st_binary = 23"
| "sql_type_index st_var_binary = 24"
| "sql_type_index st_long_var_binary = 25"
| "sql_type_index st_blob = 26"
| "sql_type_index st_date = 27"
| "sql_type_index st_time = 28"
| "sql_type_index st_timestamp = 29"
| "sql_type_index st_type_date = 30"
| "sql_type_index st_type_time = 31"
| "sql_type_index st_type_timestamp = 32"
| "sql_type_index st_interval_year = 33"
| "sql_type_index st_interval_month = 34"
| "sql_type_index st_interval_year_to_month = 35"
| "sql_type_index st_interval_day = 36"
| "sql_type_index st_interval_hour = 37"
| "sql_type_index st_interval_minute = 38"
| "sql_type_index st_interval_second = 39"
| "sql_type_index st_interval_day_to_hour = 40"
| "sql_type_index st_interval_day_to_minute = 41"
| "sql_type_index st_interval_day_to_second = 42"
| "sql_type_index st_interval_hour_to_minute = 43"
| "sql_type_index st_interval_hour_to_second = 44"
| "sql_type_index st_interval_minute_to_second = 45"
| "sql_type_index st_guid = 46"
| "sql_type_index st_count = 47"

text \<open>The enumeration is over \<open>int16_t\<close>: \<open>sql_type_code\<close> is the value an enumerator has there.\<close>

definition sql_type_code :: "sql_type \<Rightarrow> i16" where
  "sql_type_code t = of_nat (sql_type_index t)"

definition sql_type_count :: nat where
  "sql_type_count = sql_type_index st_count"

subsection \<open>Date, time, interval and guid structures\<close>

record date =
  d_year :: i16
  d_month :: u16
  d_day :: u16

record time =
  t_hour :: u16
  t_minute :: u16
  t_second :: u16

record timestamp =
  ts_year :: i16
  ts_month :: u16
  ts_day :: u16
  ts_hour :: u16
  ts_minute :: u16
  ts_second :: u16
  ts_fraction :: u32

datatype interval_kind =
    ik_year | ik_month | ik_day | ik_hour | ik_minute | ik_second
  | ik_year_to_month | ik_day_to_hour | ik_day_to_minute | ik_day_to_second
  | ik_hour_to_minute | ik_hour_to_second | ik_minute_to_second

record year_month =
  ym_year :: u32
  ym_month :: u32

record day_second =
  ds_day :: u32
  ds_hour :: u32
  ds_minute :: u32
  ds_second :: u32
  ds_fraction :: u32

text \<open>The anonymous union of \<open>interval\<close>: the constructor tells which member was written.\<close>

datatype interval_value = Iv_year_month year_month | Iv_day_second day_second

record interval =
  iv_kind :: interval_kind
  iv_sign :: i16
  iv_value :: interval_value

record guid =
  g_data1 :: u32
  g_data2 :: u16
  g_data3 :: u16
  g_data4 :: "u8 list"

subsection \<open>Comparison of dates\<close>

text \<open>\<open>operator==\<close> is the equality of the record. The defaulted \<open>operator<=>\<close> compares the
  members in the order of their declaration; the year is signed.\<close>

instantiation date_ext :: (linorder) linorder
begin

definition less_eq_date_ext :: "'a date_scheme \<Rightarrow> 'a date_scheme \<Rightarrow> bool" where
  "less_eq_date_ext a b \<longleftrightarrow>
     (if d_year a \<noteq> d_year b then sint (d_year a) < sint (d_year b)
      else if d_month a \<noteq> d_month b then unat (d_month a) < unat (d_month b)
      else if d_day a \<noteq> d_day b then unat (d_day a) < unat (d_day b)
      else date.more a \<le> date.more b)"

definition less_date_ext :: "'a date_scheme \<Rightarrow> 'a date_scheme \<Rightarrow> bool" where
  "less_date_ext a b \<longleftrightarrow> a \<le> b \<and> a \<noteq> b"

instance
proof
  fix a b c :: "'a date_scheme"
  have anti: "a = b" if "a \<le> b" "b \<le> a" for a b :: "'a date_scheme"
    using that by (auto simp: less_eq_date_ext_def split: if_splits)
  have neq: "x = y \<or> sint x < sint y \<or> sint y < sint x" for x y :: i16
    by (metis linorder_less_linear signed_word_eqI)
  have neq_u: "x = y \<or> unat x < unat y \<or> unat y < unat x" for x y :: u16
    by (metis linorder_less_linear word_unat_eq_iff)
  show "(a < b) = (a \<le> b \<and> \<not> b \<le> a)"
    using anti [of a b] by (auto simp: less_date_ext_def)
  show "a \<le> a" by (simp add: less_eq_date_ext_def)
  show "a \<le> b \<Longrightarrow> b \<le> c \<Longrightarrow> a \<le> c"
    by (auto simp: less_eq_date_ext_def split: if_splits)
  show "a \<le> b \<Longrightarrow> b \<le> a \<Longrightarrow> a = b" by (rule anti)
  show "a \<le> b \<or> b \<le> a"
    using neq [of "d_year a" "d_year b"] neq_u [of "d_month a" "d_month b"]
      neq_u [of "d_day a" "d_day b"] by (auto simp: less_eq_date_ext_def)
qed

end

subsection \<open>The type table\<close>

record sql_mapping =
  sm_sql :: sql_type
  sm_mnemonic :: string
  sm_category :: sql_cat
  sm_cpp_type_name :: string
  sm_par_type_name :: string
  sm_ret_type_name :: string

text \<open>\<open>sql_mapping{}\<close>: every member value-initialised.\<close>

definition empty_mapping :: sql_mapping where
  "empty_mapping = \<lparr>sm_sql = st_unknown, sm_mnemonic = [], sm_category = cat_atomic,
     sm_cpp_type_name = [], sm_par_type_name = [], sm_ret_type_name = []\<rparr>"

text \<open>\<open>m.at(i) = v\<close> throws out of range, which does not compile in a \<open>consteval\<close> function:
  that is the value \<open>None\<close>.\<close>

definition add_mapping ::
  "sql_type \<Rightarrow> string \<Rightarrow> sql_cat \<Rightarrow> string \<Rightarrow> string \<Rightarrow> string
     \<Rightarrow> sql_mapping list option \<Rightarrow> sql_mapping list option" where
  "add_mapping s mn cat cpp_name par_name ret_name m =
     (case m of None \<Rightarrow> None
      | Some tab \<Rightarrow>
          if sql_type_index s < length tab
          then Some (tab[sql_type_index s :=
            \<lparr>sm_sql = s, sm_mnemonic = mn, sm_category = cat, sm_cpp_type_name = cpp_name,
             sm_par_type_name = par_name, sm_ret_type_name = ret_name\<rparr>])
          else None)"

definition known_type_entries :: "(sql_type \<times> string \<times> sql_cat \<times> string \<times> string \<times> string) list" where
  "known_type_entries = [
     (st_integer, ''integer'', cat_atomic, ''int32_t'', ''int32_t'', ''int32_t''),
     (st_smallint, ''smallint'', cat_atomic, ''int16_t'', ''int16_t'', ''int16_t''),
     (st_bigint, ''bigint'', cat_atomic, ''int64_t'', ''int64_t'', ''int64_t''),
     (st_tiny_int, ''tinyint'', cat_atomic, ''int8_t'', ''int8_t'', ''int8_t''),
     (st_float, ''float'', cat_atomic, ''double'', ''double'', ''double''),
     (st_real, ''real'', cat_atomic, ''float'', ''float'', ''float''),
     (st_double, ''double'', cat_atomic, ''double'', ''double'', ''double''),
     (st_bit, ''bit'', cat_atomic, ''bool'', ''bool'', ''bool''),
     (st_char, ''char'', cat_c_string, ''char'', ''rtl::cstr_t'', ''rtl::cstr_t''),
     (st_numeric, ''numeric'', cat_c_string, ''char'', ''rtl::cstr_t'', ''rtl::cstr_t''),
     (st_decimal, ''decimal'', cat_c_string, ''char'', ''rtl::cstr_t'', ''rtl::cstr_t''),
     (st_var_char, ''varchar'', cat_c_string, ''char'', ''rtl::cstr_t'', ''rtl::cstr_t''),
     (st_decfloat, ''decfloat'', cat_c_string, ''char'', ''rtl::cstr_t'', ''rtl::cstr_t''),
     (st_long_var_char, ''longvarchar'', cat_c_string, ''char'', ''rtl::cstr_t'', ''rtl::cstr_t''),
     (st_clob, ''clob'', cat_c_string, ''char'', ''rtl::cstr_t'', ''rtl::cstr_t''),
     (st_xml, ''xml'', cat_c_string, ''char'', ''rtl::cstr_t'', ''rtl::cstr_t''),
     (st_wchar, ''wchar'', cat_w_string, ''wchar_t'', ''rtl::wcstr_t'', ''rtl::wcstr_t''),
     (st_wvar_char, ''wvarchar'', cat_w_string, ''wchar_t'', ''rtl::wcstr_t'', ''rtl::wcstr_t''),
     (st_wlong_var_char, ''wlongvarchar'', cat_w_string, ''wchar_t'', ''rtl::wcstr_t'', ''rtl::wcstr_t''),
     (st_dbclob, ''dbclob'', cat_w_string, ''wchar_t'', ''rtl::wcstr_t'', ''rtl::wcstr_t''),
     (st_graphic, ''graphic'', cat_b_string, ''uint8_t'', ''rtl::bcstr_t'', ''rtl::bcstr_t''),
     (st_var_graphic, ''vargraphic'', cat_b_string, ''uint8_t'', ''rtl::bcstr_t'', ''rtl::bcstr_t''),
     (st_binary, ''binary'', cat_b_string, ''uint8_t'', ''rtl::bcstr_t'', ''rtl::bcstr_t''),
     (st_var_binary, ''varbinary'', cat_b_string, ''uint8_t'', ''rtl::bcstr_t'', ''rtl::bcstr_t''),
     (st_long_var_binary, ''longvarbinary'', cat_b_string, ''uint8_t'', ''rtl::bcstr_t'', ''rtl::bcstr_t''),
     (st_blob, ''blob'', cat_b_string, ''uint8_t'', ''rtl::bcstr_t'', ''rtl::bcstr_t''),
     (st_date, ''date'', cat_structure, ''rtl::date'', ''rtl::date'', ''rtl::date''),
     (st_time, ''time'', cat_structure, ''rtl::time'', ''rtl::time'', ''rtl::time''),
     (st_timestamp, ''timestamp'', cat_structure, ''rtl::timestamp'', ''rtl::timestamp'', ''rtl::timestamp''),
     (st_type_date, ''type_date'', cat_structure, ''rtl::date'', ''rtl::date'', ''rtl::date''),
     (st_type_time, ''type_time'', cat_structure, ''rtl::time'', ''rtl::time'', ''rtl::time''),
     (st_type_timestamp, ''type_timestamp'', cat_structure, ''rtl::timestamp'', ''rtl::timestamp'', ''rtl::timestamp''),
     (st_interval_year, ''interval_year'', cat_structure, ''rtl::interval'', ''rtl::interval'', ''rtl::interval''),
     (st_interval_month, ''interval_month'', cat_structure, ''rtl::interval'', ''rtl::interval'', ''rtl::interval''),
     (st_interval_year_to_month, ''interval_year_to_month'', cat_structure, ''rtl::interval'', ''rtl::interval'', ''rtl::interval''),
     (st_interval_day, ''interval_day'', cat_structure, ''rtl::interval'', ''rtl::interval'', ''rtl::interval''),
     (st_interval_hour, ''interval_hour'', cat_structure, ''rtl::interval'', ''rtl::interval'', ''rtl::interval''),
     (st_interval_minute, ''interval_minute'', cat_structure, ''rtl::interval'', ''rtl::interval'', ''rtl::interval''),
     (st_interval_second, ''interval_second'', cat_structure, ''rtl::interval'', ''rtl::interval'', ''rtl::interval''),
     (st_interval_day_to_hour, ''interval_day_to_hour'', cat_structure, ''rtl::interval'', ''rtl::interval'', ''rtl::interval''),
     (st_interval_day_to_minute, ''interval_day_to_minute'', cat_structure, ''rtl::interval'', ''rtl::interval'', ''rtl::interval''),
     (st_interval_day_to_second, ''interval_day_to_second'', cat_structure, ''rtl::interval'', ''rtl::interval'', ''rtl::interval''),
     (st_interval_hour_to_minute, ''interval_hour_to_minute'', cat_structure, ''rtl::interval'', ''rtl::interval'', ''rtl::interval''),
     (st_interval_hour_to_second, ''interval_hour_to_second'', cat_structure, ''rtl::interval'', ''rtl::interval'', ''rtl::interval''),
     (st_interval_minute_to_second, ''interval_minute_to_second'', cat_structure, ''rtl::interval'', ''rtl::interval'', ''rtl::interval''),
     (st_guid, ''guid'', cat_structure, ''rtl::guid'', ''rtl::guid'', ''rtl::guid'')]"

definition unknown_type_entry :: "sql_type \<times> string \<times> sql_cat \<times> string \<times> string \<times> string" where
  "unknown_type_entry =
     (st_unknown, ''unknown'', cat_structure, ''void'', ''void'', ''void'')"

definition sql_mapping_entries :: "(sql_type \<times> string \<times> sql_cat \<times> string \<times> string \<times> string) list" where
  "sql_mapping_entries = known_type_entries @ [unknown_type_entry]"

definition make_sql_to_cpp_table :: "sql_mapping list option" where
  "make_sql_to_cpp_table =
     fold (\<lambda>(s, mn, cat, c, p, r). add_mapping s mn cat c p r) sql_mapping_entries
       (Some (replicate sql_type_count empty_mapping))"

definition sql_to_cpp_table :: "sql_mapping list" where
  "sql_to_cpp_table = (case make_sql_to_cpp_table of Some tab \<Rightarrow> tab | None \<Rightarrow> [])"

text \<open>The lookup converts the 16-bit enumeration value to \<open>size_t\<close>, so a negative one
  becomes huge and falls back like any other value past the table.\<close>

definition get_sql_mapping_at :: "i16 \<Rightarrow> sql_mapping" where
  "get_sql_mapping_at type =
     (let idx = unat (scast type :: u64) in
      if idx < sql_type_count then sql_to_cpp_table ! idx
      else sql_to_cpp_table ! sql_type_index st_unknown)"

definition get_sql_mapping :: "sql_type \<Rightarrow> sql_mapping" where
  "get_sql_mapping type = get_sql_mapping_at (sql_type_code type)"

subsection \<open>Column and parameter descriptions\<close>

record meta_dscr =
  md_index :: i16
  md_name :: string
  md_type :: sql_type
  md_native_type :: i32
  md_size :: u32
  md_digits :: i16
  md_nullable :: i16

type_synonym meta_vec = "meta_dscr list"

subsection \<open>The table has no hole\<close>

definition all_sql_types :: "sql_type list" where
  "all_sql_types = [
     st_unknown, st_integer, st_smallint, st_bigint, st_tiny_int, 
     st_float, st_real, st_double, st_bit, st_char, 
     st_numeric, st_decimal, st_var_char, st_decfloat, st_long_var_char, 
     st_clob, st_xml, st_wchar, st_wvar_char, st_wlong_var_char, 
     st_dbclob, st_graphic, st_var_graphic, st_binary, st_var_binary, 
     st_long_var_binary, st_blob, st_date, st_time, st_timestamp, 
     st_type_date, st_type_time, st_type_timestamp, st_interval_year, st_interval_month, 
     st_interval_year_to_month, st_interval_day, st_interval_hour, st_interval_minute, st_interval_second, 
     st_interval_day_to_hour, st_interval_day_to_minute, st_interval_day_to_second, st_interval_hour_to_minute, st_interval_hour_to_second, 
     st_interval_minute_to_second, st_guid]"

text \<open>The enumerators in the order of the enumeration: the index is the position.\<close>

lemma all_sql_types_nth: "t \<noteq> st_count \<Longrightarrow> all_sql_types ! sql_type_index t = t"
  by (cases t) (simp_all add: all_sql_types_def)

lemma sql_type_index_less: "sql_type_index t < sql_type_count \<longleftrightarrow> t \<noteq> st_count"
  by (cases t) (simp_all add: sql_type_count_def)

lemma sql_type_index_inj [simp]: "sql_type_index s = sql_type_index t \<longleftrightarrow> s = t"
  by (metis all_sql_types_nth sql_type_index_less)

lemma sql_type_count_eq: "sql_type_count = 47"
  by (simp add: sql_type_count_def)

definition mapping_of :: "sql_type \<times> string \<times> sql_cat \<times> string \<times> string \<times> string \<Rightarrow> sql_mapping" where
  "mapping_of e = (case e of (s, mn, cat, c, p, r) \<Rightarrow>
     \<lparr>sm_sql = s, sm_mnemonic = mn, sm_category = cat, sm_cpp_type_name = c,
      sm_par_type_name = p, sm_ret_type_name = r\<rparr>)"

lemma add_mapping_step:
  "sql_type_index (fst e) < length tab \<Longrightarrow>
     (case e of (s, mn, cat, c, p, r) \<Rightarrow> add_mapping s mn cat c p r) (Some tab)
       = Some (tab[sql_type_index (fst e) := mapping_of e])"
  by (cases e) (simp add: add_mapping_def mapping_of_def)

text \<open>Adding entries of distinct types, all inside the table, never fails, keeps the width,
  leaves every added entry readable at its index and touches no other slot.\<close>

lemma add_all_mappings:
  assumes "distinct (map fst es)" "\<forall>e \<in> set es. sql_type_index (fst e) < length tab"
  shows "\<exists>tab'. fold (\<lambda>(s, mn, cat, c, p, r). add_mapping s mn cat c p r) es (Some tab) = Some tab'
     \<and> length tab' = length tab
     \<and> (\<forall>e \<in> set es. tab' ! sql_type_index (fst e) = mapping_of e)
     \<and> (\<forall>i. i \<notin> sql_type_index ` fst ` set es \<longrightarrow> tab' ! i = tab ! i)"
  using assms
proof (induction es arbitrary: tab)
  case (Cons e es)
  let ?tab = "tab[sql_type_index (fst e) := mapping_of e]"
  have bnd: "sql_type_index (fst e) < length tab" using Cons.prems(2) by simp
  obtain tab' where t: "fold (\<lambda>(s, mn, cat, c, p, r). add_mapping s mn cat c p r) es (Some ?tab) = Some tab'"
    "length tab' = length ?tab" "\<forall>e \<in> set es. tab' ! sql_type_index (fst e) = mapping_of e"
    "\<forall>i. i \<notin> sql_type_index ` fst ` set es \<longrightarrow> tab' ! i = ?tab ! i"
    using Cons.IH [of ?tab] Cons.prems by auto
  have "sql_type_index (fst e) \<notin> sql_type_index ` fst ` set es"
    using Cons.prems(1) by (force simp: image_iff)
  with t bnd have "tab' ! sql_type_index (fst e) = mapping_of e" by simp
  with t bnd show ?case by (auto simp: add_mapping_step)
qed simp

lemmas entry_defs = sql_mapping_entries_def known_type_entries_def unknown_type_entry_def

lemma entry_types: "map fst sql_mapping_entries = tl all_sql_types @ [st_unknown]"
  by (simp add: entry_defs all_sql_types_def)

lemma length_all_sql_types: "length all_sql_types = sql_type_count"
  by (simp add: all_sql_types_def sql_type_count_def)

lemma index_all_sql_types: "i < sql_type_count \<Longrightarrow> sql_type_index (all_sql_types ! i) = i"
proof -
  have "list_all2 (\<lambda>t i. sql_type_index t = i) all_sql_types [0..<sql_type_count]"
    unfolding sql_type_count_eq by (simp add: all_sql_types_def upt_rec)
  then show "i < sql_type_count \<Longrightarrow> sql_type_index (all_sql_types ! i) = i"
    by (auto simp: list_all2_conv_all_nth length_all_sql_types)
qed

lemma set_all_sql_types: "t \<in> set all_sql_types \<longleftrightarrow> t \<noteq> st_count"
proof
  show "t \<noteq> st_count \<Longrightarrow> t \<in> set all_sql_types"
    by (metis all_sql_types_nth length_all_sql_types nth_mem sql_type_index_less)
qed (auto simp: all_sql_types_def)

lemma distinct_entry_types: "distinct (map fst sql_mapping_entries)"
  unfolding entry_types by (simp add: all_sql_types_def)

lemma set_entry_types: "fst ` set sql_mapping_entries = {t. t \<noteq> st_count}"
proof -
  have "fst ` set sql_mapping_entries = set (tl all_sql_types @ [st_unknown])"
    by (metis entry_types set_map)
  also have "\<dots> = set all_sql_types" by (auto simp: all_sql_types_def)
  finally show ?thesis using set_all_sql_types by blast
qed

lemma make_table:
  "make_sql_to_cpp_table = Some sql_to_cpp_table"
  "length sql_to_cpp_table = sql_type_count"
  "e \<in> set sql_mapping_entries \<Longrightarrow> sql_to_cpp_table ! sql_type_index (fst e) = mapping_of e"
proof -
  let ?tab = "replicate sql_type_count empty_mapping"
  have "\<forall>e \<in> set sql_mapping_entries. sql_type_index (fst e) < length ?tab"
    using set_entry_types by (auto simp: sql_type_index_less)
  from add_all_mappings [OF distinct_entry_types this]
  obtain tab' where t: "make_sql_to_cpp_table = Some tab'" "length tab' = sql_type_count"
    "\<forall>e \<in> set sql_mapping_entries. tab' ! sql_type_index (fst e) = mapping_of e"
    unfolding make_sql_to_cpp_table_def by auto
  then have "sql_to_cpp_table = tab'" unfolding sql_to_cpp_table_def t(1) by simp
  with t show "make_sql_to_cpp_table = Some sql_to_cpp_table"
    "length sql_to_cpp_table = sql_type_count"
    "e \<in> set sql_mapping_entries \<Longrightarrow> sql_to_cpp_table ! sql_type_index (fst e) = mapping_of e"
    by auto
qed

lemma table_entry:
  assumes "t \<noteq> st_count"
  obtains e where "e \<in> set sql_mapping_entries" "fst e = t"
    "sql_to_cpp_table ! sql_type_index t = mapping_of e"
proof -
  from assms have "t \<in> fst ` set sql_mapping_entries" by (simp add: set_entry_types)
  then obtain e where "e \<in> set sql_mapping_entries" "fst e = t" by auto
  with make_table(3) that show thesis by metis
qed

lemma sm_sql_mapping_of [simp]: "sm_sql (mapping_of e) = fst e"
  by (simp add: mapping_of_def split: prod.splits)

lemma unat_sign_extended: "unat (scast (c :: i16) :: u64) =
    (if 0 \<le> sint c then nat (sint c) else nat (2 ^ 64 + sint c))"
proof (cases "0 \<le> sint c")
  case True
  have "sint c < 2 ^ 15" using sint_lt [of c] by simp
  with True show ?thesis by (simp only: scast_eq unat_eq_nat_uint uint_word_of_int) simp
next
  case False
  have b: "- (2 ^ 15) \<le> sint c" using sint_ge [of c] by simp
  have "sint c mod 2 ^ 64 = (sint c + 2 ^ 64) mod 2 ^ 64" by simp
  also have "\<dots> = sint c + 2 ^ 64" using False b by (intro mod_pos_pos_trivial) auto
  finally show ?thesis
    using False by (simp only: scast_eq unat_eq_nat_uint uint_word_of_int) (simp add: add.commute)
qed

lemma index_unat_sign_extended:
  "unat (scast (c :: i16) :: u64) < sql_type_count \<longleftrightarrow> 0 \<le> sint c \<and> sint c < 47"
  using sint_ge [of c] by (auto simp: unat_sign_extended sql_type_count_eq)

lemma sint_sql_type_code: "sint (sql_type_code t) = int (sql_type_index t)"
proof -
  have "sql_type_index t < 48"
    using sql_type_index_less [of t] by (cases "t = st_count") (auto simp: sql_type_count_eq)
  then show ?thesis
    by (simp add: sql_type_code_def signed_of_nat signed_take_bit_int_eq_self)
qed

text \<open>On the enumerators themselves the lookup reads the slot of the type.\<close>

lemma get_sql_mapping_nth: "t \<noteq> st_count \<Longrightarrow> get_sql_mapping t = sql_to_cpp_table ! sql_type_index t"
  using sql_type_index_less [of t]
  by (simp add: get_sql_mapping_def get_sql_mapping_at_def unat_sign_extended sint_sql_type_code)

lemma get_sql_mapping_sql: "t \<noteq> st_count \<Longrightarrow> sm_sql (get_sql_mapping t) = t"
  by (metis get_sql_mapping_nth table_entry sm_sql_mapping_of)

text \<open>The slots of the table in closed form, for the readers of single columns.\<close>

lemma sql_to_cpp_table_map:
  "sql_to_cpp_table = map mapping_of (unknown_type_entry # known_type_entries)"
proof (rule nth_equalityI)
  show len: "length sql_to_cpp_table
      = length (map mapping_of (unknown_type_entry # known_type_entries))"
    by (simp add: make_table(2) sql_type_count_eq entry_defs)
  let ?es = "unknown_type_entry # known_type_entries"
  have ty: "map fst ?es = all_sql_types"
    by (simp add: entry_defs all_sql_types_def)
  have sub: "set ?es \<subseteq> set sql_mapping_entries"
    by (simp add: sql_mapping_entries_def)
  fix i assume "i < length sql_to_cpp_table"
  then have i: "i < length ?es" "i < sql_type_count" using len make_table(2) by simp_all
  have "fst (?es ! i) = all_sql_types ! i" using i(1) nth_map [of i ?es fst] ty by metis
  moreover have "sql_type_index (all_sql_types ! i) = i"
    using i(2) index_all_sql_types by simp
  moreover have "?es ! i \<in> set sql_mapping_entries" using sub nth_mem [OF i(1)] by blast
  ultimately have "sql_to_cpp_table ! i = mapping_of (?es ! i)" using make_table(3) by metis
  then show "sql_to_cpp_table ! i = map mapping_of ?es ! i" by (simp only: nth_map [OF i(1)])
qed

lemma category_column:
  "map sm_category sql_to_cpp_table = cat_structure # replicate 8 cat_atomic @ replicate 8 cat_c_string
     @ replicate 4 cat_w_string @ replicate 6 cat_b_string @ replicate 20 cat_structure"
  unfolding sql_to_cpp_table_map
  by (simp add: entry_defs mapping_of_def eval_nat_numeral)

text \<open>The storage category of a type, by its place in the enumeration.\<close>

lemma category_by_index:
  assumes "t \<noteq> st_count"
  shows "sm_category (get_sql_mapping t) =
    (let i = sql_type_index t in
     if i = 0 then cat_structure else if i \<le> 8 then cat_atomic else if i \<le> 16 then cat_c_string
     else if i \<le> 20 then cat_w_string else if i \<le> 26 then cat_b_string else cat_structure)"
proof -
  have i: "sql_type_index t < length sql_to_cpp_table"
    using assms by (simp add: make_table(2) sql_type_index_less)
  have "sm_category (sql_to_cpp_table ! sql_type_index t) = map sm_category sql_to_cpp_table ! sql_type_index t"
    using i by simp
  also have "\<dots> = (let i = sql_type_index t in
     if i = 0 then cat_structure else if i \<le> 8 then cat_atomic else if i \<le> 16 then cat_c_string
     else if i \<le> 20 then cat_w_string else if i \<le> 26 then cat_b_string else cat_structure)"
    unfolding category_column using i
    by (auto simp: nth_append nth_Cons' Let_def make_table(2) sql_type_count_eq)
  finally show ?thesis using assms by (simp add: get_sql_mapping_nth)
qed

text \<open>every one of the 65536 values of the 16-bit enumeration resolves to a named entry of
  the table: a value inside the enumeration to the entry of that very type, any other,
  negative ones included, to the entry of \<open>unknown\<close>. The table itself is built without an
  index out of range and has no slot left unnamed (the \<open>static_assert\<close>).\<close>

theorem sql_mapping_total:
  "make_sql_to_cpp_table = Some sql_to_cpp_table \<and> length sql_to_cpp_table = sql_type_count
   \<and> list_all (\<lambda>m. sm_mnemonic m \<noteq> []) sql_to_cpp_table
   \<and> sm_sql (get_sql_mapping_at c)
      = (if 0 \<le> sint c \<and> sint c < 47 then all_sql_types ! nat (sint c) else st_unknown)
   \<and> sm_mnemonic (get_sql_mapping_at c) \<noteq> []"
proof -
  have named: "list_all (\<lambda>m. sm_mnemonic m \<noteq> []) sql_to_cpp_table"
    unfolding sql_to_cpp_table_map
    by (simp add: entry_defs mapping_of_def)
  define i where "i = (if 0 \<le> sint c \<and> sint c < 47 then nat (sint c) else 0)"
  have i: "i < sql_type_count" by (auto simp: i_def sql_type_count_eq)
  have at: "get_sql_mapping_at c = sql_to_cpp_table ! i"
    using index_unat_sign_extended [of c]
    by (auto simp: get_sql_mapping_at_def i_def unat_sign_extended)
  have "sm_sql (sql_to_cpp_table ! i) = all_sql_types ! i"
    using i index_all_sql_types [OF i] get_sql_mapping_sql [of "all_sql_types ! i"]
      get_sql_mapping_nth [of "all_sql_types ! i"] set_all_sql_types length_all_sql_types
    by (metis nth_mem)
  moreover have "all_sql_types ! 0 = st_unknown" by (simp add: all_sql_types_def)
  moreover have "sm_mnemonic (sql_to_cpp_table ! i) \<noteq> []"
    using named i make_table(2) by (simp add: list_all_length)
  ultimately show ?thesis using named make_table(1,2) at by (auto simp: i_def)
qed

text \<open>the mnemonic that ends up in the generated comments identifies the type, and the
  categories of the table agree with the storage types: atomic and structure entries use one
  type for storage, setter and getter.\<close>

theorem sql_mapping_mnemonics:
  "distinct (map sm_mnemonic sql_to_cpp_table)
   \<and> list_all (\<lambda>m. case sm_category m of
        cat_c_string \<Rightarrow> sm_cpp_type_name m = ''char''
      | cat_w_string \<Rightarrow> sm_cpp_type_name m = ''wchar_t''
      | cat_b_string \<Rightarrow> sm_cpp_type_name m = ''uint8_t''
      | _ \<Rightarrow> sm_par_type_name m = sm_cpp_type_name m \<and> sm_ret_type_name m = sm_cpp_type_name m)
      sql_to_cpp_table"
  unfolding sql_to_cpp_table_map
  by (simp add: entry_defs mapping_of_def)

lemma length_lowercase [simp]: "length (lowercase s) = length s"
  by (simp add: lowercase_def)

lemma lowercase_idem [simp]: "lowercase (lowercase s) = lowercase s"
  by (simp add: lowercase_def)

end
