(* ===== verification/Calendar.thy ===== *)
theory Calendar
  imports Sql_Types
begin

text \<open>
  The comparison of \<open>rtl::date\<close> (\<open>src/rtl/sql_types.hpp\<close>) against the calendar. The class
  instance in \<open>Sql_Types\<close> is the defaulted three-way comparison of the members; here it
  is shown to order dates as the proleptic Gregorian day count does.
\<close>

subsection \<open>Calendar order\<close>

text \<open>The proleptic Gregorian calendar as the reference: \<open>day_number\<close> counts days.\<close>

definition leap_year :: "int \<Rightarrow> bool" where
  "leap_year y \<longleftrightarrow> y mod 4 = 0 \<and> (y mod 100 \<noteq> 0 \<or> y mod 400 = 0)"

definition month_len :: "int \<Rightarrow> nat \<Rightarrow> nat" where
  "month_len y m = (if m = 2 then (if leap_year y then 29 else 28)
     else if m \<in> {4, 6, 9, 11} then 30 else 31)"

primrec days_before_month :: "int \<Rightarrow> nat \<Rightarrow> nat" where
  "days_before_month y 0 = 0"
| "days_before_month y (Suc m) = days_before_month y m + (if m = 0 then 0 else month_len y m)"

definition days_before_year :: "int \<Rightarrow> int" where
  "days_before_year y = 365 * y + (y + 3) div 4 - (y + 99) div 100 + (y + 399) div 400"

definition day_number :: "date \<Rightarrow> int" where
  "day_number d = days_before_year (sint (d_year d))
     + int (days_before_month (sint (d_year d)) (unat (d_month d)) + unat (d_day d))"

definition valid_date :: "date \<Rightarrow> bool" where
  "valid_date d \<longleftrightarrow> 1 \<le> unat (d_month d) \<and> unat (d_month d) \<le> 12
     \<and> 1 \<le> unat (d_day d) \<and> unat (d_day d) \<le> month_len (sint (d_year d)) (unat (d_month d))"

lemma div_next: "0 < k \<Longrightarrow> (y + k) div k = (y + k - 1) div k + (if y mod k = 0 then 1 else (0::int))"
proof -
  assume k: "0 < k"
  show ?thesis
  proof (cases "y mod k = 0")
    case True
    then obtain q where "y = k * q" by (auto simp: dvd_def dest: mod_0_imp_dvd)
    moreover have "(k * q + k - 1) div k = q"
      using k by (intro int_div_pos_eq [where r = "k - 1"]) auto
    ultimately show ?thesis using k by simp
  next
    case False
    have "y = k * (y div k) + y mod k" by simp
    moreover have "0 < y mod k" "y mod k < k" using False k pos_mod_sign [of k y] pos_mod_bound [of k y] by linarith+
    ultimately have "(y + k - 1) div k = y div k + 1"
      by (intro int_div_pos_eq [where r = "y mod k - 1"]) (auto simp: algebra_simps)
    moreover have "(y + k) div k = y div k + 1" using k by (simp add: div_add_self2)
    ultimately show ?thesis using False by simp
  qed
qed

lemma days_before_year_Suc: "days_before_year (y + 1) = days_before_year y + (if leap_year y then 366 else 365)"
proof -
  have step: "p + (a + (if P then 1 else 0)) - (b + (if Q then 1 else 0)) + (c + (if R then 1 else 0))
      = q + a - b + c + (if P \<and> (\<not> Q \<or> R) then 366 else 365)"
    if "p = q + 365" "R \<Longrightarrow> Q" "Q \<Longrightarrow> P" for p q a b c :: int and P Q R
    using that by (cases P; cases Q; cases R) simp_all
  have y: "y + 1 + 3 = y + 4" "y + 1 + 99 = y + 100" "y + 1 + 399 = y + 400"
    "y + 4 - 1 = y + 3" "y + 100 - 1 = y + 99" "y + 400 - 1 = y + 399" by simp_all
  have "400 dvd y \<Longrightarrow> 100 dvd y" "100 dvd y \<Longrightarrow> 4 dvd y"
    by (erule dvd_trans [rotated], simp)+
  then have m: "y mod 400 = 0 \<Longrightarrow> y mod 100 = 0" "y mod 100 = 0 \<Longrightarrow> y mod 4 = 0"
    by (simp_all only: mod_eq_0_iff_dvd)
  show ?thesis
    unfolding days_before_year_def leap_year_def y
      div_next [of 4 y, unfolded y, OF zero_less_numeral] div_next [of 100 y, unfolded y, OF zero_less_numeral]
      div_next [of 400 y, unfolded y, OF zero_less_numeral]
    by (rule step, simp, erule m(1), erule m(2))
qed

lemma days_before_year_mono: "y \<le> y' \<Longrightarrow> days_before_year y \<le> days_before_year y'"
  by (induction y' rule: int_ge_induct) (auto simp: days_before_year_Suc)

lemma days_before_month_mono: "m \<le> m' \<Longrightarrow> days_before_month y m \<le> days_before_month y m'"
  by (induction m' rule: dec_induct) auto

lemma days_before_month_13: "days_before_month y 13 = (if leap_year y then 366 else 365)"
  by (simp add: eval_nat_numeral month_len_def)

lemma day_in_month:
  assumes "valid_date d" "unat (d_month d) < m"
  shows "days_before_month (sint (d_year d)) (unat (d_month d)) + unat (d_day d)
    \<le> days_before_month (sint (d_year d)) m"
proof -
  have "days_before_month (sint (d_year d)) (Suc (unat (d_month d))) \<le> days_before_month (sint (d_year d)) m"
    using assms(2) by (intro days_before_month_mono) simp
  then show ?thesis using assms(1) by (auto simp: valid_date_def)
qed

lemma day_number_less:
  assumes "valid_date a" "valid_date b" "a < b"
  shows "day_number a < day_number b"
proof -
  have pos: "0 < unat (d_day b)" using assms(2) by (simp add: valid_date_def)
  consider (y) "sint (d_year a) < sint (d_year b)"
    | (m) "d_year a = d_year b" "unat (d_month a) < unat (d_month b)"
    | (d) "d_year a = d_year b" "d_month a = d_month b" "unat (d_day a) < unat (d_day b)"
    using assms(3) by (auto simp: less_date_ext_def less_eq_date_ext_def split: if_splits)
  then show ?thesis
  proof cases
    case y
    have "unat (d_month a) < 13" using assms(1) by (simp add: valid_date_def)
    then have "day_number a \<le> days_before_year (sint (d_year a) + 1)"
      using day_in_month [OF assms(1), of 13]
      by (simp add: day_number_def days_before_month_13 days_before_year_Suc del: of_nat_add split: if_splits)
    also have "\<dots> \<le> days_before_year (sint (d_year b))" using y by (intro days_before_year_mono) simp
    also have "\<dots> < day_number b" using pos by (simp add: day_number_def del: of_nat_add)
    finally show ?thesis .
  next
    case m
    then show ?thesis using day_in_month [OF assms(1) m(2)] pos by (simp add: day_number_def del: of_nat_add)
  next
    case d
    then show ?thesis by (simp add: day_number_def flip: of_nat_less_iff [where 'a = int])
  qed
qed

text \<open>the defaulted comparison of \<open>rtl::date\<close> is chronological: on dates of the
  calendar, years before 1 included, it orders exactly as the number of days does.\<close>

theorem date_order_chronological:
  assumes "valid_date a" "valid_date b"
  shows "(a < b \<longleftrightarrow> day_number a < day_number b) \<and> (a \<le> b \<longleftrightarrow> day_number a \<le> day_number b)"
  using day_number_less [OF assms] day_number_less [OF assms(2,1)]
  by (cases a b rule: linorder_cases) auto

theorem date_order_chronological_witness:
  "(\<lparr>d_year = - 1, d_month = 12, d_day = 31\<rparr> :: date) < \<lparr>d_year = 2024, d_month = 2, d_day = 29\<rparr>
   \<and> day_number \<lparr>d_year = - 1, d_month = 12, d_day = 31\<rparr>
      < day_number \<lparr>d_year = 2024, d_month = 2, d_day = 29\<rparr>"
proof -
  let ?a = "\<lparr>d_year = - 1, d_month = 12, d_day = 31\<rparr> :: date"
  let ?b = "\<lparr>d_year = 2024, d_month = 2, d_day = 29\<rparr> :: date"
  have "valid_date ?a" "valid_date ?b" "?a < ?b"
    by (simp_all add: valid_date_def month_len_def leap_year_def less_date_ext_def less_eq_date_ext_def)
  with date_order_chronological [of ?a ?b] show ?thesis by simp
qed

end
