(* ===== verification/Common_Text.thy ===== *)
theory Common_Text
  imports Sql_Types
begin

text \<open>
  The text and file helpers of the generator (\<open>src/dbgen4/common/common.cpp\<close>,
  \<open>parser_errors.hpp\<close>): joining, trimming, splitting into prefixed lines, indenting, and
  reading and writing a file over an explicit file system. \<open>std::getline\<close> is modelled as
  the stream defines it: the loop stops when nothing could be extracted, so a delimiter at
  the very end opens no further segment.
\<close>

subsection \<open>Join, trim, split\<close>

definition join :: "string list \<Rightarrow> string \<Rightarrow> string" where
  "join els delim =
     (let s = concat (map (\<lambda>el. el @ delim) els) in
      if s \<noteq> [] then take (length s - length delim) s else s)"

text \<open>\<open>first\<close> and \<open>last\<close> are the positions the two searches stop at; \<open>first \<ge> last\<close> is the
  all-blank case.\<close>

definition trim_whitespace_view :: "string \<Rightarrow> string" where
  "trim_whitespace_view s =
     (let first = length (takeWhile is_space s);
          last = length s - length (takeWhile is_space (rev s))
      in if first \<ge> last then [] else take (last - first) (drop first s))"

definition trim_trailing_whitespace_view :: "string \<Rightarrow> string" where
  "trim_trailing_whitespace_view s = take (length s - length (takeWhile is_space (rev s))) s"

definition getline :: "char \<Rightarrow> string \<Rightarrow> (string \<times> string) option" where
  "getline delimiter ss =
     (if ss = [] then None
      else Some (takeWhile (\<lambda>c. c \<noteq> delimiter) ss, drop 1 (dropWhile (\<lambda>c. c \<noteq> delimiter) ss)))"

lemma getline_shorter: "getline d ss = Some (segment, rest) \<Longrightarrow> length rest < length ss"
proof -
  assume "getline d ss = Some (segment, rest)"
  then have "ss \<noteq> []" "rest = drop 1 (dropWhile (\<lambda>c. c \<noteq> d) ss)" by (auto simp: getline_def split: if_splits)
  moreover have "length (dropWhile (\<lambda>c. c \<noteq> d) ss) \<le> length ss" by (rule length_dropWhile_le)
  ultimately show ?thesis by (cases "dropWhile (\<lambda>c. c \<noteq> d) ss") auto
qed

function prefix_split :: "string \<Rightarrow> char \<Rightarrow> string \<Rightarrow> string list" where
  "prefix_split ss delimiter prefix =
     (case getline delimiter ss of
        None \<Rightarrow> []
      | Some (segment, rest) \<Rightarrow> (prefix @ segment) # prefix_split rest delimiter prefix)"
  by pat_completeness auto
termination
  by (relation "measure (\<lambda>(ss, _, _). length ss)") (auto dest: getline_shorter)

declare prefix_split.simps [simp del]

definition offset_text :: "string \<Rightarrow> nat \<Rightarrow> string" where
  "offset_text body offs =
     (let sql_view = trim_whitespace_view body in
      if CHR 0x0A \<in> set sql_view
      then nl @ join (prefix_split sql_view (CHR 0x0A) (replicate offs (CHR '' ''))) nl
      else sql_view)"

definition prefix_text :: "string \<Rightarrow> nat \<Rightarrow> string" where
  "prefix_text body offs =
     join (prefix_split (trim_whitespace_view body) (CHR 0x0A) (replicate offs (CHR '' ''))) nl"

definition lowercase_gen :: "string \<Rightarrow> string" where
  "lowercase_gen input_view = map to_lower input_view"

subsection \<open>Files\<close>

text \<open>The file system: the contents of the files that can be opened for reading, and the
  paths that can be opened for writing.\<close>

record file_system =
  fs_files :: "string \<Rightarrow> string option"
  fs_writable :: "string \<Rightarrow> bool"

definition read_file :: "file_system \<Rightarrow> string \<Rightarrow> string + string" where
  "read_file fs filename =
     (case fs_files fs filename of
        None \<Rightarrow> Inl (''Cant read file: '' @ [CHR 0x27] @ filename @ [CHR 0x27] @ ''.'')
      | Some content \<Rightarrow> Inr content)"

text \<open>\<open>write_file\<close> builds an \<open>std::unexpected\<close> when the stream is not good, drops it, and goes on:
  the write on a bad stream does nothing and the function answers the empty string.\<close>

definition write_file :: "file_system \<Rightarrow> string \<Rightarrow> string \<Rightarrow> (string + string) \<times> file_system" where
  "write_file fs filename contents =
     (Inr [], if fs_writable fs filename then fs\<lparr>fs_files := (fs_files fs)(filename \<mapsto> contents)\<rparr> else fs)"

subsection \<open>Properties\<close>

lemma join_Nil [simp]: "join [] d = []"
  by (simp add: join_def)

lemma join_single [simp]: "join [x] d = x"
  by (simp add: join_def Let_def)

lemma join_Cons: "xs \<noteq> [] \<Longrightarrow> d \<noteq> [] \<Longrightarrow> join (x # xs) d = x @ d @ join xs d"
  by (cases xs) (auto simp: join_def Let_def)

lemma prefix_split_Nil [simp]: "prefix_split [] d p = []"
  by (simp add: prefix_split.simps getline_def)

lemma prefix_split_unfold:
  "s \<noteq> [] \<Longrightarrow> prefix_split s d p =
     (p @ takeWhile (\<lambda>c. c \<noteq> d) s) # prefix_split (drop 1 (dropWhile (\<lambda>c. c \<noteq> d) s)) d p"
  by (simp add: prefix_split.simps [of s] getline_def)

lemma prefix_split_prefix: "prefix_split s d p = map ((@) p) (prefix_split s d [])"
proof (induction s arbitrary: rule: length_induct)
  case (1 s)
  show ?case
  proof (cases "s = []")
    case False
    have "length (drop 1 (dropWhile (\<lambda>c. c \<noteq> d) s)) < length s"
      using False getline_shorter [of d s] by (simp add: getline_def)
    with 1 have "prefix_split (drop 1 (dropWhile (\<lambda>c. c \<noteq> d) s)) d p
        = map ((@) p) (prefix_split (drop 1 (dropWhile (\<lambda>c. c \<noteq> d) s)) d [])" by blast
    then show ?thesis by (simp add: prefix_split_unfold [OF False])
  qed simp
qed

lemma prefix_split_no_delim: "x \<in> set (prefix_split s d []) \<Longrightarrow> d \<notin> set x"
proof (induction s arbitrary: x rule: length_induct)
  case (1 s)
  show ?case
  proof (cases "s = []")
    case False
    have "length (drop 1 (dropWhile (\<lambda>c. c \<noteq> d) s)) < length s"
      using False getline_shorter [of d s] by (simp add: getline_def)
    then have "\<forall>x. x \<in> set (prefix_split (drop 1 (dropWhile (\<lambda>c. c \<noteq> d) s)) d []) \<longrightarrow> d \<notin> set x"
      using 1(1) by blast
    with 1(2) show ?thesis by (auto simp: prefix_split_unfold [OF False] dest: set_takeWhileD)
  qed (use 1 in simp)
qed

lemma prefix_split_eq_Nil [simp]: "prefix_split s d p = [] \<longleftrightarrow> s = []"
  by (cases "s = []") (simp_all add: prefix_split_unfold)

text \<open>A text that does not end in the delimiter is exactly its segments joined.\<close>

lemma join_prefix_split:
  "s = [] \<or> last s \<noteq> d \<Longrightarrow> join (prefix_split s d []) [d] = s"
proof (induction s rule: length_induct)
  case (1 s)
  show ?case
  proof (cases "s = []")
    case False
    let ?rest = "drop 1 (dropWhile (\<lambda>c. c \<noteq> d) s)"
    have len: "length ?rest < length s" using False getline_shorter [of d s] by (simp add: getline_def)
    have s: "s = takeWhile (\<lambda>c. c \<noteq> d) s @ dropWhile (\<lambda>c. c \<noteq> d) s" by simp
    show ?thesis
    proof (cases "dropWhile (\<lambda>c. c \<noteq> d) s")
      case Nil
      then have "takeWhile (\<lambda>c. c \<noteq> d) s = s" using s by (metis append_Nil2)
      with Nil show ?thesis by (simp only: prefix_split_unfold [OF False]) simp
    next
      case (Cons c r)
      then have c: "c = d" using hd_dropWhile [of "\<lambda>c. c \<noteq> d" s] by simp
      have "last s = last (c # r)" using s Cons by (metis last_appendR list.simps(3))
      with 1(2) False c have r: "r \<noteq> []" "last r \<noteq> d" by (auto split: if_splits)
      have rest: "?rest = r" using Cons by simp
      have "join (prefix_split r d []) [d] = r" using 1(1) len r(2) rest by auto
      moreover have "prefix_split r d [] \<noteq> []" using r by simp
      ultimately show ?thesis
        using s Cons c rest by (simp add: prefix_split_unfold [OF False] join_Cons)
    qed
  qed simp
qed

lemma takeWhile_rev_split: "s = take (length s - length (takeWhile P (rev s))) s @ rev (takeWhile P (rev s))"
proof -
  have "rev s = takeWhile P (rev s) @ dropWhile P (rev s)" by simp
  then have "s = rev (dropWhile P (rev s)) @ rev (takeWhile P (rev s))"
    by (metis rev_append rev_rev_ident)
  moreover have "length s - length (takeWhile P (rev s)) = length (rev (dropWhile P (rev s)))"
    using calculation by (metis add_diff_cancel_right' length_append length_rev)
  ultimately show ?thesis by (metis append_eq_conv_conj)
qed

lemma trim_trailing_rev: "trim_trailing_whitespace_view s = rev (dropWhile is_space (rev s))"
  unfolding trim_trailing_whitespace_view_def
  by (metis append_same_eq rev_append rev_rev_ident takeWhile_dropWhile_id takeWhile_rev_split)

lemma trim_is_drop: "trim_whitespace_view s = dropWhile is_space (trim_trailing_whitespace_view s)"
proof -
  let ?n = "length (takeWhile is_space s)" and ?k = "length s - length (takeWhile is_space (rev s))"
  let ?t = "trim_trailing_whitespace_view s"
  have t: "?t = take ?k s" by (simp add: trim_trailing_whitespace_view_def)
  have split: "s = ?t @ rev (takeWhile is_space (rev s))"
    using takeWhile_rev_split by (simp add: trim_trailing_whitespace_view_def)
  show ?thesis
  proof (cases "?k \<le> ?n")
    case True
    then have "?t = take ?k (takeWhile is_space s)" unfolding t
      by (metis append_take_drop_id length_take min.absorb2 take_append takeWhile_eq_take take_take)
    then have "\<forall>c \<in> set ?t. is_space c" by (metis in_set_takeD set_takeWhileD)
    then have "dropWhile is_space ?t = []" by (simp add: dropWhile_eq_Nil_conv)
    with True show ?thesis by (simp only: trim_whitespace_view_def Let_def) simp
  next
    case False
    have "takeWhile is_space ?t = takeWhile is_space s"
    proof (cases "\<forall>c \<in> set ?t. is_space c")
      case True
      then have "takeWhile is_space s = ?t @ takeWhile is_space (rev (takeWhile is_space (rev s)))"
        by (subst split) (simp add: takeWhile_append2)
      then have "?k \<le> ?n" using t by (metis diff_le_self length_append length_take min.absorb2 le_add1)
      with False show ?thesis by simp
    next
      case False
      then show ?thesis by (subst (2) split) (auto simp: takeWhile_append1)
    qed
    then have "dropWhile is_space ?t = drop ?n ?t" by (metis dropWhile_eq_drop)
    then show ?thesis using False t by (simp add: trim_whitespace_view_def drop_take Let_def)
  qed
qed

lemma trim_surrounded:
  obtains pre post where "s = pre @ trim_whitespace_view s @ post"
    "\<forall>c \<in> set pre. is_space c" "\<forall>c \<in> set post. is_space c"
proof -
  let ?t = "trim_trailing_whitespace_view s"
  have "s = ?t @ rev (takeWhile is_space (rev s))"
    using takeWhile_rev_split by (simp add: trim_trailing_whitespace_view_def)
  moreover have "?t = takeWhile is_space ?t @ trim_whitespace_view s" by (simp add: trim_is_drop)
  ultimately have "s = takeWhile is_space ?t @ trim_whitespace_view s @ rev (takeWhile is_space (rev s))"
    by (metis append.assoc)
  then show thesis by (rule that) (auto dest: set_takeWhileD)
qed

lemma trim_edges:
  assumes "trim_whitespace_view s \<noteq> []"
  shows "\<not> is_space (hd (trim_whitespace_view s))" "\<not> is_space (last (trim_whitespace_view s))"
proof -
  let ?t = "trim_trailing_whitespace_view s"
  have ne: "dropWhile is_space ?t \<noteq> []" using assms by (simp add: trim_is_drop)
  then show "\<not> is_space (hd (trim_whitespace_view s))"
    by (metis trim_is_drop hd_dropWhile)
  have "?t \<noteq> []" using ne by auto
  then have "dropWhile is_space (rev s) \<noteq> []" by (simp add: trim_trailing_rev)
  then have "\<not> is_space (last ?t)" by (simp add: trim_trailing_rev last_rev hd_dropWhile)
  moreover have "last (dropWhile is_space ?t) = last ?t"
    using ne by (metis last_appendR takeWhile_dropWhile_id)
  ultimately show "\<not> is_space (last (trim_whitespace_view s))" by (simp add: trim_is_drop)
qed

lemma trim_fixed: "s = [] \<or> (\<not> is_space (hd s) \<and> \<not> is_space (last s)) \<Longrightarrow> trim_whitespace_view s = s"
proof (cases "s = []")
  case True
  then show ?thesis by (simp add: trim_whitespace_view_def)
next
  case False
  assume "s = [] \<or> (\<not> is_space (hd s) \<and> \<not> is_space (last s))"
  with False have "\<not> is_space (hd s)" "\<not> is_space (hd (rev s))" by (simp_all add: hd_rev)
  with False have "takeWhile is_space s = []" "takeWhile is_space (rev s) = []"
    by (simp_all add: takeWhile_eq_Nil_iff)
  then show ?thesis by (simp add: trim_whitespace_view_def)
qed

lemma newline_is_space: "is_space (CHR 0x0A)"
  by (simp add: is_space_def)

lemma trim_no_final_newline: "trim_whitespace_view s = [] \<or> last (trim_whitespace_view s) \<noteq> CHR 0x0A"
  using trim_edges(2) newline_is_space by metis

text \<open>trimming removes whitespace at both ends and nothing else: the text is the trimmed one
  between two blank stretches, the trimmed text neither starts nor ends blank, and trimming
  again changes nothing.\<close>

theorem trim_whitespace_correct:
  "(\<exists>pre post. s = pre @ trim_whitespace_view s @ post \<and> list_all is_space (pre @ post))
   \<and> (trim_whitespace_view s = []
      \<or> (\<not> is_space (hd (trim_whitespace_view s)) \<and> \<not> is_space (last (trim_whitespace_view s))))
   \<and> trim_whitespace_view (trim_whitespace_view s) = trim_whitespace_view s"
proof (intro conjI)
  show "\<exists>pre post. s = pre @ trim_whitespace_view s @ post \<and> list_all is_space (pre @ post)"
    by (rule trim_surrounded [of s]) (auto simp: list_all_iff)
  show edges: "trim_whitespace_view s = []
      \<or> (\<not> is_space (hd (trim_whitespace_view s)) \<and> \<not> is_space (last (trim_whitespace_view s)))"
    using trim_edges by blast
  then show "trim_whitespace_view (trim_whitespace_view s) = trim_whitespace_view s"
    by (rule trim_fixed)
qed

text \<open>splitting and joining are inverse: a text that does not end in the delimiter is its segments
  joined by it, no segment holds the delimiter, and a prefix is put in front of every segment.\<close>

theorem split_join_roundtrip:
  assumes "s = [] \<or> last s \<noteq> d"
  shows "join (prefix_split s d []) [d] = s
    \<and> list_all (\<lambda>x. d \<notin> set x) (prefix_split s d [])
    \<and> prefix_split s d p = map ((@) p) (prefix_split s d [])"
proof (intro conjI)
  show "join (prefix_split s d []) [d] = s" by (rule join_prefix_split [OF assms])
  show "list_all (\<lambda>x. d \<notin> set x) (prefix_split s d [])"
    using prefix_split_no_delim [of _ s d] by (auto simp: list_all_iff)
  show "prefix_split s d p = map ((@) p) (prefix_split s d [])" by (rule prefix_split_prefix)
qed

theorem split_join_roundtrip_witness:
  "join (prefix_split ''a,,b'' (CHR '','') []) '','' = ''a,,b''
   \<and> prefix_split ''a,,b'' (CHR '','') ''> '' = [''> a'', ''> '', ''> b'']"
  using split_join_roundtrip [of "''a,,b''" "CHR '',''" "''> ''"]
  by (simp add: prefix_split_unfold)

lemma join_eq_Nil: "d \<noteq> [] \<Longrightarrow> join xs d = [] \<longleftrightarrow> xs = [] \<or> xs = [[]]"
  by (cases xs) (auto simp: join_def Let_def)

text \<open>Splitting a joined list of delimiter-free segments gives the segments back, unless the
  last one is empty (a trailing delimiter opens no segment).\<close>

lemma prefix_split_join:
  "xs \<noteq> [] \<Longrightarrow> \<forall>x \<in> set xs. d \<notin> set x \<Longrightarrow> last xs \<noteq> [] \<Longrightarrow> prefix_split (join xs [d]) d [] = xs"
proof (induction xs)
  case (Cons x xs)
  have tw: "takeWhile (\<lambda>c. c \<noteq> d) x = x" "dropWhile (\<lambda>c. c \<noteq> d) x = []"
    using Cons.prems(2) by (auto simp: takeWhile_eq_all_conv dropWhile_eq_Nil_conv)
  show ?case
  proof (cases "xs = []")
    case True
    then show ?thesis using Cons.prems by (simp add: prefix_split_unfold tw)
  next
    case False
    then have j: "join (x # xs) [d] = x @ d # join xs [d]" by (simp add: join_Cons)
    have no: "\<forall>c \<in> set x. c \<noteq> d" using Cons.prems(2) by auto
    have "takeWhile (\<lambda>c. c \<noteq> d) (x @ d # join xs [d]) = x"
      "dropWhile (\<lambda>c. c \<noteq> d) (x @ d # join xs [d]) = d # join xs [d]"
      using no by (simp_all add: takeWhile_append2 dropWhile_append2)
    then have "prefix_split (x @ d # join xs [d]) d [] = x # prefix_split (join xs [d]) d []"
      by (subst prefix_split_unfold) simp_all
    then show ?thesis using Cons False j by simp
  qed
qed simp

text \<open>indenting a statement text moves it as a block. With the indentation taken off again every
  line of the trimmed text is back, in order and with its own inner indentation; a text of one
  line is returned trimmed and not indented at all.\<close>

theorem offset_text_block:
  "(CHR 0x0A \<notin> set (trim_whitespace_view t) \<longrightarrow> offset_text t n = trim_whitespace_view t)
   \<and> (CHR 0x0A \<in> set (trim_whitespace_view t) \<longrightarrow>
        hd (offset_text t n) = CHR 0x0A
        \<and> map (drop n) (prefix_split (tl (offset_text t n)) (CHR 0x0A) [])
            = prefix_split (trim_whitespace_view t) (CHR 0x0A) []
        \<and> list_all (\<lambda>l. take n l = replicate n (CHR '' ''))
            (prefix_split (tl (offset_text t n)) (CHR 0x0A) []))
   \<and> prefix_text t 0 = trim_whitespace_view t"
proof (intro conjI impI)
  let ?t = "trim_whitespace_view t" and ?p = "replicate n (CHR '' '')"
  let ?ls = "prefix_split ?t (CHR 0x0A) []"
  show "CHR 0x0A \<notin> set ?t \<Longrightarrow> offset_text t n = ?t" by (simp add: offset_text_def Let_def)
  show "prefix_text t 0 = ?t"
    unfolding prefix_text_def using join_prefix_split [OF trim_no_final_newline] by simp
  assume m: "CHR 0x0A \<in> set ?t"
  then have ne: "?ls \<noteq> []" by auto
  have o: "offset_text t n = CHR 0x0A # join (map ((@) ?p) ?ls) nl"
    using m by (simp add: offset_text_def Let_def prefix_split_prefix [of ?t _ ?p])
  then show "hd (offset_text t n) = CHR 0x0A" by simp
  have last: "last ?ls \<noteq> []"
  proof
    assume e: "last ?ls = []"
    have "join ?ls nl = ?t" by (rule join_prefix_split [OF trim_no_final_newline])
    moreover have "last (join xs nl) = CHR 0x0A" if "xs \<noteq> []" "last xs = []" "join xs nl \<noteq> []" for xs
      using that
    proof (induction xs)
      case (Cons x xs)
      show ?case
      proof (cases "xs = [] \<or> xs = [[]]")
        case True
        with Cons show ?thesis by (auto simp: join_Cons)
      next
        case False
        then have "join xs nl \<noteq> []" by (simp add: join_eq_Nil)
        with Cons False show ?thesis by (auto simp: join_Cons)
      qed
    qed simp
    ultimately show False using e ne m trim_no_final_newline [of t] by (metis empty_iff empty_set)
  qed
  have "prefix_split (join (map ((@) ?p) ?ls) nl) (CHR 0x0A) [] = map ((@) ?p) ?ls"
    using ne last prefix_split_no_delim [of _ ?t "CHR 0x0A"]
    by (intro prefix_split_join) (auto simp: last_map)
  with o have s: "prefix_split (tl (offset_text t n)) (CHR 0x0A) [] = map ((@) ?p) ?ls" by simp
  show "map (drop n) (prefix_split (tl (offset_text t n)) (CHR 0x0A) []) = ?ls"
    unfolding s by (simp add: comp_def)
  show "list_all (\<lambda>l. take n l = ?p) (prefix_split (tl (offset_text t n)) (CHR 0x0A) [])"
    unfolding s by (simp add: list_all_iff)
qed

theorem offset_text_block_witness:
  "hd (offset_text '' a, b '' 2) = CHR ''a''
   \<and> offset_text ([CHR '' '', CHR ''a'', CHR 0x0A, CHR '' '', CHR ''b'', CHR 0x0A]) 2
      = [CHR 0x0A, CHR '' '', CHR '' '', CHR ''a'', CHR 0x0A, CHR '' '', CHR '' '', CHR '' '', CHR ''b'']"
proof -
  have "trim_whitespace_view '' a, b '' = ''a, b''"
    by (simp add: trim_whitespace_view_def is_space_def)
  then show ?thesis
    using offset_text_block [of "'' a, b ''" 2]
    by (simp add: offset_text_def trim_whitespace_view_def is_space_def prefix_split_unfold
        join_def eval_nat_numeral)
qed

text \<open>reading back what was written to a writable path gives the contents, and only that file
  changes; but \<open>write_file\<close> reports success whether or not the file could be written, and an
  unwritable path is left as it was.\<close>

theorem write_file_read_back:
  "fst (write_file fs f c) = Inr []
   \<and> (let fs' = snd (write_file fs f c) in
       (if fs_writable fs f then read_file fs' f = Inr c else fs' = fs)
       \<and> (f' = f \<or> read_file fs' f' = read_file fs f'))"
  by (auto simp: write_file_def read_file_def Let_def)

subsection \<open>Words of a text\<close>

text \<open>A word that holds no delimiter stays in one piece when a text is trimmed, split and joined.\<close>

definition occurs_in :: "string \<Rightarrow> string \<Rightarrow> bool" where
  "occurs_in w s \<longleftrightarrow> (\<exists>a b. s = a @ w @ b)"

lemma occurs_in_append: "occurs_in w s \<Longrightarrow> occurs_in w (a @ s @ b)"
  unfolding occurs_in_def by (metis append.assoc)

lemma occurs_in_prefixed: "occurs_in w s \<Longrightarrow> occurs_in w (a @ s)"
  using occurs_in_append [of w s a "[]"] by simp

text \<open>Around a character that the word does not hold, it lies on one side.\<close>

lemma occurs_in_split:
  assumes "occurs_in w (x @ d # y)" "d \<notin> set w"
  shows "occurs_in w x \<or> occurs_in w y"
proof -
  from assms(1) obtain a b where ab: "x @ d # y = a @ w @ b" by (auto simp: occurs_in_def)
  show ?thesis
  proof (cases "length x < length a")
    case True
    then have "\<exists>z. y = z @ w @ b" using ab by (auto simp: append_eq_append_conv2 Cons_eq_append_conv)
    then show ?thesis by (auto simp: occurs_in_def)
  next
    case False
    then obtain z where z: "x = a @ z" using ab by (metis append_eq_append_conv_if append_take_drop_id linorder_not_less)
    then have "z @ d # y = w @ b" using ab by simp
    then have "\<exists>v. z = w @ v" using assms(2) by (auto simp: append_eq_append_conv2 Cons_eq_append_conv)
    then show ?thesis using z(1) by (auto simp: occurs_in_def)
  qed
qed

lemma occurs_in_strip:
  assumes "occurs_in w (pre @ t @ post)" "\<forall>c \<in> set w. \<not> is_space c" "\<forall>c \<in> set pre \<union> set post. is_space c" "w \<noteq> []"
  shows "occurs_in w t"
proof -
  have left: "occurs_in w u" if "occurs_in w (pre @ u)" "\<forall>c \<in> set pre. is_space c" for pre u
    using that
  proof (induction pre)
    case (Cons c pre)
    then have "c \<notin> set w" using assms(2) by auto
    with Cons have "occurs_in w [] \<or> occurs_in w (pre @ u)" using occurs_in_split [of w "[]" c "pre @ u"] by simp
    with Cons assms(4) show ?case by (auto simp: occurs_in_def)
  qed simp
  have right: "occurs_in w u" if "occurs_in w (u @ post)" "\<forall>c \<in> set post. is_space c" for post u
    using that
  proof (induction post rule: rev_induct)
    case (snoc c post)
    then have "c \<notin> set w" using assms(2) by auto
    with snoc have "occurs_in w (u @ post) \<or> occurs_in w []" using occurs_in_split [of w "u @ post" c "[]"] by simp
    with snoc assms(4) show ?case by (auto simp: occurs_in_def)
  qed simp
  show ?thesis using left [of pre "t @ post"] right [of t post] assms by auto
qed

lemma occurs_in_trim:
  assumes "occurs_in w s" "\<forall>c \<in> set w. \<not> is_space c" "w \<noteq> []"
  shows "occurs_in w (trim_whitespace_view s)"
proof -
  obtain pre post where s: "s = pre @ trim_whitespace_view s @ post" "\<forall>c \<in> set pre. is_space c" "\<forall>c \<in> set post. is_space c"
    by (rule trim_surrounded)
  then have "occurs_in w (pre @ trim_whitespace_view s @ post)" using assms(1) by simp
  then show ?thesis using occurs_in_strip [OF _ assms(2) _ assms(3)] s(2,3) by blast
qed

lemma occurs_in_prefix_split:
  assumes "d \<notin> set w" "w \<noteq> []"
  shows "occurs_in w s \<Longrightarrow> \<exists>x \<in> set (prefix_split s d p). occurs_in w x"
proof (induction s rule: length_induct)
  case (1 s)
  let ?x = "takeWhile (\<lambda>c. c \<noteq> d) s" and ?y = "drop 1 (dropWhile (\<lambda>c. c \<noteq> d) s)"
  have ne: "s \<noteq> []" using 1(2) assms(2) by (auto simp: occurs_in_def)
  have "occurs_in w ?x \<or> occurs_in w ?y"
  proof (cases "dropWhile (\<lambda>c. c \<noteq> d) s")
    case Nil
    then show ?thesis using 1(2) by (metis append_Nil2 takeWhile_dropWhile_id)
  next
    case (Cons c r)
    then have c: "c = d" by (simp add: dropWhile_eq_Cons_conv)
    have y: "?y = r" unfolding Cons by simp
    have "?x @ c # r = s" using takeWhile_dropWhile_id [of "\<lambda>c. c \<noteq> d" s] unfolding Cons .
    then have "occurs_in w (?x @ d # r)" using 1(2) c by simp
    then show ?thesis unfolding y by (rule occurs_in_split [OF _ assms(1)])
  qed
  moreover have "length ?y < length s" using ne getline_shorter [of d s] by (simp add: getline_def)
  ultimately consider "occurs_in w ?x" | "\<exists>x \<in> set (prefix_split ?y d p). occurs_in w x" using 1(1) by blast
  then show ?case
  proof cases
    case 1
    then have "occurs_in w (p @ ?x)" by (rule occurs_in_prefixed)
    then show ?thesis by (simp add: prefix_split_unfold [OF ne])
  next
    case 2
    then show ?thesis by (simp only: prefix_split_unfold [OF ne]) simp
  qed
qed

lemma occurs_in_join: "x \<in> set xs \<Longrightarrow> occurs_in w x \<Longrightarrow> d \<noteq> [] \<Longrightarrow> occurs_in w (join xs d)"
proof (induction xs)
  case (Cons y ys)
  show ?case
  proof (cases "ys = []")
    case False
    then have j: "join (y # ys) d = y @ d @ join ys d" using Cons.prems(3) by (rule join_Cons)
    show ?thesis
    proof (cases "x = y")
      case True
      then show ?thesis unfolding j using occurs_in_append [of w y "[]"] Cons.prems(2) by simp
    next
      case False
      then have "occurs_in w (join ys d)" using Cons by simp
      then show ?thesis unfolding j using occurs_in_prefixed [of w _ "y @ d"] by simp
    qed
  qed (use Cons in simp)
qed simp

end
