(* ===== verification/Runtime_Support.thy ===== *)
theory Runtime_Support
  imports Prelude
begin

unbundle bit_operations_syntax

text \<open>
  The runtime helpers the generated code calls (\<open>src/dbgen4/runtime_support/hex.hpp\<close>,
  \<open>utf8.hpp\<close>): the hexadecimal dump of a byte string through a 512-character lookup table, and
  the UTF-8 encoding of a wide string on a platform whose \<open>wchar_t\<close> has 32 bits. Each is
  shown to be inverted by a reference decoder.
\<close>

subsection \<open>Hexadecimal dump\<close>

definition hex_lut :: string where
  "hex_lut =
     ''000102030405060708090A0B0C0D0E0F'' @
     ''101112131415161718191A1B1C1D1E1F'' @
     ''202122232425262728292A2B2C2D2E2F'' @
     ''303132333435363738393A3B3C3D3E3F'' @
     ''404142434445464748494A4B4C4D4E4F'' @
     ''505152535455565758595A5B5C5D5E5F'' @
     ''606162636465666768696A6B6C6D6E6F'' @
     ''707172737475767778797A7B7C7D7E7F'' @
     ''808182838485868788898A8B8C8D8E8F'' @
     ''909192939495969798999A9B9C9D9E9F'' @
     ''A0A1A2A3A4A5A6A7A8A9AAABACADAEAF'' @
     ''B0B1B2B3B4B5B6B7B8B9BABBBCBDBEBF'' @
     ''C0C1C2C3C4C5C6C7C8C9CACBCCCDCECF'' @
     ''D0D1D2D3D4D5D6D7D8D9DADBDCDDDEDF'' @
     ''E0E1E2E3E4E5E6E7E8E9EAEBECEDEEEF'' @
     ''F0F1F2F3F4F5F6F7F8F9FAFBFCFDFEFF''"

definition hex_pair :: "char \<Rightarrow> string" where
  "hex_pair byte = (let first = of_char byte * 2 in [hex_lut ! first, hex_lut ! (1 + first)])"

fun to_hex_rest :: "string \<Rightarrow> char \<Rightarrow> string" where
  "to_hex_rest [] separator = []"
| "to_hex_rest (b # bs) separator = separator # hex_pair b @ to_hex_rest bs separator"

definition to_hex :: "string \<Rightarrow> char \<Rightarrow> string" where
  "to_hex data separator =
     (case data of [] \<Rightarrow> [] | b # bs \<Rightarrow> hex_pair b @ to_hex_rest bs separator)"

subsection \<open>UTF-8\<close>

definition utf8_unit :: "u32 \<Rightarrow> char" where
  "utf8_unit x = char_of (unat x)"

definition utf8_encode :: "i32 \<Rightarrow> string" where
  "utf8_encode c =
     (if c < 0x80 then [utf8_unit c]
      else if c < 0x800 then
        [utf8_unit (0xC0 OR drop_bit 6 c), utf8_unit (0x80 OR (c AND 0x3F))]
      else if c < 0x10000 then
        [utf8_unit (0xE0 OR drop_bit 12 c), utf8_unit (0x80 OR (drop_bit 6 c AND 0x3F)),
         utf8_unit (0x80 OR (c AND 0x3F))]
      else if c \<le> 0x10FFFF then
        [utf8_unit (0xF0 OR drop_bit 18 c), utf8_unit (0x80 OR (drop_bit 12 c AND 0x3F)),
         utf8_unit (0x80 OR (drop_bit 6 c AND 0x3F)), utf8_unit (0x80 OR (c AND 0x3F))]
      else [CHR 0xEF, CHR 0xBF, CHR 0xBD])"

definition to_utf8 :: "i32 list \<Rightarrow> string" where
  "to_utf8 wstr = concat (map utf8_encode wstr)"

subsection \<open>Reference decoders\<close>

definition hex_value :: "char \<Rightarrow> nat" where
  "hex_value c = (let n = of_char c in if n \<le> 57 then n - 48 else n - 55)"

fun of_hex :: "string \<Rightarrow> string" where
  "of_hex (h # l # s # r) = char_of (16 * hex_value h + hex_value l) # of_hex r"
| "of_hex [h, l] = [char_of (16 * hex_value h + hex_value l)]"
| "of_hex _ = []"

definition cont :: "char \<Rightarrow> nat" where
  "cont c = of_char c - 128"

text \<open>Decoding by the lead byte; a continuation byte lies between \<open>0x80\<close> and \<open>0xBF\<close>.\<close>

definition is_cont :: "char \<Rightarrow> bool" where
  "is_cont c \<longleftrightarrow> 128 \<le> (of_char c :: nat) \<and> (of_char c :: nat) < 192"

fun utf8_decode :: "string \<Rightarrow> nat list option" where
  "utf8_decode [] = Some []"
| "utf8_decode (a # r) =
     (if (of_char a :: nat) < 0x80 then map_option ((#) (of_char a)) (utf8_decode r)
      else if 0xC0 \<le> (of_char a :: nat) \<and> (of_char a :: nat) < 0xE0 then
        (case r of b # r' \<Rightarrow> if is_cont b
           then map_option ((#) ((of_char a - 0xC0) * 64 + cont b)) (utf8_decode r') else None | _ \<Rightarrow> None)
      else if 0xE0 \<le> (of_char a :: nat) \<and> (of_char a :: nat) < 0xF0 then
        (case r of b # c # r' \<Rightarrow> if is_cont b \<and> is_cont c
           then map_option ((#) (((of_char a - 0xE0) * 64 + cont b) * 64 + cont c)) (utf8_decode r')
           else None | _ \<Rightarrow> None)
      else if 0xF0 \<le> (of_char a :: nat) \<and> (of_char a :: nat) < 0xF8 then
        (case r of b # c # d # r' \<Rightarrow> if is_cont b \<and> is_cont c \<and> is_cont d
           then map_option ((#) ((((of_char a - 0xF0) * 64 + cont b) * 64 + cont c) * 64 + cont d)) (utf8_decode r')
           else None | _ \<Rightarrow> None)
      else None)"

definition hexU :: "nat \<Rightarrow> char" where
  "hexU n = (if n < 10 then char_of (48 + n) else char_of (55 + n))"

subsection \<open>Properties\<close>

lemma hex_lut_pairs: "hex_lut = concat (map (\<lambda>b. [hexU (b div 16), hexU (b mod 16)]) [0..<256])"
  by code_simp

lemma nth_concat_pairs:
  "i < n \<Longrightarrow> concat (map (\<lambda>b. [f b, g b]) [k..<k + n]) ! (i * 2) = f (k + i)
    \<and> concat (map (\<lambda>b. [f b, g b]) [k..<k + n]) ! (1 + i * 2) = g (k + i)"
proof (induction n arbitrary: i k)
  case (Suc n)
  have u: "[k..<k + Suc n] = k # [Suc k..<Suc k + n]" by (simp add: upt_conv_Cons del: upt_Suc)
  show ?case
  proof (cases i)
    case 0
    then show ?thesis unfolding u by simp
  next
    case (Suc j)
    with Suc.prems Suc.IH [of j "Suc k"] show ?thesis unfolding u by simp
  qed
qed simp

lemma hex_pair_eq: "hex_pair c = [hexU (of_char c div 16), hexU (of_char c mod 16)]"
  using nth_concat_pairs [of "of_char c" 256 "\<lambda>b. hexU (b div 16)" "\<lambda>b. hexU (b mod 16)" 0]
    of_char_less_256 [of c]
  by (simp add: hex_pair_def hex_lut_pairs Let_def)

lemma length_hex_pair [simp]: "length (hex_pair c) = 2"
  by (simp add: hex_pair_def Let_def)

lemma hex_value_hexU: "n < 16 \<Longrightarrow> hex_value (hexU n) = n"
  by (auto simp: hex_value_def hexU_def Let_def)

lemma hex_pair_value:
  "char_of (16 * hex_value (hexU (of_char c div 16)) + hex_value (hexU (of_char c mod 16))) = c"
proof -
  have "(of_char c :: nat) div 16 < 16"
    using of_char_less_256 [of c] by (intro less_mult_imp_div_less) simp
  then show ?thesis by (simp add: hex_value_hexU)
qed

lemma of_hex_rest: "of_hex (hex_pair b @ to_hex_rest bs sep) = b # bs"
proof (induction bs arbitrary: b)
  case Nil
  then show ?case by (simp add: hex_pair_eq hex_pair_value)
next
  case (Cons a bs)
  then show ?case by (simp add: hex_pair_eq hex_pair_value)
qed

lemma length_to_hex_rest: "length (to_hex_rest bs sep) = 3 * length bs"
  by (induction bs) auto

text \<open>the hexadecimal dump of a byte string is injective whatever the separator (a reader that
  skips it gets every byte back, the table being right at all 512 places) and has exactly the
  length that was reserved for it.\<close>

theorem to_hex_roundtrip:
  "of_hex (to_hex data sep) = data
   \<and> length (to_hex data sep) = (if data = [] then 0 else length data * 2 + (length data - 1))"
  by (cases data) (auto simp: to_hex_def of_hex_rest length_to_hex_rest)

text \<open>The bit operations of the encoder as arithmetic on the code point.\<close>

lemma unat_and_3F: "unat ((x :: u32) AND 0x3F) = unat x mod 64"
proof -
  have "unat x AND 63 = unat x AND mask 6" by (simp add: mask_eq_exp_minus_1)
  also have "\<dots> = take_bit 6 (unat x)" by (simp only: take_bit_eq_mask)
  also have "\<dots> = unat x mod 64" by (simp add: take_bit_eq_mod)
  finally show ?thesis by (simp add: unsigned_and_eq)
qed

lemma unat_drop_bit: "unat (drop_bit n (x :: u32)) = unat x div 2 ^ n"
  by (simp only: unsigned_drop_bit_eq) (metis drop_bit_eq_div unsigned_drop_bit_eq take_bit_word_beyond_length_eq order_refl unsigned_take_bit_eq)

lemma of_char_utf8_unit: "unat x < 256 \<Longrightarrow> (of_char (utf8_unit x) :: nat) = unat x"
  by (simp add: utf8_unit_def)

lemma lead_unit:
  "unat x < 2 ^ k \<Longrightarrow> unat (m :: u32) = j * 2 ^ k \<Longrightarrow> unat (m OR x) = unat m + unat x"
  using or_low_nat [of "unat x" k j] by (simp add: unsigned_or_eq)

lemma cont_unit:
  "(of_char (utf8_unit (0x80 OR (x AND 0x3F))) :: nat) = 128 + unat x mod 64"
proof -
  have "unat (0x80 OR (x AND 0x3F)) = unat (0x80 :: u32) + unat (x AND 0x3F)"
    by (rule lead_unit [where k = 6 and j = 2]) (simp_all add: unat_and_3F)
  then have "unat (0x80 OR (x AND 0x3F)) = 128 + unat x mod 64" by (simp add: unat_and_3F)
  moreover have "unat x mod 64 < 64" by simp
  ultimately show ?thesis by (subst of_char_utf8_unit) linarith+
qed

lemma is_cont_unit [simp]: "is_cont (utf8_unit (0x80 OR (x AND 0x3F)))"
  "cont (utf8_unit (0x80 OR (x AND 0x3F))) = unat x mod 64"
proof -
  have "unat x mod 64 < 64" by simp
  then show "is_cont (utf8_unit (0x80 OR (x AND 0x3F)))" unfolding is_cont_def cont_unit by linarith
  show "cont (utf8_unit (0x80 OR (x AND 0x3F))) = unat x mod 64" unfolding cont_def cont_unit by simp
qed

lemma lead_byte:
  assumes "unat c div 2 ^ n < 2 ^ k" "unat m = j * 2 ^ k" "unat m + 2 ^ k \<le> 256"
  shows "(of_char (utf8_unit (m OR drop_bit n c)) :: nat) = unat m + unat c div 2 ^ n"
proof -
  have "unat (m OR drop_bit n c) = unat m + unat (drop_bit n c)"
    by (rule lead_unit [where k = k and j = j]) (simp_all add: assms unat_drop_bit)
  then show ?thesis using assms by (subst of_char_utf8_unit) (simp_all add: unat_drop_bit)
qed

lemma regroup_64: "(n div 64) * 64 + n mod 64 = (n :: nat)"
  by simp

lemma regroup_4096: "((n div 4096) * 64 + (n div 64) mod 64) * 64 + n mod 64 = (n :: nat)"
proof -
  have "n div 4096 = n div 64 div 64" by (simp add: div_mult2_eq [symmetric])
  then show ?thesis by simp
qed

lemma regroup_262144:
  "(((n div 262144) * 64 + (n div 4096) mod 64) * 64 + (n div 64) mod 64) * 64 + n mod 64 = (n :: nat)"
proof -
  have "n div 262144 = n div 4096 div 64" by (simp add: div_mult2_eq [symmetric])
  then have "(n div 262144) * 64 + (n div 4096) mod 64 = n div 4096" by simp
  then show ?thesis using regroup_4096 by simp
qed

text \<open>One code point decodes to itself, or to the replacement character when it is none.\<close>

lemma decode_encode:
  "utf8_decode (utf8_encode c @ r)
     = map_option ((#) (if unat c \<le> 0x10FFFF then unat c else 0xFFFD)) (utf8_decode r)"
proof -
  let ?n = "unat c"
  consider (1) "?n < 0x80" | (2) "0x80 \<le> ?n" "?n < 0x800" | (3) "0x800 \<le> ?n" "?n < 0x10000"
    | (4) "0x10000 \<le> ?n" "?n \<le> 0x10FFFF" | (5) "0x10FFFF < ?n" by linarith
  then show ?thesis
  proof cases
    case 1
    then have "utf8_encode c = [utf8_unit c]" by (simp add: utf8_encode_def word_less_nat_alt)
    with 1 show ?thesis by (simp add: of_char_utf8_unit)
  next
    case 2
    then have e: "utf8_encode c = [utf8_unit (0xC0 OR drop_bit 6 c), utf8_unit (0x80 OR (c AND 0x3F))]"
      by (simp add: utf8_encode_def word_less_nat_alt)
    have b: "?n div 64 < 32" using 2 by (intro less_mult_imp_div_less) simp
    have l: "(of_char (utf8_unit (0xC0 OR drop_bit 6 c)) :: nat) = 192 + ?n div 64"
      using lead_byte [of c 6 5 "0xC0" 6] b by simp
    show ?thesis using 2 b unfolding e by (simp add: l regroup_64)
  next
    case 3
    then have e: "utf8_encode c = [utf8_unit (0xE0 OR drop_bit 12 c),
        utf8_unit (0x80 OR (drop_bit 6 c AND 0x3F)), utf8_unit (0x80 OR (c AND 0x3F))]"
      by (simp add: utf8_encode_def word_less_nat_alt)
    have b: "?n div 4096 < 16" using 3 by (intro less_mult_imp_div_less) simp
    have l: "(of_char (utf8_unit (0xE0 OR drop_bit 12 c)) :: nat) = 224 + ?n div 4096"
      using lead_byte [of c 12 4 "0xE0" 14] b by simp
    show ?thesis using 3 b regroup_4096 [of ?n] unfolding e by (simp add: l unat_drop_bit)
  next
    case 4
    then have e: "utf8_encode c = [utf8_unit (0xF0 OR drop_bit 18 c),
        utf8_unit (0x80 OR (drop_bit 12 c AND 0x3F)), utf8_unit (0x80 OR (drop_bit 6 c AND 0x3F)),
        utf8_unit (0x80 OR (c AND 0x3F))]"
      by (simp add: utf8_encode_def word_less_nat_alt word_le_nat_alt)
    have b: "?n div 262144 < 8" using 4 by (intro less_mult_imp_div_less) simp
    have l: "(of_char (utf8_unit (0xF0 OR drop_bit 18 c)) :: nat) = 240 + ?n div 262144"
      using lead_byte [of c 18 3 "0xF0" 30] b by simp
    show ?thesis using 4 b regroup_262144 [of ?n] unfolding e by (simp add: l unat_drop_bit)
  next
    case 5
    then have "utf8_encode c = [CHR 0xEF, CHR 0xBF, CHR 0xBD]"
      by (simp add: utf8_encode_def word_less_nat_alt word_le_nat_alt)
    with 5 show ?thesis by (simp add: is_cont_def cont_def)
  qed
qed

text \<open>the UTF-8 encoder loses nothing: decoding its output gives back every code point up to
  \<open>0x10FFFF\<close>, in order, and \<open>U+FFFD\<close> for each unit above that range (negative \<open>wchar_t\<close> values
  included). Surrogates are encoded like any other three-byte code point.\<close>

theorem to_utf8_decodes:
  "utf8_decode (to_utf8 ws) = Some (map (\<lambda>w. if unat w \<le> 0x10FFFF then unat w else 0xFFFD) ws)"
  by (induction ws) (simp_all add: to_utf8_def decode_encode)

text \<open>A lone surrogate is not refused, although RFC 3629 gives it no encoding.\<close>

theorem to_utf8_surrogate: "to_utf8 [0xD800] = [CHR 0xED, CHR 0xA0, CHR 0x80]"
  by (simp add: to_utf8_def utf8_encode_def utf8_unit_def) code_simp

end
