(* ===== verification/Result_Holder.thy ===== *)
theory Result_Holder
  imports Prelude "HOL-Library.Multiset"
begin

text \<open>
  The ownership of libpq results. Every \<open>PGresult\<close> that the query class receives goes into a
  \<open>detail::result_holder\<close> (\<open>src/rtl/psql/query.hpp\<close>), whose special members are the model's steps;
  the connection code uses the scope guard \<open>result_guard\<close> (\<open>psql_rtl.cpp\<close>), a holder that is never
  moved. A result is a number, 0 the null pointer. An object is named by its place in
  \<open>rw_objects\<close>, where \<open>None\<close> is an object that was destroyed; \<open>rw_cleared\<close> lists the calls of
  \<open>PQclear\<close> on a result (on the null pointer it does nothing).
\<close>

type_synonym pgresult = nat

record result_world =
  rw_objects :: "pgresult option list"
  rw_cleared :: "pgresult list"

definition no_results_held :: result_world where
  "no_results_held = \<lparr>rw_objects = [], rw_cleared = []\<rparr>"

definition PQclear :: "pgresult \<Rightarrow> result_world \<Rightarrow> result_world" where
  "PQclear r w = (if r = 0 then w else w\<lparr>rw_cleared := rw_cleared w @ [r]\<rparr>)"

definition holder_alive :: "nat \<Rightarrow> result_world \<Rightarrow> bool" where
  "holder_alive i w \<longleftrightarrow> i < length (rw_objects w) \<and> rw_objects w ! i \<noteq> None"

definition holder_get :: "nat \<Rightarrow> result_world \<Rightarrow> pgresult" where
  "holder_get i w = (case rw_objects w ! i of Some r \<Rightarrow> r | None \<Rightarrow> 0)"

definition set_res :: "nat \<Rightarrow> pgresult \<Rightarrow> result_world \<Rightarrow> result_world" where
  "set_res i r w = w\<lparr>rw_objects := (rw_objects w)[i := Some r]\<rparr>"

subsection \<open>The special members\<close>

definition make_holder :: "pgresult \<Rightarrow> result_world \<Rightarrow> result_world" where
  "make_holder r w = w\<lparr>rw_objects := rw_objects w @ [Some r]\<rparr>"

definition move_holder :: "nat \<Rightarrow> result_world \<Rightarrow> result_world" where
  "move_holder i w = set_res i 0 (make_holder (holder_get i w) w)"

definition assign_holder :: "nat \<Rightarrow> nat \<Rightarrow> result_world \<Rightarrow> result_world" where
  "assign_holder i j w =
     (if i \<noteq> j then set_res j 0 (set_res i (holder_get j w) (PQclear (holder_get i w) w)) else w)"

definition destroy_holder :: "nat \<Rightarrow> result_world \<Rightarrow> result_world" where
  "destroy_holder i w = (PQclear (holder_get i w) w)\<lparr>rw_objects := (rw_objects w)[i := None]\<rparr>"

text \<open>What a program does with holders; an operation needs its objects alive.\<close>

datatype holder_op = H_make pgresult | H_move nat | H_assign nat nat | H_destroy nat

primrec holder_op_ok :: "holder_op \<Rightarrow> result_world \<Rightarrow> bool" where
  "holder_op_ok (H_make r) w \<longleftrightarrow> True"
| "holder_op_ok (H_move i) w \<longleftrightarrow> holder_alive i w"
| "holder_op_ok (H_assign i j) w \<longleftrightarrow> holder_alive i w \<and> holder_alive j w"
| "holder_op_ok (H_destroy i) w \<longleftrightarrow> holder_alive i w"

primrec run_holder_op :: "holder_op \<Rightarrow> result_world \<Rightarrow> result_world" where
  "run_holder_op (H_make r) = make_holder r"
| "run_holder_op (H_move i) = move_holder i"
| "run_holder_op (H_assign i j) = assign_holder i j"
| "run_holder_op (H_destroy i) = destroy_holder i"

fun run_holders :: "holder_op list \<Rightarrow> result_world \<Rightarrow> result_world option" where
  "run_holders [] w = Some w"
| "run_holders (p # ps) w = (if holder_op_ok p w then run_holders ps (run_holder_op p w) else None)"

text \<open>The results that entered a holder, and those that live holders own.\<close>

definition results_made :: "holder_op list \<Rightarrow> pgresult list" where
  "results_made ps = concat (map (\<lambda>p. case p of H_make r \<Rightarrow> if r = 0 then [] else [r] | _ \<Rightarrow> []) ps)"

definition owned_by :: "pgresult option \<Rightarrow> pgresult list" where
  "owned_by x = (case x of None \<Rightarrow> [] | Some r \<Rightarrow> if r = 0 then [] else [r])"

definition results_owned :: "result_world \<Rightarrow> pgresult list" where
  "results_owned w = concat (map owned_by (rw_objects w))"

subsection \<open>How the query class uses them\<close>

text \<open>\<open>rows_ = std::move(res)\<close> with the new result in the local \<open>res\<close>, which is then destroyed; the
  scope guard around a body.\<close>

definition store_rows :: "nat \<Rightarrow> pgresult \<Rightarrow> result_world \<Rightarrow> result_world" where
  "store_rows i r w =
     (let n = length (rw_objects w) in destroy_holder n (assign_holder i n (make_holder r w)))"

definition with_result_guard :: "pgresult \<Rightarrow> (result_world \<Rightarrow> result_world) \<Rightarrow> result_world \<Rightarrow> result_world" where
  "with_result_guard r body w = destroy_holder (length (rw_objects w)) (body (make_holder r w))"

subsection \<open>Nothing is lost and nothing is cleared twice\<close>

text \<open>The ledger: what was cleared and what is owned, together.\<close>

definition ledger :: "result_world \<Rightarrow> pgresult multiset" where
  "ledger w = mset (rw_cleared w) + mset (results_owned w)"

lemma owned_update:
  "i < length xs \<Longrightarrow> mset (concat (map owned_by (xs[i := y]))) + mset (owned_by (xs ! i))
     = mset (concat (map owned_by xs)) + mset (owned_by y)"
proof (induction xs arbitrary: i)
  case (Cons x xs)
  show ?case
  proof (cases i)
    case (Suc k)
    then show ?thesis using Cons.IH [of k] Cons.prems by (simp add: add.assoc add.left_commute)
  qed (simp add: add.commute add.left_commute)
qed simp

lemma owned_by_alive: "holder_alive i w \<Longrightarrow> rw_objects w ! i = Some (holder_get i w)"
  by (auto simp: holder_alive_def holder_get_def)

lemma owned_set_res:
  assumes "holder_alive i w"
  shows "mset (results_owned (set_res i r w)) + mset (owned_by (Some (holder_get i w)))
    = mset (results_owned w) + mset (owned_by (Some r))"
  using assms owned_update [of i "rw_objects w" "Some r"] owned_by_alive [OF assms]
  by (simp add: results_owned_def set_res_def holder_alive_def)

lemma cleared_simps [simp]:
  "rw_cleared (set_res i r w) = rw_cleared w" "rw_cleared (make_holder r w) = rw_cleared w"
  "rw_cleared (PQclear r w) = rw_cleared w @ owned_by (Some r)" "rw_objects (PQclear r w) = rw_objects w"
  "results_owned (PQclear r w) = results_owned w"
  by (simp_all add: set_res_def make_holder_def PQclear_def owned_by_def results_owned_def)

lemma holder_get_simps [simp]:
  "holder_get i (PQclear r w) = holder_get i w" "holder_alive i (PQclear r w) = holder_alive i w"
  by (simp_all add: holder_get_def holder_alive_def)

lemma holder_set_res:
  "holder_alive i w \<Longrightarrow> holder_alive j (set_res i r w) = holder_alive j w"
  "holder_alive i w \<Longrightarrow> holder_get j (set_res i r w) = (if j = i then r else holder_get j w)"
  by (auto simp: holder_alive_def holder_get_def set_res_def nth_list_update)

lemma holder_make:
  "holder_alive i w \<Longrightarrow> holder_alive i (make_holder r w) \<and> holder_get i (make_holder r w) = holder_get i w"
  "holder_alive (length (rw_objects w)) (make_holder r w)" "holder_get (length (rw_objects w)) (make_holder r w) = r"
  by (auto simp: holder_alive_def holder_get_def make_holder_def nth_append)

lemma ledger_make: "ledger (make_holder r w) = ledger w + mset (owned_by (Some r))"
  by (simp add: ledger_def results_owned_def make_holder_def)

lemma ledger_set_res:
  "holder_alive i w \<Longrightarrow> ledger (set_res i r w) + mset (owned_by (Some (holder_get i w))) = ledger w + mset (owned_by (Some r))"
  using owned_set_res [of i w r] by (simp add: ledger_def add.assoc)

lemma ledger_move: "holder_alive i w \<Longrightarrow> ledger (move_holder i w) = ledger w"
  using ledger_set_res [of i "make_holder (holder_get i w) w" 0] holder_make(1) [of i w "holder_get i w"]
  by (simp add: move_holder_def ledger_make owned_by_def split: if_splits)

lemma ledger_assign:
  assumes "holder_alive i w" "holder_alive j w"
  shows "ledger (assign_holder i j w) = ledger w"
proof (cases "i = j")
  case False
  let ?w1 = "PQclear (holder_get i w) w"
  let ?w2 = "set_res i (holder_get j w) ?w1"
  have "ledger ?w1 = ledger w + mset (owned_by (Some (holder_get i w)))"
    by (simp add: ledger_def add.commute add.left_commute)
  moreover have "ledger ?w2 + mset (owned_by (Some (holder_get i w))) = ledger ?w1 + mset (owned_by (Some (holder_get j w)))"
    using ledger_set_res [of i ?w1 "holder_get j w"] assms(1) by simp
  moreover have "ledger (set_res j 0 ?w2) + mset (owned_by (Some (holder_get j w))) = ledger ?w2"
    using ledger_set_res [of j ?w2 0] assms False by (simp add: holder_set_res) (simp add: owned_by_def)
  ultimately have "ledger (set_res j 0 ?w2) = ledger w" by simp
  then show ?thesis using False by (simp add: assign_holder_def)
qed (simp add: assign_holder_def)

lemma ledger_destroy:
  assumes "holder_alive i w"
  shows "ledger (destroy_holder i w) = ledger w"
  using owned_update [of i "rw_objects w" None] owned_by_alive [OF assms] assms
  by (simp add: ledger_def destroy_holder_def results_owned_def holder_alive_def owned_by_def [of None] add.commute add.left_commute)

lemma ledger_op:
  "holder_op_ok p w \<Longrightarrow> ledger (run_holder_op p w) = ledger w + mset (results_made [p])"
  by (cases p) (simp_all add: ledger_make ledger_move ledger_assign ledger_destroy results_made_def owned_by_def)

lemma ledger_run: "run_holders ps w = Some w' \<Longrightarrow> ledger w' = ledger w + mset (results_made ps)"
proof (induction ps arbitrary: w)
  case (Cons p ps)
  then show ?case using ledger_op [of p w] Cons.IH [of "run_holder_op p w"]
    by (simp add: results_made_def add.assoc split: if_splits)
qed (simp add: results_made_def)

text \<open>C30: no libpq result leaks, is cleared twice or is used after it was cleared: whatever a program
  does with its holders (making, moving, assigning, self-assigning, destroying them in any order),
  a result that libpq hands out once is at every moment either owned by exactly one live holder and
  not yet cleared, or cleared exactly once and owned by none; when the last holder is gone every
  result has been cleared.\<close>

theorem results_cleared_once:
  assumes "run_holders ps no_results_held = Some w" "distinct (results_made ps)"
  shows "distinct (rw_cleared w @ results_owned w) \<and> set (rw_cleared w @ results_owned w) = set (results_made ps)
    \<and> (list_all (\<lambda>x. x = None) (rw_objects w) \<longrightarrow> mset (rw_cleared w) = mset (results_made ps))"
proof -
  have m: "mset (rw_cleared w @ results_owned w) = mset (results_made ps)"
    using ledger_run [OF assms(1)] by (simp add: ledger_def no_results_held_def results_owned_def)
  have "mset (rw_cleared w) = mset (results_made ps)" if "list_all (\<lambda>x. x = None) (rw_objects w)"
  proof -
    have "results_owned w = []" using that by (auto simp: results_owned_def owned_by_def list_all_iff)
    with m show ?thesis by simp
  qed
  then show ?thesis using mset_eq_imp_distinct_iff [OF m] mset_eq_setD [OF m] assms(2) by blast
qed

theorem results_cleared_once_witness:
  "run_holders [H_make 0, H_make 7, H_assign 0 1, H_destroy 1, H_assign 0 0, H_make 9, H_assign 0 2, H_move 0,
     H_destroy 2, H_destroy 0, H_destroy 3] no_results_held = Some \<lparr>rw_objects = [None, None, None, None], rw_cleared = [7, 9]\<rparr>
   \<and> distinct [7, 9 :: pgresult]"
proof -
  let ?ps = "[H_make 0, H_make 7, H_assign 0 1, H_destroy 1, H_assign 0 0, H_make 9, H_assign 0 2, H_move 0,
     H_destroy 2, H_destroy 0, H_destroy 3]"
  have r: "run_holders ?ps no_results_held = Some \<lparr>rw_objects = [None, None, None, None], rw_cleared = [7, 9]\<rparr>"
    by code_simp
  from results_cleared_once [OF r] r show ?thesis by (simp add: results_made_def results_owned_def owned_by_def)
qed

text \<open>Storing a new result set clears the old one and nothing else, and leaves the new one owned by the
  query; a guarded body that does not touch the guard clears the guarded result once, at its end.\<close>

lemma store_rows_effect:
  assumes "holder_alive i w"
  shows "holder_get i (store_rows i r w) = r \<and> rw_cleared (store_rows i r w) = rw_cleared w @ owned_by (Some (holder_get i w))"
proof -
  let ?n = "length (rw_objects w)" and ?m = "make_holder r w"
  have i: "i \<noteq> ?n" "holder_alive i ?m" "holder_get i ?m = holder_get i w" using assms holder_make(1) [OF assms, of r]
    by (auto simp: holder_alive_def)
  have n: "holder_alive ?n ?m" "holder_get ?n ?m = r" by (rule holder_make)+
  have g: "holder_get ?n (assign_holder i ?n ?m) = 0" "holder_get i (assign_holder i ?n ?m) = r"
    using i n by (simp_all add: assign_holder_def holder_set_res)
  have "rw_cleared (assign_holder i ?n ?m) = rw_cleared w @ owned_by (Some (holder_get i w))"
    using i by (simp add: assign_holder_def)
  then show ?thesis using g i(1)
    by (simp add: store_rows_def Let_def destroy_holder_def PQclear_def) (simp add: holder_get_def nth_list_update)
qed

lemma with_result_guard_effect:
  assumes "holder_get (length (rw_objects w)) (body (make_holder r w)) = r"
  shows "rw_cleared (with_result_guard r body w) = rw_cleared (body (make_holder r w)) @ owned_by (Some r)"
  using assms by (simp add: with_result_guard_def destroy_holder_def)

end
