(* ===== verification/Rtl_Core.thy ===== *)
theory Rtl_Core
  imports Sql_Types
begin

text \<open>
  The backend neutral runtime core (\<open>src/rtl/rtl.hpp\<close>, \<open>rtl.cpp\<close>): the status vocabulary
  \<open>db_sts\<close> with its classification, the description \<open>qry_metadata\<close> of a statement, the
  defaults of the base class \<open>db\<close>, and the setter \<open>set_value\<close> of the generated string
  columns with its bounds checks as they are written. An enumerator \<open>e\<close> of \<open>db_sts\<close> is
  the constructor \<open>sts_e\<close>.
\<close>

subsection \<open>Status codes\<close>

datatype (plugins only: code) db_sts =
    sts_success | sts_success_with_info | sts_no_data | sts_error
  | sts_invalid_handle | sts_need_data | sts_still_executing | sts_connection_error
  | sts_connection_lost | sts_server_gone | sts_timeout | sts_busy
  | sts_access_denied | sts_invalid_sql | sts_syntax_error | sts_constraint_violation
  | sts_duplicate_key | sts_truncated | sts_invalid_cursor | sts_transaction_error
  | sts_deadlock | sts_serialization_failure | sts_memory_error | sts_resource_error
  | sts_disk_full | sts_quota_exceeded | sts_driver_not_found | sts_env_error
  | sts_not_implemented | sts_os_error | sts_data_conversion_error | sts_data_truncated
  | sts_invalid_parameter | sts_admin_error | sts_config_error | sts_license_error
  | sts_custom_error | sts_unknown

primrec db_sts_code :: "db_sts \<Rightarrow> int" where
  "db_sts_code sts_success = 0"
| "db_sts_code sts_success_with_info = 1"
| "db_sts_code sts_no_data = 100"
| "db_sts_code sts_error = - 1"
| "db_sts_code sts_invalid_handle = - 2"
| "db_sts_code sts_need_data = - 99"
| "db_sts_code sts_still_executing = - 3"
| "db_sts_code sts_connection_error = - 100"
| "db_sts_code sts_connection_lost = - 101"
| "db_sts_code sts_server_gone = - 102"
| "db_sts_code sts_timeout = - 103"
| "db_sts_code sts_busy = - 104"
| "db_sts_code sts_access_denied = - 105"
| "db_sts_code sts_invalid_sql = - 200"
| "db_sts_code sts_syntax_error = - 201"
| "db_sts_code sts_constraint_violation = - 202"
| "db_sts_code sts_duplicate_key = - 203"
| "db_sts_code sts_truncated = - 204"
| "db_sts_code sts_invalid_cursor = - 205"
| "db_sts_code sts_transaction_error = - 300"
| "db_sts_code sts_deadlock = - 301"
| "db_sts_code sts_serialization_failure = - 302"
| "db_sts_code sts_memory_error = - 400"
| "db_sts_code sts_resource_error = - 401"
| "db_sts_code sts_disk_full = - 402"
| "db_sts_code sts_quota_exceeded = - 403"
| "db_sts_code sts_driver_not_found = - 500"
| "db_sts_code sts_env_error = - 501"
| "db_sts_code sts_not_implemented = - 502"
| "db_sts_code sts_os_error = - 503"
| "db_sts_code sts_data_conversion_error = - 600"
| "db_sts_code sts_data_truncated = - 601"
| "db_sts_code sts_invalid_parameter = - 602"
| "db_sts_code sts_admin_error = - 700"
| "db_sts_code sts_config_error = - 701"
| "db_sts_code sts_license_error = - 702"
| "db_sts_code sts_custom_error = - 1000"
| "db_sts_code sts_unknown = - 9999"

definition is_success :: "db_sts \<Rightarrow> bool" where
  "is_success status \<longleftrightarrow> status = sts_success \<or> status = sts_success_with_info"

definition is_no_data :: "db_sts \<Rightarrow> bool" where
  "is_no_data status \<longleftrightarrow> status = sts_no_data"

primrec db_status_to_string :: "db_sts \<Rightarrow> string" where
  "db_status_to_string sts_success = ''Success''"
| "db_status_to_string sts_success_with_info = ''Success with info''"
| "db_status_to_string sts_no_data = ''No data''"
| "db_status_to_string sts_error = ''Error''"
| "db_status_to_string sts_invalid_handle = ''Invalid handle''"
| "db_status_to_string sts_need_data = ''Need data''"
| "db_status_to_string sts_still_executing = ''Still executing''"
| "db_status_to_string sts_connection_error = ''Connection error''"
| "db_status_to_string sts_connection_lost = ''Connection lost''"
| "db_status_to_string sts_server_gone = ''Server gone''"
| "db_status_to_string sts_timeout = ''Timeout''"
| "db_status_to_string sts_busy = ''Database busy''"
| "db_status_to_string sts_access_denied = ''Access denied''"
| "db_status_to_string sts_invalid_sql = ''Invalid SQL''"
| "db_status_to_string sts_syntax_error = ''Syntax error''"
| "db_status_to_string sts_constraint_violation = ''Constraint violation''"
| "db_status_to_string sts_duplicate_key = ''Duplicate key''"
| "db_status_to_string sts_truncated = ''Data truncated''"
| "db_status_to_string sts_invalid_cursor = ''Invalid cursor state''"
| "db_status_to_string sts_transaction_error = ''Transaction error''"
| "db_status_to_string sts_deadlock = ''Deadlock detected''"
| "db_status_to_string sts_serialization_failure = ''Serialization failure''"
| "db_status_to_string sts_memory_error = ''Memory error''"
| "db_status_to_string sts_resource_error = ''Resource error''"
| "db_status_to_string sts_disk_full = ''Disk full''"
| "db_status_to_string sts_quota_exceeded = ''Quota exceeded''"
| "db_status_to_string sts_driver_not_found = ''Driver not found''"
| "db_status_to_string sts_env_error = ''Environment error''"
| "db_status_to_string sts_not_implemented = ''Not implemented''"
| "db_status_to_string sts_os_error = ''OS error''"
| "db_status_to_string sts_data_conversion_error = ''Data conversion error''"
| "db_status_to_string sts_data_truncated = ''Data truncated''"
| "db_status_to_string sts_invalid_parameter = ''Invalid parameter''"
| "db_status_to_string sts_admin_error = ''Administrative error''"
| "db_status_to_string sts_config_error = ''Configuration error''"
| "db_status_to_string sts_license_error = ''License error''"
| "db_status_to_string sts_custom_error = ''Custom error''"
| "db_status_to_string sts_unknown = ''Unknown error''"

datatype change_op = op_insert | op_update | op_remove

subsection \<open>Statement metadata\<close>

record qry_metadata =
  qm_columns :: meta_vec
  qm_params :: meta_vec

definition add_col_dscr :: "meta_dscr \<Rightarrow> qry_metadata \<Rightarrow> qry_metadata" where
  "add_col_dscr dscr q = q\<lparr>qm_columns := qm_columns q @ [dscr]\<rparr>"

definition add_par_dscr :: "meta_dscr \<Rightarrow> qry_metadata \<Rightarrow> qry_metadata" where
  "add_par_dscr dscr q = q\<lparr>qm_params := qm_params q @ [dscr]\<rparr>"

text \<open>One line of \<open>dump\<close>, in the columns of the format string. \<open>enum_name\<close> is \<open>magic_enum\<close>.\<close>

definition dump_line ::
  "string \<Rightarrow> string \<Rightarrow> string \<Rightarrow> string \<Rightarrow> string \<Rightarrow> string \<Rightarrow> string \<Rightarrow> string \<Rightarrow> string" where
  "dump_line ndx name type mnemonic native sz digits nullable =
     ''      '' @ align_right 3 ndx @ '' '' @ align_left 20 name @ '' '' @ align_left 18 type
     @ '' '' @ align_left 20 mnemonic @ '' '' @ align_right 9 native @ '' '' @ align_right 4 sz
     @ '' '' @ align_right 6 digits @ '' '' @ align_center 8 nullable @ nl"

definition dump_meta_vector :: "(sql_type \<Rightarrow> string) \<Rightarrow> string \<Rightarrow> meta_vec \<Rightarrow> string" where
  "dump_meta_vector enum_name header v =
     (if v = [] then []
      else header @ concat (map (\<lambda>col.
        dump_line (dec_int (sint (md_index col))) (md_name col) (enum_name (md_type col))
          (sm_mnemonic (get_sql_mapping (md_type col))) (dec_int (sint (md_native_type col)))
          (dec (unat (md_size col))) (dec_int (sint (md_digits col)))
          (if md_nullable col \<noteq> 0 then ''yes'' else ''no'')) v))"

definition qry_metadata_dump :: "(sql_type \<Rightarrow> string) \<Rightarrow> qry_metadata \<Rightarrow> string" where
  "qry_metadata_dump enum_name q =
     (let msg_hdr = dump_line ''ndx'' ''column name'' ''col type'' ''mnemonic'' ''native'' ''size''
                      ''digits'' ''nullable'';
          col = dump_meta_vector enum_name msg_hdr (qm_columns q);
          par = dump_meta_vector enum_name msg_hdr (qm_params q)
      in nl @ ''     columns: '' @ dec (length (qm_columns q)) @ nl @ col @ nl
         @ ''    parameters: '' @ dec (length (qm_params q)) @ nl @ par @ nl @ ''  '')"

subsection \<open>Defaults of the base class\<close>

text \<open>The state every connection shares: the backend data it owns, the logger and the text
  \<open>connection()\<close> answers. A method returns its status and the object after the call.\<close>

record 'd db_base =
  db_data :: "'d option"
  db_log :: log_t
  db_connection_info :: string

definition db_connect_str :: "string \<Rightarrow> 'd db_base \<Rightarrow> db_sts \<times> 'd db_base" where
  "db_connect_str conn_str d = (sts_driver_not_found, d)"

definition db_connect ::
  "string \<Rightarrow> u16 \<Rightarrow> string \<Rightarrow> string \<Rightarrow> string \<Rightarrow> 'd db_base \<Rightarrow> db_sts \<times> 'd db_base" where
  "db_connect host port database_name user password d =
     (sts_connection_error, d\<lparr>db_log := log_error
        (''Connection error - db2 method not implemented host: '' @ host @ '' port '' @ dec (unat port)
         @ '' db '' @ database_name @ '' user '' @ user @ '' pass *****'') (db_log d)\<rparr>)"

definition db_disconnect :: "'d db_base \<Rightarrow> db_sts \<times> 'd db_base" where
  "db_disconnect d = (sts_success, d)"

definition db_is_connected :: "'d db_base \<Rightarrow> bool" where
  "db_is_connected d = False"

definition db_commit :: "'d db_base \<Rightarrow> db_sts \<times> 'd db_base" where
  "db_commit d = (sts_success, d)"

definition db_rollback :: "'d db_base \<Rightarrow> db_sts \<times> 'd db_base" where
  "db_rollback d = (sts_success, d)"

definition db_exec :: "string \<Rightarrow> 'd db_base \<Rightarrow> db_sts \<times> 'd db_base" where
  "db_exec sql d = (sts_not_implemented, d\<lparr>db_log := log_error
     (''exec is not implemented by this backend. sql: '' @ [CHR 0x27] @ sql @ [CHR 0x27]) (db_log d)\<rparr>)"

definition db_refresh_statistics :: "string \<Rightarrow> 'd db_base \<Rightarrow> db_sts \<times> 'd db_base" where
  "db_refresh_statistics table_name d = (sts_not_implemented, d\<lparr>db_log := log_error
     (''refresh_statistics is not implemented by this backend. table_name: ''
      @ [CHR 0x27] @ table_name @ [CHR 0x27]) (db_log d)\<rparr>)"

definition db_on_change :: "string \<Rightarrow> (change_op \<Rightarrow> 'u) \<Rightarrow> 'd db_base \<Rightarrow> db_sts \<times> 'd db_base" where
  "db_on_change table_name handler d = (sts_not_implemented, d\<lparr>db_log := log_error
     (''on_change is not implemented by this backend. table_name: ''
      @ [CHR 0x27] @ table_name @ [CHR 0x27]) (db_log d)\<rparr>)"

definition set_connection_info :: "string \<Rightarrow> u16 \<Rightarrow> string \<Rightarrow> string \<Rightarrow> 'd db_base \<Rightarrow> 'd db_base" where
  "set_connection_info host port database_name user d =
     d\<lparr>db_connection_info := ''host:'' @ host @ '' port:'' @ dec (unat port)
        @ '' database:'' @ database_name @ '' user:'' @ user\<rparr>"

text \<open>\<open>db::chk\<close>: a status that is no success is logged under its context and collapsed to false.\<close>

definition db_chk :: "db_sts \<Rightarrow> string \<Rightarrow> 'd db_base \<Rightarrow> bool \<times> 'd db_base" where
  "db_chk sts context d =
     (if is_success sts then (True, d)
      else (False, d\<lparr>db_log := log_error (context @ '': '' @ db_status_to_string sts) (db_log d)\<rparr>))"

subsection \<open>Writing a string column\<close>

text \<open>\<open>set_value\<close> on the row arrays of one column: \<open>cap\<close> is \<open>NetCapacity\<close>, the width of every
  row; \<open>zero\<close> is the terminator \<open>CharT(0)\<close> of the two character types, \<open>None\<close> for the binary
  one. Both checks are the ones of the source; the accesses they do not exclude are undefined
  behaviour of the language.\<close>

definition set_value ::
  "nat \<Rightarrow> 'c option \<Rightarrow> 'c list \<Rightarrow> nat \<Rightarrow> i32 list \<Rightarrow> 'c list list \<Rightarrow> (i32 list \<times> 'c list list) cpp" where
  "set_value cap zero value row len_vec data_vec =
     (if length len_vec \<noteq> length data_vec then Assert_failed
      else if length value > cap then
        Throws (''Value is too long. provided: '' @ dec (length value) @ '' maximum allowed '' @ dec cap)
      else if length data_vec < row then
        Throws (''Row is too long. provided: '' @ dec row @ '' maximum allowed '' @ dec (length data_vec))
      else if \<not> row < length data_vec then Undefined_behaviour
      else
        let len_vec' = len_vec[row := of_nat (length value)];
            buf = value @ drop (length value) (data_vec ! row)
        in case zero of
             None \<Rightarrow> Ret (len_vec', data_vec[row := buf])
           | Some z \<Rightarrow>
               if \<not> length value < length buf then Undefined_behaviour
               else Ret (len_vec', data_vec[row := buf[length value := z]]))"

subsection \<open>Properties\<close>

lemma is_success_code: "is_success s \<longleftrightarrow> 0 \<le> db_sts_code s \<and> db_sts_code s < 100"
  by (cases s) (simp_all add: is_success_def)

lemma db_sts_code_range: "- (2 ^ 15) \<le> db_sts_code s \<and> db_sts_code s < 2 ^ 15"
  by (cases s) simp_all

text \<open>the numeric values keep the documented partition of the status space: success, no-data
  and every error are told apart by the sign and size of the code, all codes fit the 16-bit
  underlying type, and every status has a non-empty text.\<close>

theorem db_sts_partition:
  "(is_success s \<longleftrightarrow> db_sts_code s \<in> {0, 1}) \<and> (is_no_data s \<longleftrightarrow> db_sts_code s = 100)
   \<and> (is_success s \<or> is_no_data s \<or> db_sts_code s < 0) \<and> \<not> (is_success s \<and> is_no_data s)
   \<and> - (2 ^ 15) \<le> db_sts_code s \<and> db_sts_code s < 2 ^ 15 \<and> db_status_to_string s \<noteq> []"
  by (cases s) (simp_all add: is_success_def is_no_data_def)

lemma db_chk_result [simp]: "fst (db_chk sts ctx d) = is_success sts"
  by (simp add: db_chk_def)

text \<open>\<open>db::chk\<close> is true exactly on success, and logs exactly one error line, and changes
  nothing else, exactly on failure.\<close>

theorem db_chk_logs_failures:
  "fst (db_chk sts ctx d) = is_success sts
   \<and> length (db_log (snd (db_chk sts ctx d))) = length (db_log d) + (if is_success sts then 0 else 1)
   \<and> (snd (db_chk sts ctx d))\<lparr>db_log := db_log d\<rparr> = d"
  by (simp add: db_chk_def log_error_def)

text \<open>a string setter called inside its contract (the value fits below the capacity, or up to
  it for binary data, and the row exists) returns, stores the value at the front of the row with
  its terminator, records its length, keeps every row at its capacity and leaves every other row
  of both arrays untouched.\<close>

theorem set_value_in_range:
  assumes "length len_vec = length data_vec" "row < length data_vec"
    and "list_all (\<lambda>b. length b = cap) data_vec"
    and "length value < cap \<or> (zero = None \<and> length value = cap)"
  shows "\<exists>lv dv. set_value cap zero value row len_vec data_vec = Ret (lv, dv)
    \<and> lv = len_vec[row := of_nat (length value)]
    \<and> take (length value) (dv ! row) = value
    \<and> (case zero of None \<Rightarrow> True | Some z \<Rightarrow> dv ! row ! length value = z)
    \<and> list_all (\<lambda>b. length b = cap) dv
    \<and> length dv = length data_vec \<and> (\<forall>r. r \<noteq> row \<longrightarrow> dv ! r = data_vec ! r)"
proof -
  have cap: "length (data_vec ! row) = cap" using assms(2,3) by (simp add: list_all_length)
  let ?buf = "value @ drop (length value) (data_vec ! row)"
  have len: "length ?buf = cap" using assms(4) cap by auto
  show ?thesis
  proof (cases zero)
    case None
    with assms cap len show ?thesis
      by (auto simp: set_value_def list_all_length nth_list_update Let_def)
  next
    case (Some z)
    with assms have lt: "length value < cap" by simp
    with assms Some cap len show ?thesis
      by (auto simp: set_value_def list_all_length nth_list_update Let_def)
  qed
qed

theorem set_value_in_range_witness:
  "set_value 4 (Some (0::nat)) [7, 8] 1 [0, 0] [[0, 0, 0, 0], [9, 9, 9, 9]]
     = Ret ([0, 2], [[0, 0, 0, 0], [7, 8, 0, 9]])
   \<and> (\<exists>lv dv. set_value 4 (Some (0::nat)) [7, 8] 1 [0, 0] [[0, 0, 0, 0], [9, 9, 9, 9]] = Ret (lv, dv)
        \<and> take 2 (dv ! 1) = [7, 8])"
  using set_value_in_range [of "[0, 0]" "[[0, 0, 0, 0], [9, 9, 9, 9]]" 1 4 "[7, 8]" "Some (0::nat)"]
  by (auto simp: set_value_def)

text \<open>the two bounds checks of \<open>set_value\<close> are each one too permissive. A character value of
  exactly the capacity passes the length check and then writes its terminator one past the row,
  and a row equal to the number of rows passes the row check and then indexes one past both
  arrays; a longer value and a larger row are refused with an exception.\<close>

theorem set_value_boundary:
  assumes "length len_vec = length data_vec" "list_all (\<lambda>b. length b = cap) data_vec"
  shows "(length value = cap \<and> row < length data_vec
            \<longrightarrow> set_value cap (Some z) value row len_vec data_vec = Undefined_behaviour)
    \<and> (length value \<le> cap \<longrightarrow> set_value cap zero value (length data_vec) len_vec data_vec = Undefined_behaviour)
    \<and> (cap < length value \<longrightarrow> (\<exists>msg. set_value cap zero value row len_vec data_vec = Throws msg))
    \<and> (length data_vec < row \<longrightarrow> (\<exists>msg. set_value cap zero value row len_vec data_vec = Throws msg))"
  using assms by (auto simp: set_value_def Let_def list_all_length)

theorem set_value_boundary_witness:
  "set_value 2 (Some (0::nat)) [7, 8] 0 [0] [[0, 0]] = Undefined_behaviour
   \<and> set_value 2 None [7::nat, 8] 1 [0] [[0, 0]] = Undefined_behaviour"
  using set_value_boundary [of "[0]" "[[0, 0]]" 2 "[7, 8]" 0 "0::nat" None] by simp

end
