(* ===== verification/Db_Error.thy ===== *)
theory Db_Error
  imports Rtl_Core
begin

text \<open>
  One description of a failure for every backend (\<open>src/rtl/db_error.hpp\<close>, \<open>db_error.cpp\<close>) and
  the two backend errors that convert into it: \<open>psql_error\<close> (\<open>psql/query.hpp\<close>) and
  \<open>odbc_error\<close> (\<open>db2/odbc_error.hpp\<close>, \<open>odbc_error.cpp\<close>). The classification by SQLSTATE
  consults the table of codes before the table of classes. What libpq and the ODBC driver
  report is an argument of the constructors.
\<close>

subsection \<open>Classification by SQLSTATE\<close>

record db_error =
  de_sts :: db_sts
  de_message :: string
  de_sql_state :: string
  de_driver_status :: i16
  de_native_error :: i32

definition has_class :: "string \<Rightarrow> string \<Rightarrow> bool" where
  "has_class s cls \<longleftrightarrow> 2 \<le> length s \<and> take 2 s = cls"

record state_entry =
  se_key :: string
  se_sts :: db_sts

definition state_entries :: "(string \<times> db_sts) list \<Rightarrow> state_entry list" where
  "state_entries es = map (\<lambda>(k, s). \<lparr>se_key = k, se_sts = s\<rparr>) es"

definition by_code :: "state_entry list" where
  "by_code = state_entries [
     (''00000'', sts_success),
     (''23505'', sts_duplicate_key),
     (''40001'', sts_serialization_failure),
     (''40P01'', sts_deadlock),
     (''40003'', sts_transaction_error),
     (''22001'', sts_data_truncated),
     (''53100'', sts_disk_full),
     (''53200'', sts_memory_error),
     (''53400'', sts_quota_exceeded),
     (''57014'', sts_timeout),
     (''28000'', sts_access_denied),
     (''28P01'', sts_access_denied)]"

definition by_class :: "state_entry list" where
  "by_class = state_entries [
     (''01'', sts_success_with_info),
     (''02'', sts_no_data),
     (''08'', sts_connection_lost),
     (''0A'', sts_not_implemented),
     (''22'', sts_data_conversion_error),
     (''23'', sts_constraint_violation),
     (''24'', sts_invalid_cursor),
     (''25'', sts_transaction_error),
     (''28'', sts_access_denied),
     (''40'', sts_transaction_error),
     (''42'', sts_invalid_sql),
     (''53'', sts_resource_error),
     (''54'', sts_resource_error),
     (''57'', sts_admin_error),
     (''58'', sts_os_error)]"

definition sqlstate_to_db_sts :: "string \<Rightarrow> db_sts" where
  "sqlstate_to_db_sts sql_state =
     (if sql_state = [] then sts_error
      else case find (\<lambda>e. sql_state = se_key e) by_code of
        Some e \<Rightarrow> se_sts e
      | None \<Rightarrow> (case find (\<lambda>e. has_class sql_state (se_key e)) by_class of
          Some e \<Rightarrow> se_sts e
        | None \<Rightarrow> sts_error))"

definition is_error :: "db_error \<Rightarrow> bool" where
  "is_error e \<longleftrightarrow> \<not> is_success (de_sts e)"

definition is_duplicate :: "db_error \<Rightarrow> bool" where
  "is_duplicate e \<longleftrightarrow> de_sql_state e = ''23505''"

definition db_error_str :: "db_error \<Rightarrow> string" where
  "db_error_str e =
     (if de_sql_state e = [] then de_message e @ '' ('' @ db_status_to_string (de_sts e) @ '')''
      else ''sqlstate '' @ [CHR 0x27] @ de_sql_state e @ [CHR 0x27] @ '': '' @ de_message e
           @ '' ('' @ db_status_to_string (de_sts e) @ '')'')"

text \<open>The free \<open>chk\<close> over a result, and its overload over a status: the line is logged, the
  result collapses to a truth value. \<open>conv\<close> is the \<open>to_db_error\<close> of the linked backend.\<close>

definition chk_result :: "('e \<Rightarrow> db_error) \<Rightarrow> 'e + unit \<Rightarrow> log_t \<Rightarrow> string \<Rightarrow> bool \<times> log_t" where
  "chk_result conv result log context =
     (case result of
        Inr _ \<Rightarrow> (True, log)
      | Inl e \<Rightarrow> (False, log_error (context @ '': '' @ db_error_str (conv e)) log))"

definition chk_sts :: "db_sts \<Rightarrow> log_t \<Rightarrow> string \<Rightarrow> bool \<times> log_t" where
  "chk_sts sts log context =
     (if is_success sts then (True, log)
      else (False, log_error (context @ '': '' @ db_status_to_string sts) log))"

subsection \<open>The PostgreSQL error\<close>

text \<open>A \<open>PGresult\<close> as far as an error is built from it: the SQLSTATE field and the message, each
  possibly null, and the status. \<open>fatal\<close> stands for the constant \<open>PGRES_FATAL_ERROR\<close>.\<close>

record psql_error =
  pe_message :: string
  pe_sql_state :: string
  pe_status :: int

record pg_diag =
  pgd_state :: "string option"
  pgd_message :: "string option"
  pgd_status :: int

definition psql_error_from_result :: "int \<Rightarrow> pg_diag option \<Rightarrow> string option \<Rightarrow> psql_error" where
  "psql_error_from_result fatal res conn_message =
     (let state = (case res of Some r \<Rightarrow> pgd_state r | None \<Rightarrow> None);
          msg = (case res of Some r \<Rightarrow> pgd_message r | None \<Rightarrow> conn_message)
      in \<lparr>pe_message = (case msg of Some m \<Rightarrow> m | None \<Rightarrow> ''unknown error''),
          pe_sql_state = (case state of Some s \<Rightarrow> s | None \<Rightarrow> []),
          pe_status = (case res of Some r \<Rightarrow> pgd_status r | None \<Rightarrow> fatal)\<rparr>)"

definition psql_to_db_error :: "psql_error \<Rightarrow> db_error" where
  "psql_to_db_error e = \<lparr>de_sts = sqlstate_to_db_sts (pe_sql_state e), de_message = pe_message e,
     de_sql_state = pe_sql_state e, de_driver_status = word_of_int (pe_status e), de_native_error = 0\<rparr>"

subsection \<open>The DB2 error\<close>

record odbc_error =
  oe_ret :: i16
  oe_message :: string
  oe_sql_state :: string
  oe_native_error :: i32

text \<open>What \<open>SQLGetDiagRec\<close> leaves behind: whether it succeeded, the six bytes of \<open>state\<close>, the
  native code, the message array (of \<open>SQL_MAX_MESSAGE_LENGTH\<close> bytes) and the length the driver
  says the message has, which ODBC defines as the full length, before truncation.\<close>

record diag_rec =
  dr_succeeded :: bool
  dr_state :: string
  dr_native :: i32
  dr_msg :: string
  dr_msg_len :: i16

text \<open>\<open>sqlchar_to_utf8(msg, msg_len)\<close> on an 8-bit build: the length is converted to \<open>size_t\<close> and
  that many bytes are read from the array, also past its end.\<close>

definition sqlchar_to_utf8 :: "string \<Rightarrow> i16 \<Rightarrow> string cpp" where
  "sqlchar_to_utf8 src msg_len =
     (let len = unat (scast msg_len :: u64) in
      if len = 0 then Ret []
      else if len \<le> length src then Ret (take len src)
      else Undefined_behaviour)"

definition make_odbc_error :: "i16 \<Rightarrow> diag_rec \<Rightarrow> odbc_error cpp" where
  "make_odbc_error r dr =
     (if dr_succeeded dr
      then (case sqlchar_to_utf8 (dr_msg dr) (dr_msg_len dr) of
              Ret m \<Rightarrow> Ret \<lparr>oe_ret = r, oe_message = m, oe_sql_state = take 5 (dr_state dr),
                           oe_native_error = dr_native dr\<rparr>
            | Throws x \<Rightarrow> Throws x
            | Assert_failed \<Rightarrow> Assert_failed
            | Undefined_behaviour \<Rightarrow> Undefined_behaviour)
      else Ret \<lparr>oe_ret = r, oe_message = ''ODBC diagnostic retrieval failed'',
                oe_sql_state = ''HY000'', oe_native_error = dr_native dr\<rparr>)"

definition odbc_error_client :: "i16 \<Rightarrow> string \<Rightarrow> odbc_error" where
  "odbc_error_client sql_error message =
     \<lparr>oe_ret = sql_error, oe_message = message, oe_sql_state = ''HY010'', oe_native_error = 0\<rparr>"

definition odbc_to_db_error :: "odbc_error \<Rightarrow> db_error" where
  "odbc_to_db_error e = \<lparr>de_sts = sqlstate_to_db_sts (oe_sql_state e), de_message = oe_message e,
     de_sql_state = oe_sql_state e, de_driver_status = oe_ret e, de_native_error = oe_native_error e\<rparr>"

subsection \<open>Properties\<close>

lemmas sqlstate_defs = sqlstate_to_db_sts_def by_code_def by_class_def state_entries_def has_class_def

text \<open>The classification written as one decision list.\<close>

lemma sqlstate_success_class:
  "is_success (sqlstate_to_db_sts s) \<longleftrightarrow> s = ''00000'' \<or> has_class s ''01''"
  by (simp add: sqlstate_defs is_success_def)

lemma sqlstate_duplicate: "sqlstate_to_db_sts s = sts_duplicate_key \<longleftrightarrow> s = ''23505''"
  by (simp add: sqlstate_defs)

text \<open>a failure is classified as success only for the SQLSTATE \<open>00000\<close> and the warnings of class
  01, an empty state (a client side fault) and an unknown one are plain errors, and the specific
  code 23505 is told apart from its class: it alone is a duplicate key, every other state of
  class 23 is a constraint violation.\<close>

theorem sqlstate_classification:
  "(is_success (sqlstate_to_db_sts s) \<longleftrightarrow> s = ''00000'' \<or> has_class s ''01'')
   \<and> (sqlstate_to_db_sts s = sts_duplicate_key \<longleftrightarrow> s = ''23505'')
   \<and> (sqlstate_to_db_sts s = sts_constraint_violation \<longleftrightarrow> has_class s ''23'' \<and> s \<noteq> ''23505'')
   \<and> (sqlstate_to_db_sts s = sts_transaction_error \<longleftrightarrow> has_class s ''25''
        \<or> has_class s ''40'' \<and> s \<noteq> ''40001'' \<and> s \<noteq> ''40P01'')
   \<and> sqlstate_to_db_sts [] = sts_error
   \<and> (sqlstate_to_db_sts s = sts_error \<longleftrightarrow> s \<noteq> ''00000'' \<and> list_all (\<lambda>e. \<not> has_class s (se_key e)) by_class)"
proof (intro conjI)
  show "is_success (sqlstate_to_db_sts s) \<longleftrightarrow> s = ''00000'' \<or> has_class s ''01''"
    by (rule sqlstate_success_class)
  show "sqlstate_to_db_sts s = sts_duplicate_key \<longleftrightarrow> s = ''23505''"
    by (rule sqlstate_duplicate)
  show "sqlstate_to_db_sts s = sts_constraint_violation \<longleftrightarrow> has_class s ''23'' \<and> s \<noteq> ''23505''"
    by (auto simp: sqlstate_defs)
  show "sqlstate_to_db_sts s = sts_transaction_error \<longleftrightarrow> has_class s ''25''
        \<or> has_class s ''40'' \<and> s \<noteq> ''40001'' \<and> s \<noteq> ''40P01''"
    by (auto simp: sqlstate_defs)
  show "sqlstate_to_db_sts [] = sts_error" by (simp add: sqlstate_to_db_sts_def)
  show "sqlstate_to_db_sts s = sts_error \<longleftrightarrow> s \<noteq> ''00000'' \<and> list_all (\<lambda>e. \<not> has_class s (se_key e)) by_class"
    by (auto simp: sqlstate_defs)
qed

text \<open>the two backends agree: errors with one SQLSTATE get one status whichever driver reported
  them, both keep message, state and driver code verbatim, and \<open>is_duplicate\<close>, which looks at the
  state, holds exactly when the status is \<open>duplicate_key\<close>.\<close>

theorem to_db_error_backend_neutral:
  "(pe_sql_state p = oe_sql_state q \<longrightarrow> de_sts (psql_to_db_error p) = de_sts (odbc_to_db_error q)
      \<and> is_error (psql_to_db_error p) = is_error (odbc_to_db_error q))
   \<and> (is_duplicate (psql_to_db_error p) \<longleftrightarrow> de_sts (psql_to_db_error p) = sts_duplicate_key)
   \<and> (is_duplicate (odbc_to_db_error q) \<longleftrightarrow> de_sts (odbc_to_db_error q) = sts_duplicate_key)
   \<and> de_message (psql_to_db_error p) = pe_message p \<and> de_message (odbc_to_db_error q) = oe_message q
   \<and> de_driver_status (odbc_to_db_error q) = oe_ret q"
  by (auto simp: psql_to_db_error_def odbc_to_db_error_def is_duplicate_def is_error_def sqlstate_duplicate)

theorem to_db_error_backend_neutral_witness:
  "de_sts (psql_to_db_error \<lparr>pe_message = ''dup'', pe_sql_state = ''23505'', pe_status = 7\<rparr>)
   = de_sts (odbc_to_db_error \<lparr>oe_ret = - 1, oe_message = ''SQL0803N'', oe_sql_state = ''23505'',
       oe_native_error = - 803\<rparr>)"
  using to_db_error_backend_neutral
    [of "\<lparr>pe_message = ''dup'', pe_sql_state = ''23505'', pe_status = 7\<rparr>"
        "\<lparr>oe_ret = - 1, oe_message = ''SQL0803N'', oe_sql_state = ''23505'', oe_native_error = - 803\<rparr>"]
  by simp

text \<open>An error built from a null result is never mistaken for a success or a duplicate.\<close>

lemma psql_error_without_result:
  "is_error (psql_to_db_error (psql_error_from_result fatal None m))
   \<and> \<not> is_duplicate (psql_to_db_error (psql_error_from_result fatal None m))"
  by (simp add: psql_error_from_result_def psql_to_db_error_def is_error_def is_duplicate_def
      sqlstate_success_class has_class_def)

lemma chk_result_iff: "fst (chk_result conv r l c) \<longleftrightarrow> (\<exists>u. r = Inr u)"
  by (simp add: chk_result_def split: sum.splits)

lemma client_error_is_error: "is_error (odbc_to_db_error (odbc_error_client r m))"
  by (simp add: odbc_error_client_def odbc_to_db_error_def is_error_def sqlstate_success_class has_class_def)

text \<open>reading a driver diagnostic is safe as long as the length the driver reports is
  non-negative and inside the message array; a message the driver had to truncate reports its
  full length, and building the error then reads past the array.\<close>

theorem odbc_diag_message_bounds:
  assumes "dr_succeeded dr"
  shows "(0 \<le> sint (dr_msg_len dr) \<and> nat (sint (dr_msg_len dr)) \<le> length (dr_msg dr) \<longrightarrow>
           (\<exists>e. make_odbc_error r dr = Ret e \<and> oe_message e = take (nat (sint (dr_msg_len dr))) (dr_msg dr)
              \<and> oe_sql_state e = take 5 (dr_state dr) \<and> oe_ret e = r))
    \<and> (length (dr_msg dr) < nat (sint (dr_msg_len dr)) \<longrightarrow> make_odbc_error r dr = Undefined_behaviour)"
  using assms by (auto simp: make_odbc_error_def sqlchar_to_utf8_def unat_sign_extended Let_def)

theorem odbc_diag_message_bounds_witness:
  "make_odbc_error (- 1) \<lparr>dr_succeeded = True, dr_state = ''42704'', dr_native = - 204,
     dr_msg = ''abc'', dr_msg_len = 600\<rparr> = Undefined_behaviour"
  using odbc_diag_message_bounds [of "\<lparr>dr_succeeded = True, dr_state = ''42704'', dr_native = - 204,
     dr_msg = ''abc'', dr_msg_len = 600\<rparr>" "- 1"] by simp

end
