(* ===== verification/Buffers.thy ===== *)
theory Buffers
  imports Rtl_Core
begin

text \<open>
  The column buffers of generated code (\<open>src/rtl/buffer_dscr.hpp\<close>, \<open>parameter_root.hpp\<close>,
  \<open>parameter_root.cpp\<close>, \<open>result_root.hpp\<close>, \<open>no_params.hpp\<close>, \<open>no_results.hpp\<close>). A column
  is its array of values and its array of length/null indicators; a buffer is its columns and
  the bookkeeping of the root class. The two root classes share one interface to the storage of
  the derived class: the locale \<open>row_storage\<close>, which the generated storage implements.
\<close>

subsection \<open>Descriptions and slots\<close>

definition null_data :: i32 where
  "null_data = - 1"

record buffer_dscr_const =
  bd_name :: string
  bd_category :: sql_cat
  bd_base_type :: string
  bd_type :: sql_type
  bd_column_size :: u32
  bd_decimal_digits :: i16

text \<open>One value slot. The element types of the generated arrays are the storage types of the
  type table; the two floating point types are parameters.\<close>

datatype ('f, 'd) slot =
    Sl_int8 u8 | Sl_int16 i16 | Sl_int32 i32 | Sl_int64 i64
  | Sl_float 'f | Sl_double 'd | Sl_bool bool
  | Sl_chars string | Sl_bytes "u8 list" | Sl_wchars "i32 list"
  | Sl_date date | Sl_time time | Sl_timestamp timestamp | Sl_interval interval | Sl_guid guid
  | Sl_void

record ('f, 'd) column =
  co_values :: "('f, 'd) slot list"
  co_ind :: "i32 list"

subsection \<open>The root classes\<close>

text \<open>The state of \<open>parameter_root\<close> and \<open>result_root\<close>: the storage of the derived class, how
  often it has moved (a 64-bit counter) and, for results, how many rows the last fetch filled.\<close>

record 's buffer_root =
  br_storage :: 's
  br_layout_generation :: u64
  br_occupied :: nat

definition set_buffer_size :: "(nat \<Rightarrow> 's \<Rightarrow> 's) \<Rightarrow> nat \<Rightarrow> 's buffer_root \<Rightarrow> 's buffer_root" where
  "set_buffer_size resize_storage rows b =
     (let rows' = (if rows = 0 then 1 else rows) in
      b\<lparr>br_storage := resize_storage rows' (br_storage b),
        br_layout_generation := br_layout_generation b + 1\<rparr>)"

definition is_batch :: "('s \<Rightarrow> nat) \<Rightarrow> 's buffer_root \<Rightarrow> bool" where
  "is_batch buffer_size b \<longleftrightarrow> buffer_size (br_storage b) > 1"

definition set_occupied :: "nat \<Rightarrow> 's buffer_root \<Rightarrow> 's buffer_root" where
  "set_occupied v b = b\<lparr>br_occupied := v\<rparr>"

text \<open>\<open>no_params\<close> and \<open>no_results\<close>: no storage at all.\<close>

definition no_buffer_size :: "unit \<Rightarrow> nat" where
  "no_buffer_size s = 0"

definition no_resize_storage :: "nat \<Rightarrow> unit \<Rightarrow> unit" where
  "no_resize_storage rows s = ()"

subsection \<open>Generated storage\<close>

text \<open>\<open>T{}\<close> for the element type of a column.\<close>

definition default_date :: date where
  "default_date = \<lparr>d_year = 0, d_month = 0, d_day = 0\<rparr>"

definition default_time :: time where
  "default_time = \<lparr>t_hour = 0, t_minute = 0, t_second = 0\<rparr>"

definition default_timestamp :: timestamp where
  "default_timestamp = \<lparr>ts_year = 0, ts_month = 0, ts_day = 0, ts_hour = 0, ts_minute = 0,
     ts_second = 0, ts_fraction = 0\<rparr>"

definition default_guid :: guid where
  "default_guid = \<lparr>g_data1 = 0, g_data2 = 0, g_data3 = 0, g_data4 = replicate 8 0\<rparr>"

definition default_interval :: interval where
  "default_interval = \<lparr>iv_kind = ik_year, iv_sign = 0, iv_value = Iv_year_month \<lparr>ym_year = 0, ym_month = 0\<rparr>\<rparr>"

definition is_date_type :: "sql_type \<Rightarrow> bool" where
  "is_date_type t \<longleftrightarrow> t = st_date \<or> t = st_type_date"

definition is_time_type :: "sql_type \<Rightarrow> bool" where
  "is_time_type t \<longleftrightarrow> t = st_time \<or> t = st_type_time"

definition is_timestamp_type :: "sql_type \<Rightarrow> bool" where
  "is_timestamp_type t \<longleftrightarrow> t = st_timestamp \<or> t = st_type_timestamp"

definition default_slot :: "'f \<Rightarrow> 'd \<Rightarrow> buffer_dscr_const \<Rightarrow> ('f, 'd) slot" where
  "default_slot f0 d0 dscr =
     (let t = bd_type dscr; n = unat (bd_column_size dscr) in
      case bd_category dscr of
        cat_c_string \<Rightarrow> Sl_chars (replicate (n + 1) (CHR 0x00))
      | cat_w_string \<Rightarrow> Sl_wchars (replicate (n + 1) 0)
      | cat_b_string \<Rightarrow> Sl_bytes (replicate n 0)
      | cat_atomic \<Rightarrow>
          (if t = st_smallint then Sl_int16 0 else if t = st_integer then Sl_int32 0
           else if t = st_bigint then Sl_int64 0 else if t = st_tiny_int then Sl_int8 0
           else if t = st_real then Sl_float f0 else if t = st_bit then Sl_bool False else Sl_double d0)
      | cat_structure \<Rightarrow>
          (if is_date_type t then Sl_date default_date
           else if is_time_type t then Sl_time default_time
           else if is_timestamp_type t then Sl_timestamp default_timestamp
           else if t = st_guid then Sl_guid default_guid
           else if t = st_unknown then Sl_void
           else Sl_interval default_interval))"

text \<open>\<open>assign(rows, {})\<close> on every value array and \<open>assign(rows, 0)\<close> on every indicator array;
  the size is the one of the arrays.\<close>

definition gen_resize_storage ::
  "'f \<Rightarrow> 'd \<Rightarrow> buffer_dscr_const list \<Rightarrow> nat \<Rightarrow> ('f, 'd) column list \<Rightarrow> ('f, 'd) column list" where
  "gen_resize_storage f0 d0 dscr rows cols =
     map (\<lambda>d. \<lparr>co_values = replicate rows (default_slot f0 d0 d), co_ind = replicate rows 0\<rparr>) dscr"

definition gen_buffer_size :: "('f, 'd) column list \<Rightarrow> nat" where
  "gen_buffer_size cols = (case cols of [] \<Rightarrow> 0 | c # _ \<Rightarrow> length (co_ind c))"

text \<open>\<open>reset_all_null\<close>: every indicator of every row.\<close>

definition reset_all_null :: "('f, 'd) column list \<Rightarrow> ('f, 'd) column list" where
  "reset_all_null cols = map (\<lambda>c. c\<lparr>co_ind := map (\<lambda>_. null_data) (co_ind c)\<rparr>) cols"

text \<open>The storage of a generated parameter class adds the per row status to its columns.\<close>

record ('f, 'd) par_storage =
  ps_cols :: "('f, 'd) column list"
  ps_row_status :: "u16 list"

text \<open>The template arguments: the descriptions of the two buffers; a class without columns is
  \<open>no_params\<close> or \<open>no_results\<close>.\<close>

record stmt_type =
  sy_pd :: "buffer_dscr_const list"
  sy_rd :: "buffer_dscr_const list"

definition has_p :: "stmt_type \<Rightarrow> bool" where
  "has_p ty \<longleftrightarrow> sy_pd ty \<noteq> []"

definition has_r :: "stmt_type \<Rightarrow> bool" where
  "has_r ty \<longleftrightarrow> sy_rd ty \<noteq> []"

text \<open>A slot of the type a description asks for.\<close>

definition slot_ok :: "buffer_dscr_const \<Rightarrow> ('f, 'd) slot \<Rightarrow> bool" where
  "slot_ok dscr s =
     (let t = bd_type dscr; n = unat (bd_column_size dscr) in
      case bd_category dscr of
        cat_c_string \<Rightarrow> (case s of Sl_chars cs \<Rightarrow> length cs = n + 1 | _ \<Rightarrow> False)
      | cat_w_string \<Rightarrow> (case s of Sl_wchars cs \<Rightarrow> length cs = n + 1 | _ \<Rightarrow> False)
      | cat_b_string \<Rightarrow> (case s of Sl_bytes bs \<Rightarrow> length bs = n | _ \<Rightarrow> False)
      | cat_atomic \<Rightarrow>
          (if t = st_smallint then (case s of Sl_int16 _ \<Rightarrow> True | _ \<Rightarrow> False)
           else if t = st_integer then (case s of Sl_int32 _ \<Rightarrow> True | _ \<Rightarrow> False)
           else if t = st_bigint then (case s of Sl_int64 _ \<Rightarrow> True | _ \<Rightarrow> False)
           else if t = st_tiny_int then (case s of Sl_int8 _ \<Rightarrow> True | _ \<Rightarrow> False)
           else if t = st_real then (case s of Sl_float _ \<Rightarrow> True | _ \<Rightarrow> False)
           else if t = st_bit then (case s of Sl_bool _ \<Rightarrow> True | _ \<Rightarrow> False)
           else (case s of Sl_double _ \<Rightarrow> True | _ \<Rightarrow> False))
      | cat_structure \<Rightarrow>
          (if is_date_type t then (case s of Sl_date _ \<Rightarrow> True | _ \<Rightarrow> False)
           else if is_time_type t then (case s of Sl_time _ \<Rightarrow> True | _ \<Rightarrow> False)
           else if is_timestamp_type t then (case s of Sl_timestamp _ \<Rightarrow> True | _ \<Rightarrow> False)
           else if t = st_guid then (case s of Sl_guid g \<Rightarrow> length (g_data4 g) = 8 | _ \<Rightarrow> False)
           else if t = st_unknown then s = Sl_void
           else (case s of Sl_interval _ \<Rightarrow> True | _ \<Rightarrow> False)))"

definition column_ok :: "nat \<Rightarrow> buffer_dscr_const \<Rightarrow> ('f, 'd) column \<Rightarrow> bool" where
  "column_ok rows d c \<longleftrightarrow> length (co_values c) = rows \<and> length (co_ind c) = rows
     \<and> list_all (slot_ok d) (co_values c)"

text \<open>The invariant of generated storage: one column per description, all of one height, every
  slot of its type.\<close>

definition storage_ok :: "buffer_dscr_const list \<Rightarrow> ('f, 'd) column list \<Rightarrow> bool" where
  "storage_ok dscr cols \<longleftrightarrow> list_all2 (column_ok (gen_buffer_size cols)) dscr cols"

subsection \<open>The interface of a storage\<close>

locale row_storage =
  fixes resize :: "nat \<Rightarrow> 's \<Rightarrow> 's"
    and rows :: "'s \<Rightarrow> nat"
    and invar :: "'s \<Rightarrow> bool"
  assumes rows_resize: "0 < n \<Longrightarrow> rows (resize n s) = n"
    and invar_resize: "0 < n \<Longrightarrow> invar (resize n s)"
begin

lemma size_after: "rows (br_storage (set_buffer_size resize n b)) = max 1 n"
  by (auto simp: set_buffer_size_def Let_def rows_resize)

lemma invar_after: "invar (br_storage (set_buffer_size resize n b))"
  by (auto simp: set_buffer_size_def Let_def invar_resize)

lemma batch_after: "is_batch rows (set_buffer_size resize n b) \<longleftrightarrow> 1 < n"
  by (simp add: is_batch_def size_after max_def)

lemma resized_is_noticed: "br_layout_generation (set_buffer_size resize n b) \<noteq> br_layout_generation b"
  by (simp add: set_buffer_size_def Let_def)

text \<open>A run of resizes is unnoticed only after a full turn of the 64-bit counter.\<close>

lemma generation_after_resizes:
  "br_layout_generation (fold (set_buffer_size resize) ns b) = br_layout_generation b + of_nat (length ns)"
  by (induction ns arbitrary: b) (simp_all add: set_buffer_size_def Let_def)

lemma resizes_noticed:
  assumes "ns \<noteq> []" "length ns < 2 ^ 64"
  shows "br_layout_generation (fold (set_buffer_size resize) ns b) \<noteq> br_layout_generation b"
proof -
  have "(of_nat (length ns) :: u64) \<noteq> 0"
    using assms by (auto simp: word_of_nat_eq_0_iff dest: nat_dvd_not_less [rotated])
  then show ?thesis by (simp add: generation_after_resizes)
qed

end

lemma slot_ok_default: "slot_ok d (default_slot f0 d0 d)"
  by (cases "bd_category d") (auto simp: slot_ok_def default_slot_def Let_def default_guid_def)

lemma gen_rows_resize: "dscr \<noteq> [] \<Longrightarrow> gen_buffer_size (gen_resize_storage f0 d0 dscr n s) = n"
  by (cases dscr) (auto simp: gen_buffer_size_def gen_resize_storage_def)

lemma gen_storage_ok_resize: "storage_ok dscr (gen_resize_storage f0 d0 dscr n s)"
proof (cases "dscr = []")
  case False
  have "list_all2 (column_ok n) dscr (gen_resize_storage f0 d0 dscr n s)"
    by (auto simp: gen_resize_storage_def list_all2_map2 column_ok_def slot_ok_default list_all_iff
        intro!: list_all2_refl)
  then show ?thesis by (simp add: storage_ok_def gen_rows_resize [OF False])
qed (simp add: storage_ok_def gen_resize_storage_def)

text \<open>A description with at least one column; a generated buffer class always has one.\<close>

definition with_column :: "buffer_dscr_const \<Rightarrow> buffer_dscr_const list \<Rightarrow> buffer_dscr_const list" where
  "with_column d ds = d # ds"

interpretation gen_rows: row_storage
  "gen_resize_storage f0 d0 (with_column d ds)" gen_buffer_size "storage_ok (with_column d ds)"
  for f0 d0 d ds
  by unfold_locales (simp_all add: gen_rows_resize gen_storage_ok_resize with_column_def)

text \<open>sizing a generated buffer always leaves it with at least one row, every column of that
  height and every slot of its type, makes it a batch exactly when more than one row was asked
  for, and is always noticed by the layout counter: no run of fewer than \<open>2 ^ 64\<close> resizes brings
  the counter back to where a prepared statement recorded it.\<close>

theorem set_buffer_size_noticed:
  assumes "ns \<noteq> []" "length ns < 2 ^ 64"
  shows "let b' = fold (set_buffer_size (gen_resize_storage f0 d0 (with_column d ds))) ns b in
      gen_buffer_size (br_storage b') = max 1 (last ns)
    \<and> storage_ok (with_column d ds) (br_storage b')
    \<and> (is_batch gen_buffer_size b' \<longleftrightarrow> 1 < last ns)
    \<and> br_layout_generation b' \<noteq> br_layout_generation b"
proof -
  obtain ms n where ns: "ns = ms @ [n]" using assms(1) by (cases ns rule: rev_cases) auto
  show ?thesis
    using gen_rows.resizes_noticed [OF assms, of f0 d0 d ds b]
    by (simp add: ns Let_def gen_rows.size_after gen_rows.invar_after gen_rows.batch_after)
qed

theorem set_buffer_size_noticed_witness:
  "br_layout_generation (fold (set_buffer_size (gen_resize_storage (0::nat) (0::nat)
      (with_column \<lparr>bd_name = ''id'', bd_category = cat_atomic, bd_base_type = ''int32_t'',
        bd_type = st_integer, bd_column_size = 4, bd_decimal_digits = 0\<rparr> []))) [5, 0]
      \<lparr>br_storage = [], br_layout_generation = 0, br_occupied = 0\<rparr>) \<noteq> 0"
  using set_buffer_size_noticed [of "[5, 0]" "0::nat" "0::nat"
      "\<lparr>bd_name = ''id'', bd_category = cat_atomic, bd_base_type = ''int32_t'',
        bd_type = st_integer, bd_column_size = 4, bd_decimal_digits = 0\<rparr>" "[]"
      "\<lparr>br_storage = [], br_layout_generation = 0, br_occupied = 0\<rparr>"]
  by (simp add: Let_def)

end
