(* ===== verification/Async_Db.thy ===== *)
theory Async_Db
  imports Db_Error Buffers
begin

text \<open>
  The asynchronous facade (\<open>src/rtl/async_db.hpp\<close>, \<open>async_db.cpp\<close>): one caller thread hands
  jobs to one worker thread through a queue that is one deep. The two threads share the fields
  that the mutex guards; the model is a step relation whose steps are the critical sections of
  the source, so that every interleaving is a path. The backend (executing and fetching a
  statement, committing, rolling back) is a parameter: a record of functions on the state of
  the connection. The blocking calls \<open>drain\<close>, \<open>commit\<close>, \<open>rollback\<close>, \<open>execute_sync\<close> are
  functions as well, and are shown to be paths of the relation.
\<close>

subsection \<open>Parameter snapshots\<close>

text \<open>\<open>snapshot_params\<close> copies value and indicator arrays; \<open>restore_params\<close> copies back the
  whole value array, whatever the size of the destination, but at most \<open>rows\<close> indicators.\<close>

definition snapshot_params :: "('f, 'd) column list \<Rightarrow> ('f, 'd) column list" where
  "snapshot_params cols =
     (let rows = gen_buffer_size cols in
      map (\<lambda>c. \<lparr>co_values = take rows (co_values c), co_ind = take rows (co_ind c)\<rparr>) cols)"

definition restore_column :: "nat \<Rightarrow> ('f, 'd) column \<Rightarrow> ('f, 'd) column \<Rightarrow> ('f, 'd) column" where
  "restore_column rows col dst =
     \<lparr>co_values = co_values col @ drop (length (co_values col)) (co_values dst),
      co_ind = take (min rows (length (co_ind col))) (co_ind col)
               @ drop (min rows (length (co_ind col))) (co_ind dst)\<rparr>"

definition restore_params :: "('f, 'd) column list \<Rightarrow> ('f, 'd) column list \<Rightarrow> ('f, 'd) column list cpp" where
  "restore_params snap cols =
     (let rows = gen_buffer_size cols in
      if list_all (\<lambda>(s, c). length (co_values s) \<le> length (co_values c)) (zip snap cols)
      then Ret (map (\<lambda>(s, c). restore_column rows s c) (zip snap cols) @ drop (length snap) cols)
      else Undefined_behaviour)"

subsection \<open>Jobs and the backend\<close>

text \<open>A statement job carries the statement and the snapshot of its parameters; \<open>rows\<close> tells
  whether the statement returns rows, so that its first page is fetched as well. The last
  three run for a caller that waits.\<close>

datatype 's job =
    Job_exec nat 's bool
  | Job_sync nat 's bool
  | Job_fetch nat
  | Job_commit
  | Job_rollback

primrec job_task_id :: "'s job \<Rightarrow> nat option" where
  "job_task_id (Job_exec tid s r) = Some tid"
| "job_task_id (Job_sync tid s r) = Some tid"
| "job_task_id (Job_fetch tid) = Some tid"
| "job_task_id Job_commit = None"
| "job_task_id Job_rollback = None"

definition even_after_error :: "'s job \<Rightarrow> bool" where
  "even_after_error j \<longleftrightarrow> j = Job_commit \<or> j = Job_rollback"

record ('c, 's) backend =
  be_execute :: "nat \<Rightarrow> 's \<Rightarrow> 'c \<Rightarrow> db_error option \<times> 'c"
  be_fetch :: "nat \<Rightarrow> 'c \<Rightarrow> (db_error option \<times> bool) \<times> 'c"
  be_commit :: "'c \<Rightarrow> db_sts \<times> 'c"
  be_rollback :: "'c \<Rightarrow> db_sts \<times> 'c"

subsection \<open>The shared state\<close>

datatype 's caller = Caller_idle | Caller_posting "'s job"

text \<open>\<open>as_busy\<close> is the job in the worker's hand, with a mark once it has run. The answers of the
  waiting jobs (the captured locals \<open>sts\<close> and \<open>fetched\<close>) are \<open>as_sts\<close> and \<open>as_fetched\<close>. The
  last two fields are history: the jobs that were queued, and those that were run.\<close>

record ('c, 's) async_db =
  as_conn :: 'c
  as_pending :: "'s job option"
  as_busy :: "('s job \<times> bool) option"
  as_stop :: bool
  as_error :: "db_error option"
  as_running_task_id :: "nat option"
  as_worker_gone :: bool
  as_caller :: "'s caller"
  as_sts :: db_sts
  as_fetched :: bool
  as_queued :: "'s job list"
  as_ran :: "'s job list"

definition note_error :: "db_error option \<Rightarrow> ('c, 's) async_db \<Rightarrow> ('c, 's) async_db" where
  "note_error e s =
     (case e of None \<Rightarrow> s | Some x \<Rightarrow> if as_error s = None then s\<lparr>as_error := Some x\<rparr> else s)"

text \<open>The bodies of the jobs; \<open>waits\<close> tells whether a caller waits for the answer of the fetch.\<close>

definition fetch_body :: "('c, 's) backend \<Rightarrow> bool \<Rightarrow> nat \<Rightarrow> ('c, 's) async_db \<Rightarrow> ('c, 's) async_db" where
  "fetch_body be waits tid s =
     (let ((ferr, got), c) = be_fetch be tid (as_conn s)
      in note_error ferr (s\<lparr>as_conn := c, as_fetched := (if waits then got else as_fetched s)\<rparr>))"

definition exec_body :: "('c, 's) backend \<Rightarrow> bool \<Rightarrow> nat \<Rightarrow> 's \<Rightarrow> bool \<Rightarrow> ('c, 's) async_db \<Rightarrow> ('c, 's) async_db" where
  "exec_body be waits tid snap rows s =
     (let (e, c) = be_execute be tid snap (as_conn s); s' = s\<lparr>as_conn := c\<rparr>
      in case e of
           Some x \<Rightarrow> note_error (Some x) s'
         | None \<Rightarrow> if rows then fetch_body be waits tid s' else s')"

definition run_job :: "('c, 's) backend \<Rightarrow> 's job \<Rightarrow> ('c, 's) async_db \<Rightarrow> ('c, 's) async_db" where
  "run_job be j s =
     (case j of
        Job_exec tid snap rows \<Rightarrow> exec_body be False tid snap rows s
      | Job_sync tid snap rows \<Rightarrow> if as_error s \<noteq> None then s else exec_body be True tid snap rows s
      | Job_fetch tid \<Rightarrow> if as_error s \<noteq> None then s else fetch_body be True tid s
      | Job_commit \<Rightarrow> (let (r, c) = be_commit be (as_conn s) in s\<lparr>as_conn := c, as_sts := r\<rparr>)
      | Job_rollback \<Rightarrow> (let (r, c) = be_rollback be (as_conn s) in s\<lparr>as_conn := c, as_sts := r\<rparr>))"

definition drained :: "('c, 's) async_db \<Rightarrow> bool" where
  "drained s \<longleftrightarrow> as_pending s = None \<and> as_busy s = None"

subsection \<open>The worker\<close>

text \<open>The three critical sections of \<open>worker_loop\<close>: take the pending job, (run it,) put it down;
  and the return once stopped with an empty queue.\<close>

inductive worker_step :: "('c, 's) backend \<Rightarrow> ('c, 's) async_db \<Rightarrow> ('c, 's) async_db \<Rightarrow> bool"
  for be :: "('c, 's) backend" where
  W_take: "\<not> as_worker_gone s \<Longrightarrow> as_pending s = Some j \<Longrightarrow> as_busy s = None \<Longrightarrow>
    worker_step be s (s\<lparr>as_pending := None, as_busy := Some (j, False), as_running_task_id := job_task_id j\<rparr>)"
| W_run: "as_busy s = Some (j, False) \<Longrightarrow>
    worker_step be s ((run_job be j s)\<lparr>as_busy := Some (j, True), as_ran := as_ran s @ [j]\<rparr>)"
| W_done: "as_busy s = Some (j, True) \<Longrightarrow>
    worker_step be s (s\<lparr>as_busy := None, as_running_task_id := None\<rparr>)"
| W_exit: "\<not> as_worker_gone s \<Longrightarrow> as_pending s = None \<Longrightarrow> as_busy s = None \<Longrightarrow> as_stop s \<Longrightarrow>
    worker_step be s (s\<lparr>as_worker_gone := True\<rparr>)"

subsection \<open>The caller\<close>

text \<open>The critical sections of \<open>post_to_worker\<close>: the job is dropped when an error is pending (except
  commit and rollback); otherwise the caller waits for room and queues it. The error is looked at
  before the wait. Then the resets of the error by \<open>commit\<close> and \<open>rollback\<close>, and the stop of the
  destructor, each of which follows a drain.\<close>

inductive caller_step :: "('c, 's) async_db \<Rightarrow> ('c, 's) async_db \<Rightarrow> bool" where
  C_drop: "as_caller s = Caller_idle \<Longrightarrow> as_error s \<noteq> None \<Longrightarrow> \<not> even_after_error (j :: 's job) \<Longrightarrow>
    caller_step (s :: ('c, 's) async_db) s"
| C_post: "as_caller s = Caller_idle \<Longrightarrow> as_error s = None \<or> even_after_error j \<Longrightarrow> \<not> as_stop s \<Longrightarrow>
    caller_step s (s\<lparr>as_caller := Caller_posting j\<rparr>)"
| C_put: "as_caller s = Caller_posting j \<Longrightarrow> as_pending s = None \<Longrightarrow>
    caller_step s (s\<lparr>as_caller := Caller_idle, as_pending := Some j, as_queued := as_queued s @ [j]\<rparr>)"
| C_clear: "as_caller s = Caller_idle \<Longrightarrow> drained s \<Longrightarrow> caller_step s (s\<lparr>as_error := None\<rparr>)"
| C_stop: "as_caller s = Caller_idle \<Longrightarrow> drained s \<Longrightarrow> caller_step s (s\<lparr>as_stop := True\<rparr>)"

definition step :: "('c, 's) backend \<Rightarrow> ('c, 's) async_db \<Rightarrow> ('c, 's) async_db \<Rightarrow> bool" where
  "step be s t \<longleftrightarrow> worker_step be s t \<or> caller_step s t"

text \<open>\<open>create\<close> on a connection, when the thread could be started.\<close>

definition create_async :: "'c \<Rightarrow> ('c, 's) async_db" where
  "create_async c = \<lparr>as_conn = c, as_pending = None, as_busy = None, as_stop = False, as_error = None,
     as_running_task_id = None, as_worker_gone = False, as_caller = Caller_idle, as_sts = sts_success,
     as_fetched = False, as_queued = [], as_ran = []\<rparr>"

inductive reachable :: "('c, 's) backend \<Rightarrow> 'c \<Rightarrow> ('c, 's) async_db \<Rightarrow> bool" for be c0 where
  R_init: "reachable be c0 (create_async c0)"
| R_step: "reachable be c0 s \<Longrightarrow> step be s t \<Longrightarrow> reachable be c0 t"

inductive_cases worker_stepE: "worker_step be s t"
inductive_cases caller_stepE: "caller_step s t"

subsection \<open>The calls\<close>

definition create_result :: "string option \<Rightarrow> 'c \<Rightarrow> db_error + ('c, 's) async_db" where
  "create_result thread_error c =
     (case thread_error of
        Some what \<Rightarrow> Inl \<lparr>de_sts = sts_unknown,
          de_message = ''could not start async_db'' @ [CHR 0x27] @ ''s worker thread: '' @ what,
          de_sql_state = [], de_driver_status = 0, de_native_error = 0\<rparr>
      | None \<Rightarrow> Inr (create_async c))"

text \<open>\<open>drain\<close>: the caller waits until the worker has run what was handed over.\<close>

definition finish_busy :: "('c, 's) backend \<Rightarrow> ('c, 's) async_db \<Rightarrow> ('c, 's) async_db" where
  "finish_busy be s =
     (case as_busy s of
        None \<Rightarrow> s
      | Some (j, has_run) \<Rightarrow>
          (if has_run then s else (run_job be j s)\<lparr>as_ran := as_ran s @ [j]\<rparr>)
            \<lparr>as_busy := None, as_running_task_id := None\<rparr>)"

definition drain :: "('c, 's) backend \<Rightarrow> ('c, 's) async_db \<Rightarrow> ('c, 's) async_db" where
  "drain be s =
     (let s1 = finish_busy be s in
      case as_pending s1 of
        None \<Rightarrow> s1
      | Some j \<Rightarrow> finish_busy be (s1\<lparr>as_pending := None, as_busy := Some (j, False), as_running_task_id := job_task_id j\<rparr>))"

text \<open>\<open>run_on_worker\<close> once the queue has room: post, then drain. The post is dropped when an
  error is pending.\<close>

definition run_on_worker :: "('c, 's) backend \<Rightarrow> 's job \<Rightarrow> ('c, 's) async_db \<Rightarrow> ('c, 's) async_db" where
  "run_on_worker be j s =
     (if as_error s \<noteq> None \<and> \<not> even_after_error j then drain be s
      else let s1 = drain be s in drain be (s1\<lparr>as_pending := Some j, as_queued := as_queued s1 @ [j]\<rparr>))"

datatype exec_status = still_pending | finished

definition is_finished :: "('c, 's) async_db \<Rightarrow> db_error + exec_status" where
  "is_finished s =
     (if as_pending s \<noteq> None \<or> as_busy s \<noteq> None then Inr still_pending
      else case as_error s of Some e \<Rightarrow> Inl e | None \<Rightarrow> Inr finished)"

definition invalid_handle_error :: db_error where
  "invalid_handle_error = \<lparr>de_sts = sts_invalid_handle,
     de_message = ''the handle does not name a prepared statement'', de_sql_state = [],
     de_driver_status = 0, de_native_error = 0\<rparr>"

text \<open>A handle is the index of its statement; \<open>None\<close> (the source's \<open>npos\<close>) is the invalid one.\<close>

type_synonym query_handle = "nat option"

definition execute_sync ::
  "('c, 's) backend \<Rightarrow> query_handle \<Rightarrow> 's \<Rightarrow> bool \<Rightarrow> ('c, 's) async_db \<Rightarrow> (db_error + bool) \<times> ('c, 's) async_db" where
  "execute_sync be h snap rows s =
     (case h of
        None \<Rightarrow> (Inl invalid_handle_error, s)
      | Some tid \<Rightarrow>
          (let s' = run_on_worker be (Job_sync tid snap rows) (s\<lparr>as_fetched := False\<rparr>)
           in (case as_error s' of Some e \<Rightarrow> Inl e | None \<Rightarrow> Inr (as_fetched s'), s')))"

definition fetch_more ::
  "('c, 's) backend \<Rightarrow> query_handle \<Rightarrow> ('c, 's) async_db \<Rightarrow> (db_error + bool) \<times> ('c, 's) async_db" where
  "fetch_more be h s =
     (case h of
        None \<Rightarrow> (Inl invalid_handle_error, s)
      | Some tid \<Rightarrow>
          (let s' = run_on_worker be (Job_fetch tid) (s\<lparr>as_fetched := False\<rparr>)
           in (case as_error s' of Some e \<Rightarrow> Inl e | None \<Rightarrow> Inr (as_fetched s'), s')))"

definition failed_error :: "db_sts \<Rightarrow> string \<Rightarrow> db_error" where
  "failed_error sts msg = \<lparr>de_sts = sts, de_message = msg, de_sql_state = [], de_driver_status = 0, de_native_error = 0\<rparr>"

definition commit ::
  "('c, 's) backend \<Rightarrow> ('c, 's) async_db \<Rightarrow> (db_error + unit) \<times> ('c, 's) async_db" where
  "commit be s =
     (let s1 = drain be s in
      case as_error s1 of
        Some e \<Rightarrow> (Inl e, (run_on_worker be Job_rollback s1)\<lparr>as_error := None\<rparr>)
      | None \<Rightarrow>
          let s2 = run_on_worker be Job_commit s1
          in (if is_success (as_sts s2) then Inr () else Inl (failed_error (as_sts s2) ''commit failed''), s2))"

definition rollback ::
  "('c, 's) backend \<Rightarrow> ('c, 's) async_db \<Rightarrow> (db_error + unit) \<times> ('c, 's) async_db" where
  "rollback be s =
     (let s1 = drain be s; s2 = (run_on_worker be Job_rollback s1)\<lparr>as_error := None\<rparr>
      in (if is_success (as_sts s2) then Inr () else Inl (failed_error (as_sts s2) ''rollback failed''), s2))"

text \<open>\<open>cancel\<close> reaches the statement of the job in hand; \<open>task_cancel\<close> is \<open>query::cancel\<close>.\<close>

definition cancel :: "(nat \<Rightarrow> bool) \<Rightarrow> ('c, 's) async_db \<Rightarrow> bool" where
  "cancel task_cancel s = (case as_running_task_id s of None \<Rightarrow> False | Some tid \<Rightarrow> task_cancel tid)"

text \<open>The destructor: drain, stop, join.\<close>

definition destroy_async :: "('c, 's) backend \<Rightarrow> ('c, 's) async_db \<Rightarrow> ('c, 's) async_db" where
  "destroy_async be s = (drain be s)\<lparr>as_stop := True, as_worker_gone := True\<rparr>"

text \<open>\<open>post_to_worker\<close> as one call: \<open>None\<close> means that the caller blocks, the queue being full.
  \<open>submit\<close> and \<open>exec\<close> are built on it; \<open>exec\<close> then reads the error (here: before the worker has
  moved on). \<open>submit\<close> is only for statements without rows.\<close>

definition post_to_worker :: "'s job \<Rightarrow> ('c, 's) async_db \<Rightarrow> ('c, 's) async_db option" where
  "post_to_worker j s =
     (if as_error s \<noteq> None \<and> \<not> even_after_error j then Some s
      else case as_pending s of
             Some _ \<Rightarrow> None
           | None \<Rightarrow> Some (s\<lparr>as_pending := Some j, as_queued := as_queued s @ [j]\<rparr>))"

definition submit :: "query_handle \<Rightarrow> 's \<Rightarrow> ('c, 's) async_db \<Rightarrow> ('c, 's) async_db option" where
  "submit h snap s =
     (case h of None \<Rightarrow> Some s | Some tid \<Rightarrow> post_to_worker (Job_exec tid snap False) s)"

definition exec ::
  "query_handle \<Rightarrow> 's \<Rightarrow> bool \<Rightarrow> ('c, 's) async_db \<Rightarrow> ((db_error + exec_status) \<times> ('c, 's) async_db) option" where
  "exec h snap rows s =
     (case h of
        None \<Rightarrow> Some (Inl invalid_handle_error, s)
      | Some tid \<Rightarrow>
          (case post_to_worker (Job_exec tid snap rows) s of
             None \<Rightarrow> None
           | Some s' \<Rightarrow> Some (case as_error s' of Some e \<Rightarrow> Inl e | None \<Rightarrow> Inr finished, s')))"

text \<open>\<open>prepare\<close>. \<open>tasks\<close> are the registered statements, \<open>None\<close> a null entry. On the worker the
  connection is cast to \<open>rtl::database\<close>, the query is built, its buffers are sized (the parameter
  buffer only for a batch) and it is prepared: \<open>be_prepare\<close> is given the two sizes that are set.
  When an error is pending the job is dropped, nothing is reported, and the null task is
  dereferenced (for a statement with results) or registered.\<close>

definition not_a_database :: db_error where
  "not_a_database = \<lparr>de_sts = sts_invalid_handle,
     de_message = ''the database object does not implement rtl::database'', de_sql_state = [],
     de_driver_status = 0, de_native_error = 0\<rparr>"

definition async_prepare ::
  "('c, 's) backend \<Rightarrow> (nat option \<Rightarrow> nat option \<Rightarrow> 'c \<Rightarrow> (db_error + 't) \<times> 'c) \<Rightarrow> bool \<Rightarrow> bool \<Rightarrow> bool
     \<Rightarrow> nat \<Rightarrow> nat \<Rightarrow> 't option list \<Rightarrow> ('c, 's) async_db
     \<Rightarrow> ((db_error + query_handle) \<times> 't option list \<times> ('c, 's) async_db) cpp" where
  "async_prepare be be_prepare is_database has_params has_results param_rows result_rows tasks s =
     (let s1 = drain be s in
      if as_error s \<noteq> None
      then (if has_results then Undefined_behaviour else Ret (Inr (Some (length tasks)), tasks @ [None], s1))
      else if \<not> is_database then Ret (Inl not_a_database, tasks, s1)
      else case be_prepare (if has_params \<and> 1 < param_rows then Some param_rows else None)
                           (if has_results then Some result_rows else None) (as_conn s1) of
             (Inl e, c) \<Rightarrow> Ret (Inl e, tasks, s1\<lparr>as_conn := c\<rparr>)
           | (Inr t, c) \<Rightarrow> Ret (Inr (Some (length tasks)), tasks @ [Some t], s1\<lparr>as_conn := c\<rparr>))"

subsection \<open>What a job leaves alone\<close>

lemma note_error_frame [simp]:
  "as_pending (note_error e s) = as_pending s" "as_busy (note_error e s) = as_busy s"
  "as_stop (note_error e s) = as_stop s" "as_running_task_id (note_error e s) = as_running_task_id s"
  "as_worker_gone (note_error e s) = as_worker_gone s" "as_caller (note_error e s) = as_caller s"
  "as_queued (note_error e s) = as_queued s" "as_ran (note_error e s) = as_ran s"
  "as_conn (note_error e s) = as_conn s" "as_sts (note_error e s) = as_sts s"
  by (simp_all add: note_error_def split: option.splits)

lemma note_error_sticky: "as_error s = Some e \<Longrightarrow> as_error (note_error x s) = Some e"
  by (simp add: note_error_def split: option.splits)

lemma run_job_frame [simp]:
  "as_pending (run_job be j s) = as_pending s" "as_busy (run_job be j s) = as_busy s"
  "as_stop (run_job be j s) = as_stop s" "as_running_task_id (run_job be j s) = as_running_task_id s"
  "as_worker_gone (run_job be j s) = as_worker_gone s" "as_caller (run_job be j s) = as_caller s"
  "as_queued (run_job be j s) = as_queued s" "as_ran (run_job be j s) = as_ran s"
  by (simp_all add: run_job_def exec_body_def fetch_body_def split_beta Let_def split: job.splits option.splits)

lemma run_job_sticky: "as_error s = Some e \<Longrightarrow> as_error (run_job be j s) = Some e"
  by (auto simp: run_job_def exec_body_def fetch_body_def split_beta Let_def note_error_sticky
      split: job.splits option.splits)

text \<open>A job's body does not look at the queue: it commutes with every change of the bookkeeping.\<close>

lemma run_job_bookkeeping:
  "run_job be j (s\<lparr>as_busy := b, as_ran := r\<rparr>) = (run_job be j s)\<lparr>as_busy := b, as_ran := r\<rparr>"
  by (simp add: run_job_def exec_body_def fetch_body_def note_error_def split_beta Let_def
      split: job.splits option.splits)

subsection \<open>Invariants\<close>

definition in_hand :: "('c, 's) async_db \<Rightarrow> 's job list" where
  "in_hand s = (case as_busy s of Some (j, False) \<Rightarrow> [j] | _ \<Rightarrow> [])"

definition in_queue :: "('c, 's) async_db \<Rightarrow> 's job list" where
  "in_queue s = (case as_pending s of Some j \<Rightarrow> [j] | None \<Rightarrow> [])"

definition async_inv :: "('c, 's) async_db \<Rightarrow> bool" where
  "async_inv s \<longleftrightarrow>
     as_running_task_id s = (case as_busy s of None \<Rightarrow> None | Some (j, _) \<Rightarrow> job_task_id j)
   \<and> as_queued s = as_ran s @ in_hand s @ in_queue s
   \<and> (as_stop s \<longrightarrow> drained s \<and> as_caller s = Caller_idle)
   \<and> (as_worker_gone s \<longrightarrow> as_stop s)"

lemma worker_step_inv: "worker_step be s t \<Longrightarrow> async_inv s \<Longrightarrow> async_inv t"
  by (erule worker_stepE) (auto simp: async_inv_def in_hand_def in_queue_def drained_def)

lemma caller_step_inv: "caller_step s t \<Longrightarrow> async_inv s \<Longrightarrow> async_inv t"
  by (erule caller_stepE) (auto simp: async_inv_def in_hand_def in_queue_def drained_def)

lemma reachable_inv: "reachable be c0 s \<Longrightarrow> async_inv s"
proof (induction rule: reachable.induct)
  case R_init
  then show ?case by (simp add: async_inv_def create_async_def in_hand_def in_queue_def)
next
  case (R_step s t)
  then show ?case using worker_step_inv caller_step_inv by (auto simp: step_def)
qed

text \<open>C4: in every interleaving the jobs run in the order they were handed over, each exactly once:
  what was queued is what has run, then the job in the worker's hand, then the one pending, so at
  most two jobs are ever unfinished and a drained queue means everything handed over has run.\<close>

theorem jobs_run_in_order:
  assumes "reachable be c0 s"
  shows "as_queued s = as_ran s @ in_hand s @ in_queue s
    \<and> length (as_queued s) \<le> length (as_ran s) + 2
    \<and> (drained s \<longrightarrow> as_queued s = as_ran s)"
proof -
  have q: "as_queued s = as_ran s @ in_hand s @ in_queue s"
    using reachable_inv [OF assms] by (simp add: async_inv_def)
  have "length (in_hand s) \<le> 1" "length (in_queue s) \<le> 1"
    by (auto simp: in_hand_def in_queue_def split: option.splits bool.splits)
  with q show ?thesis by (auto simp: drained_def in_hand_def in_queue_def)
qed

text \<open>\<open>cancel\<close> never reaches a statement that is not running: whenever the worker has no statement
  in hand the recorded task is empty, and otherwise it is the task of the job in hand.\<close>

theorem cancel_reaches_running_only:
  assumes "reachable be c0 s"
  shows "cancel task_cancel s = (case as_busy s of
      Some (j, _) \<Rightarrow> (case job_task_id j of Some tid \<Rightarrow> task_cancel tid | None \<Rightarrow> False)
    | None \<Rightarrow> False)"
  using reachable_inv [OF assms]
  by (auto simp: async_inv_def cancel_def split: option.splits prod.splits)

text \<open>C29: the first error is the one that is kept: no step replaces a pending error, and only a caller
  that has drained the queue (in \<open>commit\<close> or \<open>rollback\<close>) clears it.\<close>

theorem first_error_sticks:
  assumes "step be s t" "as_error s = Some e"
  shows "as_error t = Some e \<or> (drained s \<and> as_caller s = Caller_idle \<and> t = s\<lparr>as_error := None\<rparr>)"
proof -
  from assms(1) consider "worker_step be s t" | "caller_step s t" by (auto simp: step_def)
  then show ?thesis
  proof cases
    case 1
    then show ?thesis
      by (rule worker_stepE) (use assms(2) in \<open>auto simp: run_job_sticky\<close>)
  next
    case 2
    then show ?thesis by (rule caller_stepE) (use assms(2) in auto)
  qed
qed

text \<open>A submit while an error is pending changes nothing.\<close>

lemma submit_after_error_dropped:
  "as_error s = Some e \<Longrightarrow> \<not> even_after_error j \<Longrightarrow> as_caller s = Caller_idle \<Longrightarrow> caller_step s t
     \<Longrightarrow> as_queued t = as_queued s"
  by (erule caller_stepE) auto

subsection \<open>The worker makes progress\<close>

definition work_left :: "('c, 's) async_db \<Rightarrow> nat" where
  "work_left s = (case as_pending s of Some _ \<Rightarrow> 3 | None \<Rightarrow> 0)
     + (case as_busy s of None \<Rightarrow> 0 | Some (_, False) \<Rightarrow> 2 | Some (_, True) \<Rightarrow> 1)"

lemma work_left_0: "work_left s = 0 \<longleftrightarrow> drained s"
  by (auto simp: work_left_def drained_def split: option.splits bool.splits)

text \<open>the facade never hangs: in every reachable state with unfinished work the worker has a step,
  and each of its steps uses up one unit of at most five, so a caller that waits for room or
  drains the queue waits for at most five steps of the worker.\<close>

theorem worker_progress:
  assumes "reachable be c0 s" "\<not> drained s"
  shows "(\<exists>t. worker_step be s t) \<and> (\<forall>t. worker_step be s t \<longrightarrow> work_left s = Suc (work_left t)) \<and> work_left s \<le> 5"
proof -
  have inv: "async_inv s" using assms(1) by (rule reachable_inv)
  then have alive: "\<not> as_worker_gone s" using assms(2) by (auto simp: async_inv_def)
  have "\<exists>t. worker_step be s t"
  proof (cases "as_busy s")
    case None
    then obtain j where "as_pending s = Some j" using assms(2) by (auto simp: drained_def)
    with None alive show ?thesis by (blast intro: W_take)
  next
    case (Some b)
    then show ?thesis by (cases b; cases "snd b") (auto intro: W_run W_done)
  qed
  moreover have "work_left s = Suc (work_left t)" if "worker_step be s t" for t
    using that by (rule worker_stepE) (use assms(2) in \<open>auto simp: work_left_def drained_def split: option.splits\<close>)
  moreover have "work_left s \<le> 5" by (auto simp: work_left_def split: option.splits bool.splits)
  ultimately show ?thesis by blast
qed

subsection \<open>The blocking calls are paths of the relation\<close>

lemma finish_busy_steps: "(worker_step be)\<^sup>*\<^sup>* s (finish_busy be s)"
proof (cases "as_busy s")
  case (Some b)
  obtain j r where b: "b = (j, r)" by (cases b)
  show ?thesis
  proof (cases r)
    case True
    then show ?thesis using Some b W_done [of s j be] by (auto simp: finish_busy_def)
  next
    case False
    let ?t = "(run_job be j s)\<lparr>as_busy := Some (j, True), as_ran := as_ran s @ [j]\<rparr>"
    have "worker_step be s ?t" using Some b False by (intro W_run) simp
    moreover have "worker_step be ?t (?t\<lparr>as_busy := None, as_running_task_id := None\<rparr>)" by (intro W_done) simp
    moreover have "finish_busy be s = ?t\<lparr>as_busy := None, as_running_task_id := None\<rparr>"
      using Some b False by (simp add: finish_busy_def)
    ultimately show ?thesis by (metis converse_rtranclp_into_rtranclp r_into_rtranclp)
  qed
qed (simp add: finish_busy_def)

lemma finish_busy_frame [simp]:
  "as_busy (finish_busy be s) = None" "as_pending (finish_busy be s) = as_pending s"
  "as_stop (finish_busy be s) = as_stop s" "as_worker_gone (finish_busy be s) = as_worker_gone s"
  "as_caller (finish_busy be s) = as_caller s" "as_queued (finish_busy be s) = as_queued s"
  by (auto simp: finish_busy_def split: option.splits)

lemma drain_frame [simp]:
  "as_busy (drain be s) = None" "as_pending (drain be s) = None" "drained (drain be s)"
  "as_stop (drain be s) = as_stop s" "as_worker_gone (drain be s) = as_worker_gone s"
  "as_caller (drain be s) = as_caller s" "as_queued (drain be s) = as_queued s"
  by (auto simp: drain_def drained_def Let_def split: option.splits)

lemma drain_steps: "\<not> as_worker_gone s \<Longrightarrow> (worker_step be)\<^sup>*\<^sup>* s (drain be s)"
proof -
  assume alive: "\<not> as_worker_gone s"
  let ?s = "finish_busy be s"
  have s1: "(worker_step be)\<^sup>*\<^sup>* s ?s" by (rule finish_busy_steps)
  show ?thesis
  proof (cases "as_pending s")
    case None
    then show ?thesis using s1 by (simp add: drain_def Let_def)
  next
    case (Some j)
    let ?t = "?s\<lparr>as_pending := None, as_busy := Some (j, False), as_running_task_id := job_task_id j\<rparr>"
    have "worker_step be ?s ?t" using Some alive by (intro W_take) simp_all
    moreover have "(worker_step be)\<^sup>*\<^sup>* ?t (finish_busy be ?t)" by (rule finish_busy_steps)
    ultimately have "(worker_step be)\<^sup>*\<^sup>* s (finish_busy be ?t)" using s1
      by (meson converse_rtranclp_into_rtranclp rtranclp_trans)
    then show ?thesis using Some by (simp add: drain_def Let_def)
  qed
qed

lemma worker_steps_reachable: "(worker_step be)\<^sup>*\<^sup>* s t \<Longrightarrow> reachable be c0 s \<Longrightarrow> reachable be c0 t"
  by (induction rule: rtranclp_induct) (auto intro: R_step simp: step_def)

lemma drain_reachable:
  "reachable be c0 s \<Longrightarrow> \<not> as_stop s \<Longrightarrow> reachable be c0 (drain be s)"
  using drain_steps [of s be] worker_steps_reachable [of be s "drain be s" c0] reachable_inv [of be c0 s]
  by (auto simp: async_inv_def)

lemma run_on_worker_frame [simp]:
  "drained (run_on_worker be j s)" "as_stop (run_on_worker be j s) = as_stop s"
  "as_caller (run_on_worker be j s) = as_caller s"
  by (simp_all add: run_on_worker_def Let_def)

lemma run_on_worker_reachable:
  assumes "reachable be c0 s" "\<not> as_stop s" "as_caller s = Caller_idle"
  shows "reachable be c0 (run_on_worker be j s)"
proof (cases "as_error s \<noteq> None \<and> \<not> even_after_error j")
  case True
  then show ?thesis using drain_reachable [OF assms(1,2)] by (simp add: run_on_worker_def)
next
  case False
  let ?p = "s\<lparr>as_caller := Caller_posting j\<rparr>"
  let ?q = "drain be ?p"
  let ?r = "?q\<lparr>as_caller := Caller_idle, as_pending := Some j, as_queued := as_queued ?q @ [j]\<rparr>"
  have p: "reachable be c0 ?p"
    using assms False by (intro R_step [OF assms(1)]) (auto simp: step_def intro: C_post)
  then have "reachable be c0 ?q" using assms(2) by (intro drain_reachable) simp_all
  moreover have "caller_step ?q ?r" by (rule C_put) simp_all
  ultimately have r: "reachable be c0 ?r" by (auto intro: R_step simp: step_def)
  have comm: "finish_busy be (t\<lparr>as_caller := c\<rparr>) = (finish_busy be t)\<lparr>as_caller := c\<rparr>" for t c
    by (simp add: finish_busy_def run_job_def exec_body_def fetch_body_def note_error_def split_beta Let_def
        split: job.splits option.splits)
  have "?q = (drain be s)\<lparr>as_caller := Caller_posting j\<rparr>"
  proof (cases "as_pending s")
    case None
    then show ?thesis by (simp add: drain_def Let_def comm)
  next
    case (Some x)
    let ?u = "(finish_busy be s)\<lparr>as_pending := None, as_busy := Some (x, False), as_running_task_id := job_task_id x\<rparr>"
    have u: "((finish_busy be s)\<lparr>as_caller := Caller_posting j\<rparr>)
        \<lparr>as_pending := None, as_busy := Some (x, False), as_running_task_id := job_task_id x\<rparr>
      = ?u\<lparr>as_caller := Caller_posting j\<rparr>" by (rule async_db.equality) simp_all
    have "?q = finish_busy be (((finish_busy be s)\<lparr>as_caller := Caller_posting j\<rparr>)
        \<lparr>as_pending := None, as_busy := Some (x, False), as_running_task_id := job_task_id x\<rparr>)"
      using Some by (simp add: drain_def Let_def comm [where t = s])
    also have "\<dots> = finish_busy be (?u\<lparr>as_caller := Caller_posting j\<rparr>)" by (rule arg_cong [OF u])
    also have "\<dots> = (finish_busy be ?u)\<lparr>as_caller := Caller_posting j\<rparr>" by (rule comm)
    finally show ?thesis using Some by (simp add: drain_def Let_def)
  qed
  then have "?r = (drain be s)\<lparr>as_pending := Some j, as_queued := as_queued s @ [j]\<rparr>"
    using assms(3) by simp
  moreover have "run_on_worker be j s = drain be ((drain be s)\<lparr>as_pending := Some j, as_queued := as_queued s @ [j]\<rparr>)"
    using False by (auto simp: run_on_worker_def Let_def)
  ultimately show ?thesis using drain_reachable [OF r] assms(2) by simp
qed

lemma clear_reachable:
  "reachable be c0 s \<Longrightarrow> drained s \<Longrightarrow> as_caller s = Caller_idle \<Longrightarrow> reachable be c0 (s\<lparr>as_error := None\<rparr>)"
  by (erule R_step) (auto simp: step_def intro: C_clear)

text \<open>C38: the blocking calls are honest: draining, committing and rolling back, from any state the two
  threads can reach, end in a state they can reach by the steps of the worker and of the caller,
  with nothing pending and nothing in hand.\<close>

theorem blocking_calls_are_paths:
  assumes "reachable be c0 s" "as_caller s = Caller_idle" "\<not> as_stop s"
  shows "reachable be c0 (drain be s) \<and> drained (drain be s)
    \<and> reachable be c0 (snd (commit be s)) \<and> drained (snd (commit be s))
    \<and> reachable be c0 (snd (rollback be s)) \<and> drained (snd (rollback be s))"
proof -
  have d: "reachable be c0 (drain be s)" using assms(1,3) by (rule drain_reachable)
  have r: "reachable be c0 (run_on_worker be j (drain be s))" for j
    using d assms by (intro run_on_worker_reachable) simp_all
  have cl: "reachable be c0 ((run_on_worker be j (drain be s))\<lparr>as_error := None\<rparr>)" for j
    using r assms(2) by (intro clear_reachable) simp_all
  have dr: "drained (t\<lparr>as_error := e\<rparr>) = drained t" for t :: "('a, 'b) async_db" and e
    by (simp add: drained_def)
  show ?thesis
    using d r cl by (auto simp: commit_def rollback_def Let_def dr split: option.splits)
qed

text \<open>The answers of a commit and of a rollback, job by job.\<close>

lemma run_drained:
  assumes "drained s" "as_error s = None \<or> even_after_error j"
  shows "run_on_worker be j s = (run_job be j (s\<lparr>as_queued := as_queued s @ [j], as_running_task_id := job_task_id j\<rparr>))
    \<lparr>as_pending := None, as_ran := as_ran s @ [j], as_busy := None, as_running_task_id := None\<rparr>"
proof -
  have "drain be s = s" using assms(1) by (simp add: drain_def finish_busy_def drained_def Let_def)
  moreover have "run_job be j (s\<lparr>as_queued := b, as_pending := a, as_busy := c, as_running_task_id := d\<rparr>)
      = (run_job be j (s\<lparr>as_queued := b, as_running_task_id := d\<rparr>))\<lparr>as_pending := a, as_busy := c\<rparr>" for a b c d
    by (simp add: run_job_def exec_body_def fetch_body_def note_error_def split_beta Let_def
        split: job.splits option.splits)
  ultimately show ?thesis
    using assms by (auto simp: run_on_worker_def drain_def finish_busy_def drained_def Let_def)
qed

text \<open>C8: \<open>commit\<close> never reports success over a failed statement. After draining the queue, a pending
  error means that the transaction is rolled back, never committed, and that first error is the
  answer; otherwise the transaction is committed and the answer is success exactly when the
  backend's commit is. Either way the error is cleared and the object is usable again.\<close>

theorem commit_reports_first_error:
  "let s1 = drain be s; ans = fst (commit be s); s' = snd (commit be s) in
     drained s' \<and> as_error s' = None
   \<and> (case as_error s1 of
        Some e \<Rightarrow> ans = Inl e \<and> as_conn s' = snd (be_rollback be (as_conn s1))
                  \<and> as_ran s' = as_ran s1 @ [Job_rollback]
      | None \<Rightarrow> as_conn s' = snd (be_commit be (as_conn s1)) \<and> as_ran s' = as_ran s1 @ [Job_commit]
                  \<and> (ans = Inr () \<longleftrightarrow> is_success (fst (be_commit be (as_conn s1)))))"
proof (cases "as_error (drain be s)")
  case None
  then show ?thesis
    by (simp add: commit_def Let_def run_drained drained_def [of "snd _"] run_job_def split_beta)
       (simp add: drained_def)
next
  case (Some e)
  have "run_on_worker be Job_rollback (drain be s) = (run_job be Job_rollback ((drain be s)
      \<lparr>as_queued := as_queued (drain be s) @ [Job_rollback], as_running_task_id := None\<rparr>))
    \<lparr>as_pending := None, as_ran := as_ran (drain be s) @ [Job_rollback], as_busy := None, as_running_task_id := None\<rparr>"
    by (subst run_drained) (simp_all add: even_after_error_def)
  with Some show ?thesis
    by (simp add: commit_def Let_def run_job_def split_beta drained_def)
qed

text \<open>The calls that only post are caller steps; \<open>exec\<close> never answers \<open>still_pending\<close>, and answers the
  pending error without queueing anything.\<close>

lemma post_to_worker_steps:
  assumes "post_to_worker j s = Some t" "as_caller s = Caller_idle" "\<not> as_stop s"
  shows "caller_step\<^sup>*\<^sup>* s t"
proof (cases "as_error s \<noteq> None \<and> \<not> even_after_error j")
  case False
  let ?m = "s\<lparr>as_caller := Caller_posting j\<rparr>"
  have "caller_step s ?m" using False assms by (intro C_post) auto
  moreover have "as_pending s = None" "t = s\<lparr>as_pending := Some j, as_queued := as_queued s @ [j]\<rparr>"
    using False assms(1) by (auto simp: post_to_worker_def split: option.splits)
  moreover from this have "caller_step ?m (?m\<lparr>as_caller := Caller_idle, as_pending := Some j, as_queued := as_queued ?m @ [j]\<rparr>)"
    by (intro C_put) auto
  moreover have "?m\<lparr>as_caller := Caller_idle, as_pending := Some j, as_queued := as_queued ?m @ [j]\<rparr>
      = s\<lparr>as_pending := Some j, as_queued := as_queued s @ [j]\<rparr>"
    using assms(2) by (intro async_db.equality) simp_all
  ultimately show ?thesis by (metis converse_rtranclp_into_rtranclp r_into_rtranclp)
qed (use assms in \<open>simp add: post_to_worker_def\<close>)

lemma exec_answer:
  "exec (Some tid) snap rows s = Some (ans, t) \<Longrightarrow>
     (case as_error s of
        Some e \<Rightarrow> ans = Inl e \<and> t = s
      | None \<Rightarrow> ans = Inr finished \<and> as_pending s = None \<and> as_pending t = Some (Job_exec tid snap rows))"
  by (auto simp: exec_def post_to_worker_def even_after_error_def split: option.splits if_splits)

subsection \<open>A concrete run\<close>

text \<open>A backend whose connection is the list of the statements it has run; statement 0 fails.\<close>

definition err0 :: db_error where
  "err0 = \<lparr>de_sts = sts_duplicate_key, de_message = ''dup'', de_sql_state = ''23505'', de_driver_status = 7,
     de_native_error = 0\<rparr>"

definition be0 :: "(nat list, unit) backend" where
  "be0 = \<lparr>be_execute = \<lambda>tid snap c. (if tid = 0 then Some err0 else None, c @ [tid]),
     be_fetch = \<lambda>tid c. ((None, False), c), be_commit = \<lambda>c. (sts_success, c @ [100]),
     be_rollback = \<lambda>c. (sts_success, c @ [200])\<rparr>"

abbreviation j0 :: "unit job" where "j0 \<equiv> Job_exec 0 () False"
abbreviation j1 :: "unit job" where "j1 \<equiv> Job_exec 1 () False"

text \<open>The failing statement in hand, the next one already pending.\<close>

definition both_in_flight :: "(nat list, unit) async_db" where
  "both_in_flight = (create_async [])\<lparr>as_pending := Some j1, as_busy := Some (j0, False),
     as_running_task_id := Some 0, as_queued := [j0, j1]\<rparr>"

lemma both_in_flight_reachable: "reachable be0 [] both_in_flight"
proof -
  let ?s0 = "create_async [] :: (nat list, unit) async_db"
  let ?s1 = "?s0\<lparr>as_caller := Caller_posting j0\<rparr>"
  let ?s2 = "?s1\<lparr>as_caller := Caller_idle, as_pending := Some j0, as_queued := as_queued ?s1 @ [j0]\<rparr>"
  let ?s3 = "?s2\<lparr>as_pending := None, as_busy := Some (j0, False), as_running_task_id := job_task_id j0\<rparr>"
  let ?s4 = "?s3\<lparr>as_caller := Caller_posting j1\<rparr>"
  let ?s5 = "?s4\<lparr>as_caller := Caller_idle, as_pending := Some j1, as_queued := as_queued ?s4 @ [j1]\<rparr>"
  have 1: "caller_step ?s0 ?s1" by (rule C_post) (simp_all add: create_async_def)
  have 2: "caller_step ?s1 ?s2" by (rule C_put) (simp_all add: create_async_def)
  have 3: "worker_step be0 ?s2 ?s3" by (rule W_take) (simp_all add: create_async_def)
  have 4: "caller_step ?s3 ?s4" by (rule C_post) (simp_all add: create_async_def)
  have 5: "caller_step ?s4 ?s5" by (rule C_put) (simp_all add: create_async_def)
  have "reachable be0 [] ?s5"
    using R_init [of be0 "[]"] 1 2 3 4 5 by (meson R_step step_def)
  then show ?thesis by (simp add: both_in_flight_def create_async_def)
qed

theorem jobs_run_in_order_witness:
  "as_queued (drain be0 both_in_flight) = as_ran (drain be0 both_in_flight)"
proof -
  have "reachable be0 [] (drain be0 both_in_flight)"
    using drain_reachable [OF both_in_flight_reachable] by (simp add: both_in_flight_def create_async_def)
  from jobs_run_in_order [OF this] show ?thesis using drain_frame(3) by blast
qed

theorem cancel_reaches_running_only_witness: "cancel (\<lambda>tid. tid = 0) both_in_flight"
  using cancel_reaches_running_only [OF both_in_flight_reachable, of "\<lambda>tid. tid = 0"]
  by (simp add: both_in_flight_def)

theorem first_error_sticks_witness:
  "as_error ((run_job be0 j1 (both_in_flight\<lparr>as_error := Some err0, as_busy := Some (j1, False)\<rparr>))
     \<lparr>as_busy := Some (j1, True), as_ran := [j1]\<rparr>) = Some err0"
proof -
  let ?s = "both_in_flight\<lparr>as_error := Some err0, as_busy := Some (j1, False)\<rparr>"
  have "worker_step be0 ?s ((run_job be0 j1 ?s)\<lparr>as_busy := Some (j1, True), as_ran := as_ran ?s @ [j1]\<rparr>)"
    by (rule W_run) simp
  then have "step be0 ?s ((run_job be0 j1 ?s)\<lparr>as_busy := Some (j1, True), as_ran := as_ran ?s @ [j1]\<rparr>)"
    by (simp add: step_def)
  from first_error_sticks [OF this] show ?thesis
    by (simp add: both_in_flight_def create_async_def drained_def)
qed

theorem worker_progress_witness: "\<exists>t. worker_step be0 both_in_flight t"
  using worker_progress [OF both_in_flight_reachable] by (simp add: drained_def both_in_flight_def)

theorem blocking_calls_are_paths_witness:
  "reachable be0 [] (snd (commit be0 both_in_flight)) \<and> drained (snd (commit be0 both_in_flight))"
  using blocking_calls_are_paths [OF both_in_flight_reachable]
  by (simp add: both_in_flight_def create_async_def)

text \<open>a pending error stops new statements, not those already handed over: the worker does not
  look at the error, so a statement that was queued before an earlier one failed is still sent
  to the server after the failure. (The commit then rolls both back and reports the first error.)\<close>

theorem queued_statement_runs_after_error:
  "\<exists>s t. reachable be0 [] s \<and> as_error s = Some err0 \<and> as_conn s = [0] \<and> worker_step be0 s t \<and> as_conn t = [0, 1]
     \<and> fst (commit be0 t) = Inl err0 \<and> as_conn (snd (commit be0 t)) = [0, 1, 200]"
proof -
  let ?a = "(run_job be0 j0 both_in_flight)\<lparr>as_busy := Some (j0, True), as_ran := as_ran both_in_flight @ [j0]\<rparr>"
  let ?b = "?a\<lparr>as_busy := None, as_running_task_id := None\<rparr>"
  let ?c = "?b\<lparr>as_pending := None, as_busy := Some (j1, False), as_running_task_id := job_task_id j1\<rparr>"
  let ?d = "(run_job be0 j1 ?c)\<lparr>as_busy := Some (j1, True), as_ran := as_ran ?c @ [j1]\<rparr>"
  have 1: "worker_step be0 both_in_flight ?a" by (rule W_run) (simp add: both_in_flight_def)
  have 2: "worker_step be0 ?a ?b" by (rule W_done) simp
  have 3: "worker_step be0 ?b ?c" by (rule W_take) (simp_all add: both_in_flight_def create_async_def)
  have 4: "worker_step be0 ?c ?d" by (rule W_run) simp
  have r: "reachable be0 [] ?c" using both_in_flight_reachable 1 2 3 by (meson R_step step_def)
  note defs = both_in_flight_def create_async_def run_job_def exec_body_def be0_def note_error_def
  have c: "as_error ?c = Some err0" "as_conn ?c = [0]" by (simp_all add: defs)
  have d: "as_conn ?d = [0, 1]" by (simp add: defs)
  have "fst (commit be0 ?d) = Inl err0" "as_conn (snd (commit be0 ?d)) = [0, 1, 200]"
    by (simp_all add: defs commit_def drain_def finish_busy_def run_on_worker_def even_after_error_def Let_def)
  with r 4 c d show ?thesis by blast
qed

text \<open>room in the queue does not mean that the previous job is finished: a job is accepted while the
  previous one is still in the worker's hand and has not run.\<close>

theorem queue_accepts_while_busy:
  "\<exists>s t. reachable be0 [] s \<and> as_busy s = Some (j0, False) \<and> caller_step s t \<and> as_pending t = Some j1 \<and> as_ran t = []"
proof -
  let ?s0 = "create_async [] :: (nat list, unit) async_db"
  let ?s1 = "?s0\<lparr>as_caller := Caller_posting j0\<rparr>"
  let ?s2 = "?s1\<lparr>as_caller := Caller_idle, as_pending := Some j0, as_queued := as_queued ?s1 @ [j0]\<rparr>"
  let ?s3 = "?s2\<lparr>as_pending := None, as_busy := Some (j0, False), as_running_task_id := job_task_id j0\<rparr>"
  let ?s4 = "?s3\<lparr>as_caller := Caller_posting j1\<rparr>"
  have 1: "caller_step ?s0 ?s1" by (rule C_post) (simp_all add: create_async_def)
  have 2: "caller_step ?s1 ?s2" by (rule C_put) (simp_all add: create_async_def)
  have 3: "worker_step be0 ?s2 ?s3" by (rule W_take) (simp_all add: create_async_def)
  have 4: "caller_step ?s3 ?s4" by (rule C_post) (simp_all add: create_async_def)
  have "reachable be0 [] ?s4" using R_init [of be0 "[]"] 1 2 3 4 by (meson R_step step_def)
  moreover have "caller_step ?s4 (?s4\<lparr>as_caller := Caller_idle, as_pending := Some j1, as_queued := as_queued ?s4 @ [j1]\<rparr>)"
    by (rule C_put) (simp_all add: create_async_def)
  moreover have "as_busy ?s4 = Some (j0, False)" by simp
  moreover have "as_pending (?s4\<lparr>as_caller := Caller_idle, as_pending := Some j1, as_queued := as_queued ?s4 @ [j1]\<rparr>) = Some j1"
    "as_ran (?s4\<lparr>as_caller := Caller_idle, as_pending := Some j1, as_queued := as_queued ?s4 @ [j1]\<rparr>) = []"
    by (simp_all add: create_async_def)
  ultimately show ?thesis by blast
qed

text \<open>registering a statement while an error is pending is not reported: the preparing job is
  dropped, so a statement with results dereferences a null task, and one without registers a
  null task under a handle that looks valid. Without a pending error every outcome of the
  backend is reported, and a registered statement is never null.\<close>

theorem prepare_after_error:
  "(as_error s \<noteq> None \<longrightarrow>
      async_prepare be bp d p True pr rr tasks s = Undefined_behaviour
    \<and> (\<exists>s'. async_prepare be bp d p False pr rr tasks s = Ret (Inr (Some (length tasks)), tasks @ [None], s')))
   \<and> (as_error s = None \<and> d \<longrightarrow>
      (\<exists>ans tasks' s'. async_prepare be bp d p r pr rr tasks s = Ret (ans, tasks', s')
        \<and> (case fst (bp (if p \<and> 1 < pr then Some pr else None) (if r then Some rr else None) (as_conn (drain be s))) of
             Inl e \<Rightarrow> ans = Inl e \<and> tasks' = tasks
           | Inr t \<Rightarrow> ans = Inr (Some (length tasks)) \<and> tasks' = tasks @ [Some t])))"
  by (cases "bp (if p \<and> 1 < pr then Some pr else None) (if r then Some rr else None) (as_conn (drain be s))")
     (auto simp: async_prepare_def Let_def split: sum.splits if_splits)

theorem prepare_after_error_witness:
  "async_prepare be0 (\<lambda>_ _ c. (Inr (5::nat), c)) True False True 1 1 [] (both_in_flight\<lparr>as_error := Some err0\<rparr>)
     = Undefined_behaviour"
  using prepare_after_error [of "both_in_flight\<lparr>as_error := Some err0\<rparr>" be0 "\<lambda>_ _ c. (Inr (5::nat), c)" True False 1 1 "[]" True]
  by simp

subsection \<open>Snapshots\<close>

lemma snapshot_id: "storage_ok d cols \<Longrightarrow> snapshot_params cols = cols"
proof -
  assume ok: "storage_ok d cols"
  have "take (gen_buffer_size cols) (co_values c) = co_values c \<and> take (gen_buffer_size cols) (co_ind c) = co_ind c"
    if "c \<in> set cols" for c
  proof -
    from that obtain i where "i < length cols" "c = cols ! i" by (auto simp: in_set_conv_nth)
    then show ?thesis using ok by (auto simp: storage_ok_def list_all2_conv_all_nth column_ok_def)
  qed
  then show ?thesis unfolding snapshot_params_def Let_def by (intro map_idI) (auto intro: column.equality)
qed

text \<open>the values a statement runs with are the ones its buffer held when it was submitted: restoring
  a snapshot into the statement's own buffer of the same size gives exactly the submitted values
  and indicators, whatever that buffer held, and whatever the caller has written since. A snapshot
  of a buffer that the caller made larger overruns the statement's value arrays.\<close>

theorem snapshot_restored:
  assumes "storage_ok d cols" "storage_ok d dst"
  shows "(gen_buffer_size cols = gen_buffer_size dst \<longrightarrow> restore_params (snapshot_params cols) dst = Ret cols)
    \<and> (d \<noteq> [] \<and> gen_buffer_size dst < gen_buffer_size cols \<longrightarrow>
        restore_params (snapshot_params cols) dst = Undefined_behaviour)"
proof (intro conjI impI)
  have len: "length cols = length d" "length dst = length d"
    using assms by (auto simp: storage_ok_def dest: list_all2_lengthD)
  have h: "length (co_values (cols ! i)) = gen_buffer_size cols" "length (co_ind (cols ! i)) = gen_buffer_size cols"
    "length (co_values (dst ! i)) = gen_buffer_size dst" "length (co_ind (dst ! i)) = gen_buffer_size dst"
    if "i < length d" for i
    using assms that by (auto simp: storage_ok_def list_all2_conv_all_nth column_ok_def)
  note snap = snapshot_id [OF assms(1)]
  { assume eq: "gen_buffer_size cols = gen_buffer_size dst"
    have fits: "list_all (\<lambda>(s, c). length (co_values s) \<le> length (co_values c)) (zip cols dst)"
      using h eq len by (auto simp: list_all_length)
    have "map (\<lambda>(s, c). restore_column (gen_buffer_size dst) s c) (zip cols dst) = cols"
      using h eq len by (intro nth_equalityI) (auto simp: restore_column_def intro!: column.equality)
    with fits snap len show "restore_params (snapshot_params cols) dst = Ret cols"
      by (simp add: restore_params_def) }
  assume "d \<noteq> [] \<and> gen_buffer_size dst < gen_buffer_size cols"
  then have "0 < length d" "\<not> length (co_values (cols ! 0)) \<le> length (co_values (dst ! 0))"
    using h [of 0] by auto
  then have "\<not> list_all (\<lambda>(s, c). length (co_values s) \<le> length (co_values c)) (zip cols dst)"
    using len by (auto simp: list_all_length intro!: exI [of _ 0])
  then show "restore_params (snapshot_params cols) dst = Undefined_behaviour"
    by (simp add: restore_params_def snap)
qed

theorem snapshot_restored_witness:
  "restore_params (snapshot_params [\<lparr>co_values = [Sl_int32 7], co_ind = [0]\<rparr>])
     [\<lparr>co_values = [Sl_int32 9], co_ind = [null_data]\<rparr> :: (unit, unit) column]
   = Ret [\<lparr>co_values = [Sl_int32 7], co_ind = [0]\<rparr>]"
proof -
  let ?d = "[\<lparr>bd_name = ''id'', bd_category = cat_atomic, bd_base_type = ''int32_t'',
        bd_type = st_integer, bd_column_size = 4, bd_decimal_digits = 0\<rparr>]"
  have "storage_ok ?d [\<lparr>co_values = [Sl_int32 7], co_ind = [0]\<rparr> :: (unit, unit) column]"
    "storage_ok ?d [\<lparr>co_values = [Sl_int32 9], co_ind = [null_data]\<rparr> :: (unit, unit) column]"
    by (simp_all add: storage_ok_def column_ok_def gen_buffer_size_def slot_ok_def)
  from snapshot_restored [OF this] show ?thesis by (simp add: gen_buffer_size_def)
qed

end
