(* ===== verification/Row_Cursor.thy ===== *)
theory Row_Cursor
  imports Prelude
begin

text \<open>
  The contract of a paged result set, which the \<open>query\<close> class of both backends offers to its
  callers: \<open>fetch\<close> copies the next page of pending rows and answers whether there was one.
  The usual client loop \<open>while (fetch()) use(page)\<close> is proved once here: it ends and delivers
  every row exactly once, in order.
\<close>

locale row_cursor =
  fixes fetch_page :: "'q \<Rightarrow> 'row list \<times> 'q"
    and pending :: "'q \<Rightarrow> 'row list"
    and page_size :: "'q \<Rightarrow> nat"
    and invar :: "'q \<Rightarrow> bool"
  assumes page_rows: "invar q \<Longrightarrow> fst (fetch_page q) = take (page_size q) (pending q)"
    and page_pending: "invar q \<Longrightarrow> pending (snd (fetch_page q)) = drop (page_size q) (pending q)"
    and page_size_kept: "invar q \<Longrightarrow> page_size (snd (fetch_page q)) = page_size q"
    and invar_kept: "invar q \<Longrightarrow> invar (snd (fetch_page q))"
    and page_size_pos: "invar q \<Longrightarrow> 0 < page_size q"
begin

text \<open>The client loop, with a bound on its rounds: the pages it saw and whether it came to the end.\<close>

fun drain_loop :: "nat \<Rightarrow> 'q \<Rightarrow> 'row list list \<times> bool" where
  "drain_loop 0 q = ([], False)"
| "drain_loop (Suc n) q =
     (let (page, q') = fetch_page q in
      if page = [] then ([], True)
      else let (pages, ended) = drain_loop n q' in (page # pages, ended))"

lemma drain_ends: "invar q \<Longrightarrow> length (pending q) < n \<Longrightarrow> snd (drain_loop n q)"
proof (induction n arbitrary: q)
  case (Suc n)
  show ?case
  proof (cases "fst (fetch_page q) = []")
    case False
    have "length (pending (snd (fetch_page q))) < n"
      using Suc.prems page_pending [of q] page_size_pos [of q] page_rows [of q] False by (cases "pending q") auto
    with Suc.IH [of "snd (fetch_page q)"] Suc.prems invar_kept False show ?thesis
      by (auto simp: split_beta Let_def)
  qed (auto simp: split_beta Let_def)
qed simp

lemma drain_delivers: "invar q \<Longrightarrow> length (pending q) < n \<Longrightarrow> concat (fst (drain_loop n q)) = pending q"
proof (induction n arbitrary: q)
  case (Suc n)
  show ?case
  proof (cases "fst (fetch_page q) = []")
    case True
    then have "pending q = []" using page_rows [of q] page_size_pos [of q] Suc.prems(1) by simp
    with True show ?thesis by (simp add: split_beta Let_def)
  next
    case False
    have "length (pending (snd (fetch_page q))) < n"
      using Suc.prems page_pending [of q] page_size_pos [of q] page_rows [of q] False by (cases "pending q") auto
    with Suc.IH [of "snd (fetch_page q)"] Suc.prems invar_kept
    have "concat (fst (drain_loop n (snd (fetch_page q)))) = drop (page_size q) (pending q)"
      by (simp add: page_pending)
    with False Suc.prems(1) show ?thesis by (simp add: split_beta Let_def page_rows)
  qed
qed simp

lemma drain_pages_bounded: "invar q \<Longrightarrow> \<forall>p \<in> set (fst (drain_loop n q)). length p \<le> page_size q \<and> p \<noteq> []"
proof (induction n arbitrary: q)
  case (Suc n)
  then show ?case
    using Suc.IH [of "snd (fetch_page q)"] invar_kept [of q] page_size_kept [of q] page_rows [of q]
    by (auto simp: split_beta Let_def)
qed simp

end

end
