(* ===== verification/Async_Rows.thy ===== *)
theory Async_Rows
  imports Async_Db Row_Cursor
begin

text \<open>
  The pages a caller sees through the asynchronous facade (\<open>execute_sync\<close>, \<open>fetch_more\<close> of
  \<open>src/rtl/async_db.hpp\<close>), for any backend whose \<open>fetch\<close> moves a registered statement the way a
  paged result set moves. The contract of a statement is a locale; that the facade over it is a
  paged result set as well, and that a query run through it delivers every row, is proved here
  once and interpreted by \<open>Async_Tasks\<close> (PostgreSQL) and \<open>Async_Tasks_Db2\<close>.
\<close>

subsection \<open>The calls of an idle facade\<close>

text \<open>Between two calls of a caller that only waits, the queue is empty.\<close>

definition idle :: "('c, 's) async_db \<Rightarrow> bool" where
  "idle s \<longleftrightarrow> drained s \<and> as_error s = None"

lemma fetch_more_idle:
  assumes "idle s" "be_fetch be tid (as_conn s) = ((None, got), c)"
  shows "fst (fetch_more be (Some tid) s) = Inr got" "as_conn (snd (fetch_more be (Some tid) s)) = c"
    "idle (snd (fetch_more be (Some tid) s))"
proof -
  have e: "as_error s = None" using assms(1) by (simp add: idle_def)
  have d: "drained (s\<lparr>as_fetched := False\<rparr>)" "as_error (s\<lparr>as_fetched := False\<rparr>) = None \<or> even_after_error (Job_fetch tid)"
    using assms(1) by (simp_all add: drained_def idle_def)
  show "fst (fetch_more be (Some tid) s) = Inr got" "as_conn (snd (fetch_more be (Some tid) s)) = c"
    "idle (snd (fetch_more be (Some tid) s))"
    using assms(2) e by (simp_all add: fetch_more_def run_drained [OF d] run_job_def fetch_body_def note_error_def drained_def idle_def)
qed

lemma execute_sync_idle:
  assumes "idle s" "be_execute be tid snap (as_conn s) = (None, c1)" "be_fetch be tid c1 = ((None, got), c)"
  shows "fst (execute_sync be (Some tid) snap True s) = Inr got" "as_conn (snd (execute_sync be (Some tid) snap True s)) = c"
    "idle (snd (execute_sync be (Some tid) snap True s))"
proof -
  have e: "as_error s = None" using assms(1) by (simp add: idle_def)
  have d: "drained (s\<lparr>as_fetched := False\<rparr>)" "as_error (s\<lparr>as_fetched := False\<rparr>) = None \<or> even_after_error (Job_sync tid snap True)"
    using assms(1) by (simp_all add: drained_def idle_def)
  show "fst (execute_sync be (Some tid) snap True s) = Inr got" "as_conn (snd (execute_sync be (Some tid) snap True s)) = c"
    "idle (snd (execute_sync be (Some tid) snap True s))"
    using assms(2,3) e
    by (simp_all add: execute_sync_def run_drained [OF d] run_job_def exec_body_def fetch_body_def note_error_def drained_def idle_def)
qed

text \<open>A statement that fails: the caller gets its error, which stays, and nothing is fetched.\<close>

lemma execute_sync_fails:
  assumes "idle s" "be_execute be tid snap (as_conn s) = (Some e, c1)"
  shows "fst (execute_sync be (Some tid) snap rows s) = Inl e" "as_conn (snd (execute_sync be (Some tid) snap rows s)) = c1"
    "as_error (snd (execute_sync be (Some tid) snap rows s)) = Some e"
proof -
  have n: "as_error s = None" using assms(1) by (simp add: idle_def)
  have d: "drained (s\<lparr>as_fetched := False\<rparr>)" "as_error (s\<lparr>as_fetched := False\<rparr>) = None \<or> even_after_error (Job_sync tid snap rows)"
    using assms(1) by (simp_all add: drained_def idle_def)
  show "fst (execute_sync be (Some tid) snap rows s) = Inl e" "as_conn (snd (execute_sync be (Some tid) snap rows s)) = c1"
    "as_error (snd (execute_sync be (Some tid) snap rows s)) = Some e"
    using assms(2) n
    by (simp_all add: execute_sync_def run_drained [OF d] run_job_def exec_body_def note_error_def drained_def)
qed

subsection \<open>The pages\<close>

text \<open>The rows the caller reads from the shared result buffer after a call that answered that there
  are some; \<open>seen\<close> reads them from the state of the connection.\<close>

definition rows_after :: "('c \<Rightarrow> 'row list) \<Rightarrow> (db_error + bool) \<times> ('c, 's) async_db \<Rightarrow> 'row list" where
  "rows_after seen r = (case fst r of Inr True \<Rightarrow> seen (as_conn (snd r)) | _ \<Rightarrow> [])"

definition async_page ::
  "('c, 's) backend \<Rightarrow> ('c \<Rightarrow> 'row list) \<Rightarrow> nat \<Rightarrow> ('c, 's) async_db \<Rightarrow> 'row list \<times> ('c, 's) async_db" where
  "async_page be seen tid s = (let r = fetch_more be (Some tid) s in (rows_after seen r, snd r))"

text \<open>A registered statement on its connection: its \<open>fetch\<close> succeeds, answers whether it delivered
  rows, and delivers the next page.\<close>

locale row_task =
  fixes be :: "('c, 's) backend"
    and tid :: nat
    and seen :: "'c \<Rightarrow> 'row list"
    and pending :: "'c \<Rightarrow> 'row list"
    and page_size :: "'c \<Rightarrow> nat"
    and invar :: "'c \<Rightarrow> bool"
  assumes fetch_succeeds: "invar c \<Longrightarrow> fst (be_fetch be tid c) = (None, pending c \<noteq> [])"
    and fetch_seen: "invar c \<Longrightarrow> pending c \<noteq> [] \<Longrightarrow> seen (snd (be_fetch be tid c)) = take (page_size c) (pending c)"
    and fetch_pending: "invar c \<Longrightarrow> pending (snd (be_fetch be tid c)) = drop (page_size c) (pending c)"
    and fetch_size_kept: "invar c \<Longrightarrow> page_size (snd (be_fetch be tid c)) = page_size c"
    and fetch_invar: "invar c \<Longrightarrow> invar (snd (be_fetch be tid c))"
    and size_pos: "invar c \<Longrightarrow> 0 < page_size c"
begin

lemma be_fetch_step:
  assumes "invar c"
  shows "be_fetch be tid c = ((None, pending c \<noteq> []), snd (be_fetch be tid c))"
  using fetch_succeeds [OF assms] by (metis prod.collapse)

lemma rows_after_fetch:
  assumes "invar c" "fst r = Inr (pending c \<noteq> [])" "as_conn (snd r) = snd (be_fetch be tid c)"
  shows "rows_after seen r = take (page_size c) (pending c)"
  using assms fetch_seen [OF assms(1)] by (cases "pending c = []") (simp_all add: rows_after_def)

lemma page_step:
  assumes "idle s" "invar (as_conn s)"
  shows "fst (async_page be seen tid s) = take (page_size (as_conn s)) (pending (as_conn s))"
    and "as_conn (snd (async_page be seen tid s)) = snd (be_fetch be tid (as_conn s))"
    and "idle (snd (async_page be seen tid s))"
proof -
  note f = fetch_more_idle [OF assms(1) be_fetch_step [OF assms(2)]]
  show "fst (async_page be seen tid s) = take (page_size (as_conn s)) (pending (as_conn s))"
    using rows_after_fetch [OF assms(2) f(1,2)] by (simp add: async_page_def Let_def)
  show "as_conn (snd (async_page be seen tid s)) = snd (be_fetch be tid (as_conn s))"
    and "idle (snd (async_page be seen tid s))"
    using f(2,3) by (simp_all add: async_page_def Let_def)
qed

end

text \<open>So the facade offers the same contract as the query class it runs.\<close>

sublocale row_task \<subseteq> facade: row_cursor "async_page be seen tid" "\<lambda>s. pending (as_conn s)"
    "\<lambda>s. page_size (as_conn s)" "\<lambda>s. idle s \<and> invar (as_conn s)"
  by unfold_locales
    (auto simp: page_step(1,2) intro: page_step(3) fetch_pending fetch_size_kept fetch_invar size_pos)

context row_task
begin

text \<open>A query through the facade: \<open>execute_sync\<close> shows the first page, the loop of \<open>fetch_more\<close> the
  others.\<close>

lemma select_delivers:
  assumes "idle s" "be_execute be tid snap (as_conn s) = (None, c1)" "invar c1" "length (pending c1) < n"
    and "execute_sync be (Some tid) snap True s = (ans, s1)"
    and "facade.drain_loop n s1 = (pages, ended)"
  shows "ans = Inr (pending c1 \<noteq> [])" "ended" "rows_after seen (ans, s1) @ concat pages = pending c1"
    "\<forall>p \<in> set (rows_after seen (ans, s1) # pages). length p \<le> page_size c1"
    "as_conn s1 = snd (be_fetch be tid c1)" "idle s1"
proof -
  note e = execute_sync_idle [OF assms(1,2) be_fetch_step [OF assms(3)], unfolded assms(5) fst_conv snd_conv]
  show "ans = Inr (pending c1 \<noteq> [])" "as_conn s1 = snd (be_fetch be tid c1)" "idle s1" using e by simp_all
  have first: "rows_after seen (ans, s1) = take (page_size c1) (pending c1)"
    using rows_after_fetch [of c1 "(ans, s1)"] assms(3) e by simp
  have inv: "idle s1 \<and> invar (as_conn s1)" using e(2,3) fetch_invar [OF assms(3)] by simp
  have rest: "pending (as_conn s1) = drop (page_size c1) (pending c1)" "page_size (as_conn s1) = page_size c1"
    using e(2) fetch_pending [OF assms(3)] fetch_size_kept [OF assms(3)] by simp_all
  have n: "length (pending (as_conn s1)) < n" using rest(1) assms(4) by simp
  show "ended" using facade.drain_ends [OF inv n] assms(6) by simp
  show "rows_after seen (ans, s1) @ concat pages = pending c1"
    using facade.drain_delivers [OF inv n] assms(6) rest(1) first by simp
  show "\<forall>p \<in> set (rows_after seen (ans, s1) # pages). length p \<le> page_size c1"
    using facade.drain_pages_bounded [OF inv, of n] assms(6) rest(2) first by auto
qed

end

end
