(* ===== verification/Rtl_Fmt.thy ===== *)
theory Rtl_Fmt
  imports Sql_Types
begin

text \<open>
  The formatters of the structure types (\<open>src/rtl/rtl_fmt.hpp\<close>). Each formatter prints into a
  fixed buffer with \<open>snprintf\<close>, which cuts the text at the capacity less the terminator but
  answers the length it would have needed, and then hands a view of the buffer on. The
  buffer is modelled by the characters written to it; a view longer than that reads
  characters nobody wrote and is \<open>Undefined_behaviour\<close>. The lemmas show that no field value
  makes a formatter read outside its buffer, and that the buffers of the timestamp and the
  interval are wide enough for every value of the fields.
\<close>

subsection \<open>Printing into a buffer\<close>

definition snprintf :: "nat \<Rightarrow> string \<Rightarrow> int \<times> string" where
  "snprintf capacity s = (int (length s), take (capacity - 1) s)"

definition view :: "string \<Rightarrow> nat \<Rightarrow> string cpp" where
  "view buffer len = (if len \<le> length buffer then Ret (take len buffer) else Undefined_behaviour)"

definition written_len :: "int \<Rightarrow> nat \<Rightarrow> nat" where
  "written_len written capacity =
     (if written < 0 \<or> capacity = 0 then 0 else min (nat written) (capacity - 1))"

function trim_zeroes :: "string \<Rightarrow> nat \<Rightarrow> nat \<Rightarrow> nat" where
  "trim_zeroes buffer len first_digit =
     (if len > first_digit \<and> buffer ! (len - 1) = CHR ''0''
      then trim_zeroes buffer (len - 1) first_digit else len)"
  by pat_completeness auto
termination by (relation "measure (\<lambda>(_, len, _). len)") auto

declare trim_zeroes.simps [simp del]

definition trim_fraction :: "string \<Rightarrow> nat \<Rightarrow> nat \<Rightarrow> nat" where
  "trim_fraction buffer len first_digit =
     (let len' = trim_zeroes buffer len first_digit in
      if len' = first_digit then first_digit + 1 else len')"

text \<open>The second \<open>snprintf\<close> writes behind the first \<open>len\<close> characters; the result is the buffer
  and the trimmed total length.\<close>

definition append_fraction :: "nat \<Rightarrow> string \<Rightarrow> nat \<Rightarrow> u32 \<Rightarrow> string \<times> nat" where
  "append_fraction capacity buffer len fraction =
     (let (written, tail) = snprintf (capacity - len) (''.'' @ zpad 9 (unat fraction));
          buffer' = take len buffer @ tail;
          total = len + written_len written (capacity - len)
      in (buffer', trim_fraction buffer' total (len + 1)))"

subsection \<open>The formatters\<close>

definition fmt_date :: "date \<Rightarrow> string cpp" where
  "fmt_date dt =
     (let (written, buffer) = snprintf 16
            (zpad_int 4 (sint (d_year dt)) @ ''-'' @ zpad 2 (unat (d_month dt)) @ ''-''
             @ zpad 2 (unat (d_day dt)))
      in view buffer (written_len written 16))"

definition fmt_time :: "time \<Rightarrow> string cpp" where
  "fmt_time tm =
     (let (written, buffer) = snprintf 16
            (zpad 2 (unat (t_hour tm)) @ '':'' @ zpad 2 (unat (t_minute tm)) @ '':''
             @ zpad 2 (unat (t_second tm)))
      in view buffer (written_len written 16))"

definition timestamp_head :: "timestamp \<Rightarrow> string" where
  "timestamp_head ts =
     zpad_int 4 (sint (ts_year ts)) @ ''-'' @ zpad 2 (unat (ts_month ts)) @ ''-''
     @ zpad 2 (unat (ts_day ts)) @ '' '' @ zpad 2 (unat (ts_hour ts)) @ '':''
     @ zpad 2 (unat (ts_minute ts)) @ '':'' @ zpad 2 (unat (ts_second ts))"

definition fmt_timestamp :: "timestamp \<Rightarrow> string cpp" where
  "fmt_timestamp ts =
     (let (written, buffer) = snprintf 48 (timestamp_head ts);
          head = written_len written 48;
          (buffer', total) = append_fraction 48 buffer head (ts_fraction ts)
      in view buffer' total)"

definition guid_text :: "guid \<Rightarrow> string" where
  "guid_text g =
     hex_pad 8 (unat (g_data1 g)) @ ''-'' @ hex_pad 4 (unat (g_data2 g)) @ ''-''
     @ hex_pad 4 (unat (g_data3 g)) @ ''-''
     @ hex_pad 2 (unat (g_data4 g ! 0)) @ hex_pad 2 (unat (g_data4 g ! 1)) @ ''-''
     @ hex_pad 2 (unat (g_data4 g ! 2)) @ hex_pad 2 (unat (g_data4 g ! 3))
     @ hex_pad 2 (unat (g_data4 g ! 4)) @ hex_pad 2 (unat (g_data4 g ! 5))
     @ hex_pad 2 (unat (g_data4 g ! 6)) @ hex_pad 2 (unat (g_data4 g ! 7))"

definition fmt_guid :: "guid \<Rightarrow> string cpp" where
  "fmt_guid g = (let (written, buffer) = snprintf 40 (guid_text g) in view buffer (written_len written 40))"

text \<open>The kind selects the member of the union that is read; reading the other one than was
  written is undefined.\<close>

definition reads_year_month :: "interval_kind \<Rightarrow> bool" where
  "reads_year_month k \<longleftrightarrow> k = ik_year \<or> k = ik_month \<or> k = ik_year_to_month"

definition interval_head :: "string \<Rightarrow> day_second \<Rightarrow> string" where
  "interval_head sign v =
     sign @ dec (unat (ds_day v)) @ '' '' @ zpad 2 (unat (ds_hour v)) @ '':''
     @ zpad 2 (unat (ds_minute v)) @ '':'' @ zpad 2 (unat (ds_second v))"

definition fmt_interval :: "interval \<Rightarrow> string cpp" where
  "fmt_interval iv =
     (let sign = (if iv_sign iv = 0 then ''-'' else []) in
      if reads_year_month (iv_kind iv) then
        (case iv_value iv of
           Iv_year_month v \<Rightarrow>
             let (written, buffer) = snprintf 64 (sign @ dec (unat (ym_year v)) @ ''-'' @ dec (unat (ym_month v)))
             in view buffer (written_len written 64)
         | Iv_day_second _ \<Rightarrow> Undefined_behaviour)
      else
        (case iv_value iv of
           Iv_day_second v \<Rightarrow>
             let (written, buffer) = snprintf 64 (interval_head sign v);
                 head = written_len written 64;
                 (buffer', total) = append_fraction 64 buffer head (ds_fraction v)
             in view buffer' total
         | Iv_year_month _ \<Rightarrow> Undefined_behaviour))"

subsection \<open>Widths of the fields\<close>

lemma length_dec_le: "n < 10 ^ w \<Longrightarrow> 0 < w \<Longrightarrow> length (dec n) \<le> w"
  by (rule dec_shortest)

lemma length_zpad_u16: "length (zpad 2 (unat (w :: u16))) \<le> 5"
  using unat_u16_less [of w] length_dec_le [of "unat w" 5] by (simp add: length_zpad_ge)

lemma length_zpad_u32: "length (zpad 2 (unat (w :: u32))) \<le> 10"
  "length (zpad 9 (unat (w :: u32))) \<le> 10" "length (dec (unat (w :: u32))) \<le> 10"
  using unat_u32_less [of w] length_dec_le [of "unat w" 10] by (simp_all add: length_zpad_ge)

lemma length_zpad_year: "length (zpad_int 4 (sint (y :: i16))) \<le> 6"
proof -
  have "sint y < 2 ^ 15" "- (2 ^ 15) \<le> sint y" using sint_lt [of y] sint_ge [of y] by simp_all
  then have "nat (sint y) < 10 ^ 5" "nat (- sint y) < 10 ^ 5" by simp_all
  then have "length (dec (nat (sint y))) \<le> 5" "length (dec (nat (- sint y))) \<le> 5"
    by (simp_all add: length_dec_le)
  then show ?thesis by (simp add: zpad_int_def length_zpad_ge)
qed

lemma length_zpad_9: "9 \<le> length (zpad 9 n)"
  by (simp add: length_zpad_ge)

lemma length_timestamp_head: "length (timestamp_head ts) \<le> 36"
  using length_zpad_year [of "ts_year ts"] length_zpad_u16 [of "ts_month ts"] length_zpad_u16 [of "ts_day ts"]
    length_zpad_u16 [of "ts_hour ts"] length_zpad_u16 [of "ts_minute ts"] length_zpad_u16 [of "ts_second ts"]
  by (simp add: timestamp_head_def)

lemma length_interval_head: "length sign \<le> 1 \<Longrightarrow> length (interval_head sign v) \<le> 44"
  using length_zpad_u32(3) [of "ds_day v"] length_zpad_u32(1) [of "ds_hour v"]
    length_zpad_u32(1) [of "ds_minute v"] length_zpad_u32(1) [of "ds_second v"]
  by (simp add: interval_head_def)

subsection \<open>Views stay inside the buffer\<close>

lemma snprintf_view: "0 < cap \<Longrightarrow> view (snd (snprintf cap s)) (written_len (fst (snprintf cap s)) cap) = Ret (take (cap - 1) s)"
  by (cases "length s \<le> cap - 1") (simp_all add: snprintf_def view_def written_len_def)

lemma trim_zeroes_le: "trim_zeroes b len f \<le> len"
  by (induction b len f rule: trim_zeroes.induct) (subst trim_zeroes.simps, auto)

lemma trim_zeroes_ge: "f \<le> len \<Longrightarrow> f \<le> trim_zeroes b len f"
  by (induction b len f rule: trim_zeroes.induct) (subst trim_zeroes.simps, auto)

lemma trim_zeroes_dropped: "trim_zeroes b len f \<le> i \<Longrightarrow> i < len \<Longrightarrow> b ! i = CHR ''0''"
proof (induction b len f rule: trim_zeroes.induct)
  case (1 b len f)
  show ?case
  proof (cases "len > f \<and> b ! (len - 1) = CHR ''0''")
    case True
    then have "trim_zeroes b (len - 1) f \<le> i" using 1(2) by (subst (asm) trim_zeroes.simps) simp
    with 1(1) [OF True] 1(3) True show ?thesis by (cases "i = len - 1") auto
  next
    case False
    then show ?thesis using 1(2,3) by (subst (asm) trim_zeroes.simps) auto
  qed
qed

lemma trim_zeroes_last: "f < trim_zeroes b len f \<Longrightarrow> b ! (trim_zeroes b len f - 1) \<noteq> CHR ''0''"
proof (induction b len f rule: trim_zeroes.induct)
  case (1 b len f)
  then show ?case by (subst trim_zeroes.simps, subst (asm) (3) trim_zeroes.simps) (auto split: if_splits)
qed

text \<open>What a head and a fraction print as: the fraction without its trailing zeroes, but
  never without its first digit.\<close>

definition trimmed_digits :: "string \<Rightarrow> string" where
  "trimmed_digits ds = (let t = rev (dropWhile (\<lambda>c. c = CHR ''0'') (rev ds)) in if t = [] then take 1 ds else t)"

lemma trim_fraction_eq:
  assumes "ds \<noteq> []" "length h + 1 = f"
  shows "view (h @ ''.'' @ ds) (trim_fraction (h @ ''.'' @ ds) (f + length ds) f) = Ret (h @ ''.'' @ trimmed_digits ds)"
proof -
  let ?b = "h @ ''.'' @ ds"
  have nth: "?b ! (f + i) = ds ! i" for i using assms(2) by (auto simp: nth_append)
  have main: "trim_zeroes ?b (f + k) f = f + length (dropWhile (\<lambda>c. c = CHR ''0'') (rev (take k ds)))"
    if "k \<le> length ds" for k
    using that
  proof (induction k)
    case 0
    then show ?case by (subst trim_zeroes.simps) simp
  next
    case (Suc k)
    then have "rev (take (Suc k) ds) = ds ! k # rev (take k ds)" by (simp add: take_Suc_conv_app_nth)
    moreover have "?b ! (f + Suc k - 1) = ds ! k" using nth [of k] by simp
    ultimately show ?case using Suc by (subst trim_zeroes.simps) auto
  qed
  have t: "trim_zeroes ?b (f + length ds) f = f + length (dropWhile (\<lambda>c. c = CHR ''0'') (rev ds))"
    using main [of "length ds"] by simp
  define r where "r = rev (dropWhile (\<lambda>c. c = CHR ''0'') (rev ds))"
  have r: "take (length r) ds = r" "length r \<le> length ds"
    unfolding r_def dropWhile_eq_drop rev_drop by simp_all
  have t': "trim_zeroes ?b (f + length ds) f = f + length r" using t by (simp add: r_def)
  have d: "trimmed_digits ds = (if r = [] then take 1 ds else r)" by (simp add: trimmed_digits_def r_def Let_def)
  have "1 \<le> length ds" using assms(1) by (cases ds) auto
  with r show ?thesis
    unfolding trim_fraction_def t' d view_def using assms(2) by (cases "r = []") auto
qed

lemma append_fraction_view:
  assumes "length h + 11 < cap"
  shows "(case append_fraction cap h (length h) fr of (b, n) \<Rightarrow> view b n)
    = Ret (h @ ''.'' @ trimmed_digits (zpad 9 (unat fr)))"
proof -
  let ?ds = "zpad 9 (unat fr)"
  have ds: "?ds \<noteq> []" "length ?ds \<le> 10"
    using length_zpad_9 [of "unat fr"] length_zpad_u32(2) [of fr] by auto
  have fits: "length (''.'' @ ?ds) \<le> cap - length h - 1" using assms ds(2) by simp
  then have "append_fraction cap h (length h) fr
      = (h @ ''.'' @ ?ds, trim_fraction (h @ ''.'' @ ?ds) (length h + 1 + length ?ds) (length h + 1))"
    using assms by (auto simp: append_fraction_def snprintf_def written_len_def Let_def nat_add_distrib)
  then show ?thesis using trim_fraction_eq [OF ds(1), of h "length h + 1"] by simp
qed

lemma snprintf_fits: "length s < cap \<Longrightarrow> snprintf cap s = (int (length s), s) \<and> written_len (int (length s)) cap = length s"
  by (simp add: snprintf_def written_len_def)

text \<open>the 48 byte buffer of the timestamp formatter holds every timestamp, whatever garbage is in
  its fields (the widest one takes 47 characters): the text is the six fields in full, a dot, and
  the nanoseconds without trailing zeroes but with at least one digit.\<close>

theorem fmt_timestamp_total:
  "fmt_timestamp ts = Ret (timestamp_head ts @ ''.'' @ trimmed_digits (zpad 9 (unat (ts_fraction ts))))
   \<and> length (timestamp_head ts @ ''.'' @ zpad 9 (unat (ts_fraction ts))) \<le> 47"
proof -
  have h: "length (timestamp_head ts) + 11 < 48" using length_timestamp_head [of ts] by simp
  then show ?thesis
    using snprintf_fits [of "timestamp_head ts" 48] append_fraction_view [OF h, of "ts_fraction ts"]
      length_zpad_u32(2) [of "ts_fraction ts"]
    by (simp add: fmt_timestamp_def)
qed

text \<open>the interval formatter never reads outside its buffer nor cuts its text, as long as the
  member of the union that the kind asks for is the one that was written.\<close>

theorem fmt_interval_total:
  "(iv_value iv = Iv_year_month v \<and> reads_year_month (iv_kind iv) \<longrightarrow>
      fmt_interval iv = Ret ((if iv_sign iv = 0 then ''-'' else []) @ dec (unat (ym_year v)) @ ''-'' @ dec (unat (ym_month v))))
   \<and> (iv_value iv = Iv_day_second u \<and> \<not> reads_year_month (iv_kind iv) \<longrightarrow>
      fmt_interval iv = Ret (interval_head (if iv_sign iv = 0 then ''-'' else []) u @ ''.''
        @ trimmed_digits (zpad 9 (unat (ds_fraction u)))))"
proof (intro conjI impI)
  let ?s = "if iv_sign iv = 0 then ''-'' else []"
  assume a: "iv_value iv = Iv_year_month v \<and> reads_year_month (iv_kind iv)"
  have "length (?s @ dec (unat (ym_year v)) @ ''-'' @ dec (unat (ym_month v))) < 64"
    using length_zpad_u32(3) [of "ym_year v"] length_zpad_u32(3) [of "ym_month v"] by simp
  from snprintf_fits [OF this] a
  show "fmt_interval iv = Ret (?s @ dec (unat (ym_year v)) @ ''-'' @ dec (unat (ym_month v)))"
    by (simp add: fmt_interval_def view_def)
next
  let ?s = "if iv_sign iv = 0 then ''-'' else []"
  assume a: "iv_value iv = Iv_day_second u \<and> \<not> reads_year_month (iv_kind iv)"
  have h: "length (interval_head ?s u) + 11 < 64" using length_interval_head [of ?s u] by (cases "iv_sign iv = 0") simp_all
  then show "fmt_interval iv = Ret (interval_head ?s u @ ''.'' @ trimmed_digits (zpad 9 (unat (ds_fraction u))))"
    using snprintf_fits [of "interval_head ?s u" 64] append_fraction_view [OF h, of "ds_fraction u"] a
    by (simp add: fmt_interval_def)
qed

theorem fmt_interval_total_witness:
  "fmt_interval \<lparr>iv_kind = ik_year_to_month, iv_sign = 0,
     iv_value = Iv_year_month \<lparr>ym_year = 7, ym_month = 9\<rparr>\<rparr> = Ret ''-7-9''"
  using fmt_interval_total [of "\<lparr>iv_kind = ik_year_to_month, iv_sign = 0,
     iv_value = Iv_year_month \<lparr>ym_year = 7, ym_month = 9\<rparr>\<rparr>" "\<lparr>ym_year = 7, ym_month = 9\<rparr>"]
  by (simp add: reads_year_month_def dec.simps digit_char_def) code_simp

text \<open>the 16 byte buffers of the date and the time formatter hold every value whose fields print at
  their nominal width, and for any other value (a year past 9999, fields of a buffer that was never
  filled) the text is cut at 15 characters; the formatter never reads past what was written.\<close>

theorem fmt_date_time_cut:
  "fmt_date d = Ret (take 15 (zpad_int 4 (sint (d_year d)) @ ''-'' @ zpad 2 (unat (d_month d)) @ ''-'' @ zpad 2 (unat (d_day d))))
   \<and> fmt_time t = Ret (take 15 (zpad 2 (unat (t_hour t)) @ '':'' @ zpad 2 (unat (t_minute t)) @ '':'' @ zpad 2 (unat (t_second t))))"
  using snprintf_view [of 16] by (simp add: fmt_date_def fmt_time_def split_beta)

end
