(* ===== verification/Psql_Types.thy ===== *)
theory Psql_Types
  imports Sql_Types
begin

unbundle bit_operations_syntax

text \<open>
  Translation between PostgreSQL type OIDs and the neutral vocabulary
  (\<open>src/rtl/psql/psql_types.hpp\<close>): the OIDs, the two maps, and the width and scale decoded
  from a type modifier. An enumerator \<open>e\<close> of \<open>pg_oid\<close> is the constructor \<open>oid_e\<close>.
\<close>

subsection \<open>OIDs\<close>

type_synonym oid_t = u32

definition param_status_ok :: u16 where
  "param_status_ok = 0"

definition param_status_error :: u16 where
  "param_status_error = 5"

datatype (plugins only: code) pg_oid =
    oid_boolean | oid_bytea | oid_char | oid_name | oid_int8 | oid_int2 | oid_int4 | oid_text
  | oid_oid | oid_json | oid_xml | oid_float4 | oid_float8 | oid_bpchar | oid_varchar | oid_date
  | oid_time | oid_timestamp | oid_timestamptz | oid_interval | oid_timetz | oid_bit | oid_varbit | oid_numeric
  | oid_uuid | oid_jsonb

primrec pg_oid_value :: "pg_oid \<Rightarrow> oid_t" where
  "pg_oid_value oid_boolean = 16"
| "pg_oid_value oid_bytea = 17"
| "pg_oid_value oid_char = 18"
| "pg_oid_value oid_name = 19"
| "pg_oid_value oid_int8 = 20"
| "pg_oid_value oid_int2 = 21"
| "pg_oid_value oid_int4 = 23"
| "pg_oid_value oid_text = 25"
| "pg_oid_value oid_oid = 26"
| "pg_oid_value oid_json = 114"
| "pg_oid_value oid_xml = 142"
| "pg_oid_value oid_float4 = 700"
| "pg_oid_value oid_float8 = 701"
| "pg_oid_value oid_bpchar = 1042"
| "pg_oid_value oid_varchar = 1043"
| "pg_oid_value oid_date = 1082"
| "pg_oid_value oid_time = 1083"
| "pg_oid_value oid_timestamp = 1114"
| "pg_oid_value oid_timestamptz = 1184"
| "pg_oid_value oid_interval = 1186"
| "pg_oid_value oid_timetz = 1266"
| "pg_oid_value oid_bit = 1560"
| "pg_oid_value oid_varbit = 1562"
| "pg_oid_value oid_numeric = 1700"
| "pg_oid_value oid_uuid = 2950"
| "pg_oid_value oid_jsonb = 3802"

definition all_pg_oids :: "pg_oid list" where
  "all_pg_oids = [
     oid_boolean, oid_bytea, oid_char, oid_name, oid_int8, oid_int2, oid_int4, oid_text, 
     oid_oid, oid_json, oid_xml, oid_float4, oid_float8, oid_bpchar, oid_varchar, oid_date, 
     oid_time, oid_timestamp, oid_timestamptz, oid_interval, oid_timetz, oid_bit, oid_varbit, oid_numeric, 
     oid_uuid, oid_jsonb]"

text \<open>\<open>static_cast<pg_oid>(oid)\<close>: a value outside the enumeration matches no \<open>case\<close>.\<close>

definition as_pg_oid :: "oid_t \<Rightarrow> pg_oid option" where
  "as_pg_oid oid = find (\<lambda>o'. pg_oid_value o' = oid) all_pg_oids"

primrec from_pg_oid :: "pg_oid \<Rightarrow> sql_type" where
  "from_pg_oid oid_boolean = st_bit"
| "from_pg_oid oid_bytea = st_var_binary"
| "from_pg_oid oid_char = st_char"
| "from_pg_oid oid_name = st_var_char"
| "from_pg_oid oid_int8 = st_bigint"
| "from_pg_oid oid_int2 = st_smallint"
| "from_pg_oid oid_int4 = st_integer"
| "from_pg_oid oid_text = st_long_var_char"
| "from_pg_oid oid_oid = st_bigint"
| "from_pg_oid oid_json = st_long_var_char"
| "from_pg_oid oid_xml = st_xml"
| "from_pg_oid oid_float4 = st_real"
| "from_pg_oid oid_float8 = st_double"
| "from_pg_oid oid_bpchar = st_char"
| "from_pg_oid oid_varchar = st_var_char"
| "from_pg_oid oid_date = st_type_date"
| "from_pg_oid oid_time = st_type_time"
| "from_pg_oid oid_timestamp = st_type_timestamp"
| "from_pg_oid oid_timestamptz = st_type_timestamp"
| "from_pg_oid oid_interval = st_interval_day_to_second"
| "from_pg_oid oid_timetz = st_type_time"
| "from_pg_oid oid_bit = st_var_binary"
| "from_pg_oid oid_varbit = st_var_binary"
| "from_pg_oid oid_numeric = st_numeric"
| "from_pg_oid oid_uuid = st_guid"
| "from_pg_oid oid_jsonb = st_long_var_char"

definition from_oid :: "oid_t \<Rightarrow> sql_type" where
  "from_oid oid = (case as_pg_oid oid of Some o' \<Rightarrow> from_pg_oid o' | None \<Rightarrow> st_unknown)"

primrec to_oid :: "sql_type \<Rightarrow> oid_t" where
  "to_oid st_unknown = 0"
| "to_oid st_integer = pg_oid_value oid_int4"
| "to_oid st_smallint = pg_oid_value oid_int2"
| "to_oid st_bigint = pg_oid_value oid_int8"
| "to_oid st_tiny_int = pg_oid_value oid_int2"
| "to_oid st_float = pg_oid_value oid_float8"
| "to_oid st_real = pg_oid_value oid_float4"
| "to_oid st_double = pg_oid_value oid_float8"
| "to_oid st_bit = pg_oid_value oid_boolean"
| "to_oid st_char = pg_oid_value oid_bpchar"
| "to_oid st_numeric = pg_oid_value oid_numeric"
| "to_oid st_decimal = pg_oid_value oid_numeric"
| "to_oid st_var_char = pg_oid_value oid_varchar"
| "to_oid st_decfloat = pg_oid_value oid_numeric"
| "to_oid st_long_var_char = pg_oid_value oid_text"
| "to_oid st_clob = pg_oid_value oid_text"
| "to_oid st_xml = pg_oid_value oid_xml"
| "to_oid st_wchar = 0"
| "to_oid st_wvar_char = 0"
| "to_oid st_wlong_var_char = 0"
| "to_oid st_dbclob = 0"
| "to_oid st_graphic = 0"
| "to_oid st_var_graphic = 0"
| "to_oid st_binary = pg_oid_value oid_bytea"
| "to_oid st_var_binary = pg_oid_value oid_bytea"
| "to_oid st_long_var_binary = pg_oid_value oid_bytea"
| "to_oid st_blob = pg_oid_value oid_bytea"
| "to_oid st_date = pg_oid_value oid_date"
| "to_oid st_time = pg_oid_value oid_time"
| "to_oid st_timestamp = pg_oid_value oid_timestamp"
| "to_oid st_type_date = pg_oid_value oid_date"
| "to_oid st_type_time = pg_oid_value oid_time"
| "to_oid st_type_timestamp = pg_oid_value oid_timestamp"
| "to_oid st_interval_year = pg_oid_value oid_interval"
| "to_oid st_interval_month = pg_oid_value oid_interval"
| "to_oid st_interval_year_to_month = pg_oid_value oid_interval"
| "to_oid st_interval_day = pg_oid_value oid_interval"
| "to_oid st_interval_hour = pg_oid_value oid_interval"
| "to_oid st_interval_minute = pg_oid_value oid_interval"
| "to_oid st_interval_second = pg_oid_value oid_interval"
| "to_oid st_interval_day_to_hour = pg_oid_value oid_interval"
| "to_oid st_interval_day_to_minute = pg_oid_value oid_interval"
| "to_oid st_interval_day_to_second = pg_oid_value oid_interval"
| "to_oid st_interval_hour_to_minute = pg_oid_value oid_interval"
| "to_oid st_interval_hour_to_second = pg_oid_value oid_interval"
| "to_oid st_interval_minute_to_second = pg_oid_value oid_interval"
| "to_oid st_guid = pg_oid_value oid_uuid"
| "to_oid st_count = 0"

subsection \<open>Width and scale\<close>

definition column_width :: "oid_t \<Rightarrow> i32 \<Rightarrow> i32 \<Rightarrow> u32" where
  "column_width oid typmod fsize =
     (if oid = pg_oid_value oid_bpchar \<or> oid = pg_oid_value oid_varchar
      then (if sint typmod > 4 then typmod - 4 else 0)
      else if oid = pg_oid_value oid_numeric then 64
      else if oid = pg_oid_value oid_uuid then 36
      else if oid \<in> {pg_oid_value oid_text, pg_oid_value oid_json, pg_oid_value oid_jsonb,
                    pg_oid_value oid_xml, pg_oid_value oid_bytea, pg_oid_value oid_bit,
                    pg_oid_value oid_varbit, pg_oid_value oid_name} then 0
      else if sint fsize > 0 then fsize else 0)"

definition column_scale :: "oid_t \<Rightarrow> i32 \<Rightarrow> i16" where
  "column_scale oid typmod =
     (if oid \<noteq> pg_oid_value oid_numeric \<or> sint typmod < 4 then 0
      else ucast ((typmod - 4) AND 0xffff))"

subsection \<open>Properties\<close>

lemma as_pg_oid_value: "as_pg_oid (pg_oid_value o') = Some o'"
  by (cases o') (simp_all add: as_pg_oid_def all_pg_oids_def)

lemma as_pg_oid_Some: "as_pg_oid oid = Some o' \<Longrightarrow> oid = pg_oid_value o'"
  by (auto simp: as_pg_oid_def find_Some_iff)

lemma as_pg_oid_0: "as_pg_oid 0 = None"
  by (simp add: as_pg_oid_def all_pg_oids_def)

lemma from_oid_value [simp]: "from_oid (pg_oid_value o') = from_pg_oid o'"
  by (simp add: from_oid_def as_pg_oid_value)

lemma from_oid_0 [simp]: "from_oid 0 = st_unknown"
  by (simp add: from_oid_def as_pg_oid_0)

lemma from_to_from_pg: "from_oid (to_oid (from_pg_oid o')) = from_pg_oid o'"
  by (cases o') (simp_all del: pg_oid_value.simps)

text \<open>declaring a parameter by the type a column was described with is stable: mapping an OID to
  the neutral vocabulary and back gives an OID of the same neutral type, whatever the OID; an
  unknown OID (a user type, an enum, an array) becomes \<open>unknown\<close> and is declared as
  "unspecified"; and a neutral type that has an OID comes back with its storage category.\<close>

theorem oid_roundtrip:
  "from_oid (to_oid (from_oid oid)) = from_oid oid
   \<and> (as_pg_oid oid = None \<longleftrightarrow> from_oid oid = st_unknown)
   \<and> (to_oid (from_oid oid) = 0 \<longleftrightarrow> from_oid oid = st_unknown)
   \<and> (t = st_count \<or> to_oid t = 0
      \<or> sm_category (get_sql_mapping (from_oid (to_oid t))) = sm_category (get_sql_mapping t))"
proof (intro conjI)
  show "from_oid (to_oid (from_oid oid)) = from_oid oid"
    by (cases "as_pg_oid oid") (simp_all add: from_oid_def [of oid] from_to_from_pg)
  have ne: "from_pg_oid o' \<noteq> st_unknown" "to_oid (from_pg_oid o') \<noteq> 0" for o'
    by (cases o'; simp)+
  show "as_pg_oid oid = None \<longleftrightarrow> from_oid oid = st_unknown"
    using ne by (cases "as_pg_oid oid") (simp_all add: from_oid_def [of oid])
  show "to_oid (from_oid oid) = 0 \<longleftrightarrow> from_oid oid = st_unknown"
    using ne by (cases "as_pg_oid oid") (simp_all add: from_oid_def [of oid])
  show "t = st_count \<or> to_oid t = 0
      \<or> sm_category (get_sql_mapping (from_oid (to_oid t))) = sm_category (get_sql_mapping t)"
    by (cases t) (simp_all add: category_by_index del: pg_oid_value.simps)
qed

lemma sint_of_nat_32: "n < 2 ^ 31 \<Longrightarrow> sint (of_nat n :: i32) = int n"
  by (simp add: signed_of_nat signed_take_bit_int_eq_self)

lemma ucast_and_ffff: "ucast ((x :: u32) AND 0xffff) = (ucast x :: u16)"
proof -
  have m: "(0xffff :: u32) = mask 16" by (simp add: mask_eq_exp_minus_1)
  show ?thesis unfolding m by (rule bit_word_eqI) (simp add: bit_simps)
qed

text \<open>the declared length and the scale are decoded from the type modifier the server builds:
  \<open>n + 4\<close> for \<open>char(n)\<close> and \<open>varchar(n)\<close>, \<open>((p << 16) | s) + 4\<close> for \<open>numeric(p, s)\<close>; without a
  modifier (\<open>-1\<close>) the column has no declared width and no scale.\<close>

theorem typmod_decoded:
  assumes "n \<le> 10485760" "p \<le> 1000" "s \<le> 1000" "0 < n"
  shows "unat (column_width (pg_oid_value oid_varchar) (of_nat (n + 4)) z) = n
    \<and> unat (column_width (pg_oid_value oid_bpchar) (of_nat (n + 4)) z) = n
    \<and> sint (column_scale (pg_oid_value oid_numeric) (of_nat (p * 65536 + s + 4))) = int s
    \<and> column_width (pg_oid_value oid_varchar) (- 1) z = 0
    \<and> column_scale (pg_oid_value oid_numeric) (- 1) = 0"
proof -
  have n: "sint (of_nat (n + 4) :: i32) = int (n + 4)" using assms(1) by (intro sint_of_nat_32) simp
  have w: "unat ((of_nat (n + 4) :: i32) - 4) = n"
    using assms(1) by (simp add: unat_of_nat)
  have ps: "sint (of_nat (p * 65536 + s + 4) :: i32) = int (p * 65536 + s + 4)"
    using assms(2,3) by (intro sint_of_nat_32) simp
  let ?t = "of_nat (p * 65536 + s + 4) - 4 :: i32"
  have "?t = of_nat (p * 65536 + s)" by simp
  moreover have "ucast (?t AND 0xffff) = (ucast ?t :: i16)" by (rule ucast_and_ffff)
  moreover have "(ucast (of_nat (p * 65536 + s) :: i32) :: i16) = of_nat (p * 65536 + s)"
    by (rule bit_word_eqI) (simp only: bit_simps bit_of_nat_iff, auto)
  moreover have "(65536 :: i16) = 0" by transfer simp
  ultimately have sc: "ucast (?t AND 0xffff) = (of_nat s :: i16)" by simp
  have "sint (of_nat s :: i16) = int s"
    using assms(3) by (simp add: signed_of_nat signed_take_bit_int_eq_self)
  with n w ps sc assms show ?thesis
    by (simp add: column_width_def column_scale_def)
qed

theorem typmod_decoded_witness:
  "unat (column_width (pg_oid_value oid_varchar) 34 (- 1)) = 30
   \<and> sint (column_scale (pg_oid_value oid_numeric) 655366) = 2"
  using typmod_decoded [of 30 10 2 "- 1"] by simp

end
