(* ===== verification/Psql_Values.thy ===== *)
theory Psql_Values
  imports Buffers Rtl_Fmt Psql_Types
begin

unbundle bit_operations_syntax

text \<open>
  The text conversions of the PostgreSQL runtime (\<open>src/rtl/psql/query.cpp\<close>, \<open>parse_int\<close> of
  \<open>query.hpp\<close>). A position \<open>pos\<close> in a \<open>string_view\<close> is modelled by the suffix that starts there;
  a parser with an \<open>out\<close> argument returns the value, \<open>None\<close> when it answers false and leaves
  the argument alone. Storing writes the slot and possibly the indicator of one row of a column
  exactly where the source does.
\<close>

subsection \<open>Scanning\<close>

definition hex_val :: "char \<Rightarrow> u8" where
  "hex_val c =
     (let n = (of_char c :: nat) in
      if 48 \<le> n \<and> n \<le> 57 then of_nat (n - 48)
      else if 97 \<le> n \<and> n \<le> 102 then of_nat (n - 97 + 10)
      else if 65 \<le> n \<and> n \<le> 70 then of_nat (n - 65 + 10)
      else 0xff)"

text \<open>The digit loop: the value is kept in a \<open>uint16_t\<close>, so it would wrap for more digits than
  the callers ask for.\<close>

primrec read_loop :: "nat \<Rightarrow> string \<Rightarrow> u16 \<Rightarrow> (u16 \<times> string) option" where
  "read_loop 0 sv v = Some (v, sv)"
| "read_loop (Suc n) sv v =
     (case sv of
        [] \<Rightarrow> None
      | c # r \<Rightarrow> if \<not> is_digit c then None else read_loop n r (v * 10 + of_nat (digit_val c)))"

definition read_digits :: "string \<Rightarrow> nat \<Rightarrow> (u16 \<times> string) option" where
  "read_digits sv n = (if n > length sv then None else read_loop n sv 0)"

definition expect :: "string \<Rightarrow> char \<Rightarrow> string option" where
  "expect sv c = (case sv of [] \<Rightarrow> None | a # r \<Rightarrow> if a \<noteq> c then None else Some r)"

text \<open>Fractional seconds: every digit adds its share of nanoseconds, the scale reaching zero after
  nine of them.\<close>

fun fraction_loop :: "string \<Rightarrow> u32 \<Rightarrow> u32 \<Rightarrow> u32 \<times> string" where
  "fraction_loop [] scale nanos = (nanos, [])"
| "fraction_loop (c # r) scale nanos =
     (if is_digit c then fraction_loop r (scale div 10) (nanos + of_nat (digit_val c) * scale)
      else (nanos, c # r))"

definition read_fraction :: "string \<Rightarrow> u32 \<times> string" where
  "read_fraction sv =
     (case sv of
        [] \<Rightarrow> (0, sv)
      | c # r \<Rightarrow> if c \<noteq> CHR ''.'' then (0, sv) else fraction_loop r 100000000 0)"

text \<open>One field of exactly \<open>n\<close> digits followed by a separator.\<close>

definition field :: "nat \<Rightarrow> char \<Rightarrow> string \<Rightarrow> (u16 \<times> string) option" where
  "field n sep sv =
     Option.bind (read_digits sv n) (\<lambda>(v, sv). map_option (\<lambda>r. (v, r)) (expect sv sep))"

subsection \<open>Dates, times and guids\<close>

definition parse_date :: "string \<Rightarrow> date option" where
  "parse_date sv =
     Option.bind (field 4 (CHR ''-'') sv) (\<lambda>(y, sv).
     Option.bind (field 2 (CHR ''-'') sv) (\<lambda>(m, sv).
     Option.bind (read_digits sv 2) (\<lambda>(d, sv).
       Some \<lparr>d_year = y, d_month = m, d_day = d\<rparr>)))"

definition parse_time :: "string \<Rightarrow> time option" where
  "parse_time sv =
     Option.bind (field 2 (CHR '':'') sv) (\<lambda>(hh, sv).
     Option.bind (field 2 (CHR '':'') sv) (\<lambda>(mm, sv).
     Option.bind (read_digits sv 2) (\<lambda>(ss, sv).
       Some \<lparr>t_hour = hh, t_minute = mm, t_second = ss\<rparr>)))"

definition skip_separator :: "string \<Rightarrow> string" where
  "skip_separator sv =
     (case sv of c # r \<Rightarrow> if c = CHR '' '' \<or> c = CHR ''T'' then r else sv | [] \<Rightarrow> sv)"

definition parse_timestamp :: "string \<Rightarrow> timestamp option" where
  "parse_timestamp sv =
     Option.bind (field 4 (CHR ''-'') sv) (\<lambda>(y, sv).
     Option.bind (field 2 (CHR ''-'') sv) (\<lambda>(mo, sv).
     Option.bind (read_digits sv 2) (\<lambda>(d, sv).
     Option.bind (field 2 (CHR '':'') (skip_separator sv)) (\<lambda>(hh, sv).
     Option.bind (field 2 (CHR '':'') sv) (\<lambda>(mm, sv).
     Option.bind (read_digits sv 2) (\<lambda>(ss, sv).
       Some \<lparr>ts_year = y, ts_month = mo, ts_day = d, ts_hour = hh, ts_minute = mm,
             ts_second = ss, ts_fraction = fst (read_fraction sv)\<rparr>))))))"

text \<open>Sixteen bytes as pairs of hexadecimal digits, hyphens skipped between pairs.\<close>

definition byte_of_nibbles :: "u8 \<Rightarrow> u8 \<Rightarrow> u8" where
  "byte_of_nibbles hi lo = ucast (push_bit 4 (ucast hi :: u32) OR ucast lo)"

fun guid_bytes :: "string \<Rightarrow> u8 list \<Rightarrow> u8 list option" where
  "guid_bytes [] bytes = Some bytes"
| "guid_bytes (c # r) bytes =
     (if \<not> length bytes < 16 then Some bytes
      else if c = CHR ''-'' then guid_bytes r bytes
      else case r of
        [] \<Rightarrow> None
      | c' # r' \<Rightarrow>
          if hex_val c = 0xff \<or> hex_val c' = 0xff then None
          else guid_bytes r' (bytes @ [byte_of_nibbles (hex_val c) (hex_val c')]))"

definition parse_guid :: "string \<Rightarrow> guid option" where
  "parse_guid sv =
     Option.bind (guid_bytes sv []) (\<lambda>b.
       if length b \<noteq> 16 then None
       else Some
        \<lparr>g_data1 = push_bit 24 (ucast (b ! 0)) OR push_bit 16 (ucast (b ! 1)) OR push_bit 8 (ucast (b ! 2))
                    OR ucast (b ! 3),
         g_data2 = ucast (push_bit 8 (ucast (b ! 4) :: u32) OR ucast (b ! 5)),
         g_data3 = ucast (push_bit 8 (ucast (b ! 6) :: u32) OR ucast (b ! 7)),
         g_data4 = drop 8 b\<rparr>)"

definition format_date :: "date \<Rightarrow> string" where
  "format_date v = zpad_int 4 (sint (d_year v)) @ ''-'' @ zpad 2 (unat (d_month v)) @ ''-'' @ zpad 2 (unat (d_day v))"

definition format_time :: "time \<Rightarrow> string" where
  "format_time v = zpad 2 (unat (t_hour v)) @ '':'' @ zpad 2 (unat (t_minute v)) @ '':'' @ zpad 2 (unat (t_second v))"

definition format_timestamp :: "timestamp \<Rightarrow> string" where
  "format_timestamp v =
     zpad_int 4 (sint (ts_year v)) @ ''-'' @ zpad 2 (unat (ts_month v)) @ ''-'' @ zpad 2 (unat (ts_day v))
     @ '' '' @ zpad 2 (unat (ts_hour v)) @ '':'' @ zpad 2 (unat (ts_minute v)) @ '':''
     @ zpad 2 (unat (ts_second v)) @ ''.'' @ zpad 9 (unat (ts_fraction v))"

definition format_guid :: "guid \<Rightarrow> string" where
  "format_guid v = (case fmt_guid v of Ret s \<Rightarrow> s | _ \<Rightarrow> [])"

subsection \<open>Binary data\<close>

fun decode_pairs :: "string \<Rightarrow> nat \<Rightarrow> u8 list" where
  "decode_pairs (c # c' # r) capacity =
     (if capacity = 0 \<or> hex_val c = 0xff \<or> hex_val c' = 0xff then []
      else byte_of_nibbles (hex_val c) (hex_val c') # decode_pairs r (capacity - 1))"
| "decode_pairs _ capacity = []"

text \<open>The bytes written to \<open>dst\<close>; the returned count is their number.\<close>

definition decode_bytea :: "string \<Rightarrow> nat \<Rightarrow> u8 list" where
  "decode_bytea sv capacity =
     decode_pairs
       (if 2 \<le> length sv \<and> sv ! 0 = CHR 0x5C \<and> (sv ! 1 = CHR ''x'' \<or> sv ! 1 = CHR ''X'') then drop 2 sv else sv)
       capacity"

definition encode_bytea :: "u8 list \<Rightarrow> string" where
  "encode_bytea src = CHR 0x5C # ''x'' @ concat (map (\<lambda>b. hex_pad 2 (unat b)) src)"

subsection \<open>Integers and floating point numbers\<close>

text \<open>\<open>std::from_chars\<close> on a signed integer: an optional minus, the longest run of digits, an
  error when there is none or when the value does not fit; what follows the digits is not
  looked at.\<close>

definition from_chars_int :: "nat \<Rightarrow> string \<Rightarrow> int option" where
  "from_chars_int width sv =
     (let neg = (sv \<noteq> [] \<and> hd sv = CHR ''-'');
          digits = takeWhile is_digit (if neg then tl sv else sv);
          v = (if neg then - int (digits_value digits) else int (digits_value digits))
      in if digits = [] \<or> v < - (2 ^ (width - 1)) \<or> 2 ^ (width - 1) \<le> v then None else Some v)"

text \<open>The conversions of the two floating point types are the standard library's.\<close>

record ('f, 'd) float_ops =
  fo_parse_float :: "string \<Rightarrow> 'f option"
  fo_parse_double :: "string \<Rightarrow> 'd option"
  fo_format_float :: "'f \<Rightarrow> string"
  fo_format_double :: "'d \<Rightarrow> string"

subsection \<open>Storing and loading a slot\<close>

text \<open>The first component is the function's answer, the second the slot afterwards.\<close>

definition put_slot :: "('a \<Rightarrow> ('f, 'd) slot) \<Rightarrow> 'a option \<Rightarrow> ('f, 'd) slot \<Rightarrow> bool \<times> ('f, 'd) slot" where
  "put_slot mk v slot = (case v of Some x \<Rightarrow> (True, mk x) | None \<Rightarrow> (False, slot))"

definition store_atomic ::
  "('f, 'd) float_ops \<Rightarrow> sql_type \<Rightarrow> string \<Rightarrow> ('f, 'd) slot \<Rightarrow> bool \<times> ('f, 'd) slot" where
  "store_atomic fo t text0 slot =
     (if t = st_smallint then put_slot (\<lambda>v. Sl_int16 (word_of_int v)) (from_chars_int 16 text0) slot
      else if t = st_integer then put_slot (\<lambda>v. Sl_int32 (word_of_int v)) (from_chars_int 32 text0) slot
      else if t = st_bigint then put_slot (\<lambda>v. Sl_int64 (word_of_int v)) (from_chars_int 64 text0) slot
      else if t = st_tiny_int then put_slot (\<lambda>v. Sl_int8 (word_of_int v)) (from_chars_int 8 text0) slot
      else if t = st_real then put_slot Sl_float (fo_parse_float fo text0) slot
      else if t = st_float \<or> t = st_double then put_slot Sl_double (fo_parse_double fo text0) slot
      else if t = st_bit then
        (True, Sl_bool (text0 \<noteq> [] \<and> (hd text0 = CHR ''t'' \<or> hd text0 = CHR ''T'' \<or> hd text0 = CHR ''1'')))
      else (False, slot))"

definition store_structure :: "sql_type \<Rightarrow> string \<Rightarrow> ('f, 'd) slot \<Rightarrow> bool \<times> ('f, 'd) slot" where
  "store_structure t text0 slot =
     (if is_date_type t then put_slot Sl_date (parse_date text0) slot
      else if is_time_type t then put_slot Sl_time (parse_time text0) slot
      else if is_timestamp_type t then put_slot Sl_timestamp (parse_timestamp text0) slot
      else if t = st_guid then put_slot Sl_guid (parse_guid text0) slot
      else (False, slot))"

text \<open>The row accesses of a column; \<open>set_slot\<close> writes the value array, \<open>set_ind\<close> the indicator.\<close>

definition slot_at :: "('f, 'd) column \<Rightarrow> nat \<Rightarrow> ('f, 'd) slot" where
  "slot_at c row = co_values c ! row"

definition set_slot :: "nat \<Rightarrow> ('f, 'd) slot \<Rightarrow> ('f, 'd) column \<Rightarrow> ('f, 'd) column" where
  "set_slot row s c = c\<lparr>co_values := (co_values c)[row := s]\<rparr>"

definition set_ind :: "nat \<Rightarrow> i32 \<Rightarrow> ('f, 'd) column \<Rightarrow> ('f, 'd) column" where
  "set_ind row v c = c\<lparr>co_ind := (co_ind c)[row := v]\<rparr>"

definition chars_of :: "('f, 'd) slot \<Rightarrow> string" where
  "chars_of s = (case s of Sl_chars cs \<Rightarrow> cs | _ \<Rightarrow> [])"

definition bytes_of :: "('f, 'd) slot \<Rightarrow> u8 list" where
  "bytes_of s = (case s of Sl_bytes bs \<Rightarrow> bs | _ \<Rightarrow> [])"

definition store_c_string :: "buffer_dscr_const \<Rightarrow> nat \<Rightarrow> string \<Rightarrow> ('f, 'd) column \<Rightarrow> ('f, 'd) column" where
  "store_c_string dscr row text0 c =
     (let capacity = unat (bd_column_size dscr);
          n = min (length text0) capacity;
          old = chars_of (slot_at c row);
          dst = (take n text0 @ drop n old)[n := CHR 0x00]
      in set_ind row (of_nat n) (set_slot row (Sl_chars dst) c))"

definition store_b_string :: "buffer_dscr_const \<Rightarrow> nat \<Rightarrow> string \<Rightarrow> ('f, 'd) column \<Rightarrow> ('f, 'd) column" where
  "store_b_string dscr row text0 c =
     (let bytes = decode_bytea text0 (unat (bd_column_size dscr));
          n = length bytes;
          old = bytes_of (slot_at c row)
      in set_ind row (of_nat n) (set_slot row (Sl_bytes (bytes @ drop n old)) c))"

definition store_value ::
  "('f, 'd) float_ops \<Rightarrow> buffer_dscr_const \<Rightarrow> nat \<Rightarrow> string \<Rightarrow> ('f, 'd) column \<Rightarrow> bool \<times> ('f, 'd) column" where
  "store_value fo dscr row text0 c =
     (case bd_category dscr of
        cat_atomic \<Rightarrow> (let (ok, s) = store_atomic fo (bd_type dscr) text0 (slot_at c row) in (ok, set_slot row s c))
      | cat_c_string \<Rightarrow> (True, store_c_string dscr row text0 c)
      | cat_b_string \<Rightarrow> (True, store_b_string dscr row text0 c)
      | cat_structure \<Rightarrow> (let (ok, s) = store_structure (bd_type dscr) text0 (slot_at c row) in (ok, set_slot row s c))
      | cat_w_string \<Rightarrow> (False, c))"

definition load_atomic :: "('f, 'd) float_ops \<Rightarrow> sql_type \<Rightarrow> ('f, 'd) slot \<Rightarrow> string" where
  "load_atomic fo t slot =
     (case slot of
        Sl_int16 v \<Rightarrow> if t = st_smallint then dec_int (sint v) else []
      | Sl_int32 v \<Rightarrow> if t = st_integer then dec_int (sint v) else []
      | Sl_int64 v \<Rightarrow> if t = st_bigint then dec_int (sint v) else []
      | Sl_int8 v \<Rightarrow> if t = st_tiny_int then dec_int (sint v) else []
      | Sl_float v \<Rightarrow> if t = st_real then fo_format_float fo v else []
      | Sl_double v \<Rightarrow> if t = st_float \<or> t = st_double then fo_format_double fo v else []
      | Sl_bool v \<Rightarrow> if t = st_bit then (if v then ''true'' else ''false'') else []
      | _ \<Rightarrow> [])"

text \<open>The indicator is converted to \<open>size_t\<close>: a negative one becomes huge and is cut to the
  column width.\<close>

definition used_len :: "buffer_dscr_const \<Rightarrow> ('f, 'd) column \<Rightarrow> nat \<Rightarrow> nat" where
  "used_len dscr c row = min (unat (scast (co_ind c ! row) :: u64)) (unat (bd_column_size dscr))"

definition load_c_string :: "buffer_dscr_const \<Rightarrow> ('f, 'd) column \<Rightarrow> nat \<Rightarrow> string" where
  "load_c_string dscr c row = take (used_len dscr c row) (chars_of (slot_at c row))"

definition load_b_string :: "buffer_dscr_const \<Rightarrow> ('f, 'd) column \<Rightarrow> nat \<Rightarrow> string" where
  "load_b_string dscr c row = encode_bytea (take (used_len dscr c row) (bytes_of (slot_at c row)))"

definition load_structure :: "sql_type \<Rightarrow> ('f, 'd) slot \<Rightarrow> string" where
  "load_structure t slot =
     (case slot of
        Sl_date v \<Rightarrow> if is_date_type t then format_date v else []
      | Sl_time v \<Rightarrow> if is_time_type t then format_time v else []
      | Sl_timestamp v \<Rightarrow> if is_timestamp_type t then format_timestamp v else []
      | Sl_guid v \<Rightarrow> if t = st_guid then format_guid v else []
      | _ \<Rightarrow> [])"

definition load_value :: "('f, 'd) float_ops \<Rightarrow> buffer_dscr_const \<Rightarrow> ('f, 'd) column \<Rightarrow> nat \<Rightarrow> string" where
  "load_value fo dscr c row =
     (case bd_category dscr of
        cat_atomic \<Rightarrow> load_atomic fo (bd_type dscr) (slot_at c row)
      | cat_c_string \<Rightarrow> load_c_string dscr c row
      | cat_b_string \<Rightarrow> load_b_string dscr c row
      | cat_structure \<Rightarrow> load_structure (bd_type dscr) (slot_at c row)
      | cat_w_string \<Rightarrow> [])"

subsection \<open>Reading back printed fields\<close>

lemma digits_w_Cons: "digits_w (Suc w) n = digit_char (n div 10 ^ w mod 10) # digits_w w n"
proof (induction w arbitrary: n)
  case (Suc w)
  have "n div 10 div 10 ^ w = n div 10 ^ Suc w" by (simp add: div_mult2_eq)
  with Suc [of "n div 10"] show ?case by simp
qed simp

lemma read_loop_digits: "read_loop w (digits_w w n @ r) v = Some (v * 10 ^ w + of_nat (n mod 10 ^ w), r)"
proof (induction w arbitrary: v)
  case (Suc w)
  have d: "n div 10 ^ w mod 10 < 10" by simp
  have "n mod 10 ^ Suc w = (n div 10 ^ w mod 10) * 10 ^ w + n mod 10 ^ w"
    by (simp only: power_Suc2 mod_mult2_eq) (simp add: mult.commute)
  then have m: "(of_nat (n mod 10 ^ Suc w) :: u16) = of_nat (n div 10 ^ w mod 10) * 10 ^ w + of_nat (n mod 10 ^ w)"
    by (simp del: power_Suc)
  show ?case
    unfolding digits_w_Cons m using Suc.IH d by (simp add: algebra_simps)
qed simp

lemma read_digits_digits: "n < 10 ^ w \<Longrightarrow> read_digits (digits_w w n @ r) w = Some (of_nat n, r)"
  by (simp add: read_digits_def read_loop_digits)

lemma read_digits_zpad: "n < 10 ^ w \<Longrightarrow> 0 < w \<Longrightarrow> read_digits (zpad w n @ r) w = Some (of_nat n, r)"
  by (simp add: zpad_digits_w read_digits_digits)

lemma field_zpad: "n < 10 ^ w \<Longrightarrow> 0 < w \<Longrightarrow> field w sep (zpad w n @ sep # r) = Some (of_nat n, r)"
  by (simp add: field_def read_digits_zpad expect_def)

lemma zpad_int_nonneg: "0 \<le> v \<Longrightarrow> zpad_int w v = zpad w (nat v)"
  by (simp add: zpad_int_def)

lemma of_nat_sint_nonneg: "0 \<le> sint (y :: 'a::len word) \<Longrightarrow> of_nat (nat (sint y)) = y"
  by simp

lemma year_field:
  assumes "0 \<le> sint (y :: i16)" "sint y < 10000"
  shows "field 4 sep (zpad_int 4 (sint y) @ sep # r) = Some (y, r)"
proof -
  have "nat (sint y) < 10 ^ 4" using assms by simp
  from field_zpad [OF this, of sep r] show ?thesis
    using assms by (simp add: zpad_int_nonneg of_nat_sint_nonneg)
qed

text \<open>The values the ISO text can carry: a year of four digits, two-digit fields, less than a
  second of nanoseconds.\<close>

definition iso_date :: "date \<Rightarrow> bool" where
  "iso_date d \<longleftrightarrow> 0 \<le> sint (d_year d) \<and> sint (d_year d) < 10000 \<and> unat (d_month d) < 100 \<and> unat (d_day d) < 100"

definition iso_time :: "time \<Rightarrow> bool" where
  "iso_time t \<longleftrightarrow> unat (t_hour t) < 100 \<and> unat (t_minute t) < 100 \<and> unat (t_second t) < 100"

definition iso_timestamp :: "timestamp \<Rightarrow> bool" where
  "iso_timestamp t \<longleftrightarrow> 0 \<le> sint (ts_year t) \<and> sint (ts_year t) < 10000 \<and> unat (ts_month t) < 100
     \<and> unat (ts_day t) < 100 \<and> unat (ts_hour t) < 100 \<and> unat (ts_minute t) < 100 \<and> unat (ts_second t) < 100
     \<and> unat (ts_fraction t) < 1000000000"

lemma parse_format_date: "iso_date d \<Longrightarrow> parse_date (format_date d) = Some d"
proof -
  assume i: "iso_date d"
  have "read_digits (zpad 2 (unat (d_day d))) 2 = Some (d_day d, [])"
    using i read_digits_zpad [of "unat (d_day d)" 2 "[]"] by (simp add: iso_date_def)
  with i show ?thesis
    by (simp add: iso_date_def parse_date_def format_date_def field_zpad year_field)
qed

lemma parse_format_time: "iso_time t \<Longrightarrow> parse_time (format_time t) = Some t"
proof -
  assume i: "iso_time t"
  have "read_digits (zpad 2 (unat (t_second t))) 2 = Some (t_second t, [])"
    using i read_digits_zpad [of "unat (t_second t)" 2 "[]"] by (simp add: iso_time_def)
  with i show ?thesis
    by (simp add: iso_time_def parse_time_def format_time_def field_zpad)
qed

lemma scale_step: "k < 9 \<Longrightarrow> (10 ^ k :: u32) div 10 = (if k = 0 then 0 else 10 ^ (k - 1))"
proof -
  assume "k < 9"
  then have "k \<in> {0, 1, 2, 3, 4, 5, 6, 7, 8}" by auto
  then show ?thesis by auto
qed

lemma fraction_loop_digits:
  "w \<le> 9 \<Longrightarrow> fraction_loop (digits_w w n) (if w = 0 then 0 else 10 ^ (w - 1)) v = (v + of_nat (n mod 10 ^ w), [])"
proof (induction w arbitrary: v)
  case (Suc w)
  have d: "n div 10 ^ w mod 10 < 10" by simp
  have "n mod 10 ^ Suc w = (n div 10 ^ w mod 10) * 10 ^ w + n mod 10 ^ w"
    by (simp only: power_Suc2 mod_mult2_eq) (simp add: mult.commute)
  then have m: "(of_nat (n mod 10 ^ Suc w) :: u32) = of_nat (n div 10 ^ w mod 10) * 10 ^ w + of_nat (n mod 10 ^ w)"
    by (simp del: power_Suc)
  have sc: "(10 ^ w :: u32) div 10 = (if w = 0 then 0 else 10 ^ (w - 1))" using Suc.prems by (intro scale_step) simp
  show ?case
    unfolding digits_w_Cons m using Suc.IH Suc.prems d by (simp add: sc add.assoc)
qed simp

lemma read_fraction_zpad: "unat f < 1000000000 \<Longrightarrow> fst (read_fraction (CHR ''.'' # zpad 9 (unat f))) = f"
  using fraction_loop_digits [of 9 "unat f" 0] by (simp add: read_fraction_def zpad_digits_w)

lemma parse_format_timestamp: "iso_timestamp t \<Longrightarrow> parse_timestamp (format_timestamp t) = Some t"
proof -
  assume i: "iso_timestamp t"
  have d: "read_digits (zpad 2 (unat (ts_day t)) @ r) 2 = Some (ts_day t, r)" for r
    using i read_digits_zpad [of "unat (ts_day t)" 2] by (simp add: iso_timestamp_def)
  have s: "read_digits (zpad 2 (unat (ts_second t)) @ r) 2 = Some (ts_second t, r)" for r
    using i read_digits_zpad [of "unat (ts_second t)" 2] by (simp add: iso_timestamp_def)
  show ?thesis
    using i by (simp add: iso_timestamp_def parse_timestamp_def format_timestamp_def
        field_zpad year_field d s skip_separator_def read_fraction_zpad)
qed

text \<open>No text makes the nanoseconds overflow or reach a full second.\<close>

lemma fraction_loop_bound:
  "unat nanos + max 1 (10 * unat scale) \<le> 1000000000 \<Longrightarrow> unat (fst (fraction_loop sv scale nanos)) < 1000000000"
proof (induction sv scale nanos rule: fraction_loop.induct)
  case (2 c r scale nanos)
  show ?case
  proof (cases "is_digit c")
    case True
    then have dv: "digit_val c \<le> 9" unfolding is_digit_def digit_val_def by linarith
    have le: "digit_val c * unat scale \<le> 9 * unat scale" using dv by simp
    have small: "unat nanos + 9 * unat scale < 2 ^ 32" using 2(2) by simp
    have sum: "unat nanos + digit_val c * unat scale < 2 ^ 32" using le small by linarith
    have "unat (of_nat (digit_val c) * scale) = digit_val c * unat scale"
      using le_less_trans [OF le, of "2 ^ 32"] small dv
      by (subst unat_mult_lem [THEN iffD1]) (simp_all add: unat_of_nat)
    moreover have "unat (nanos + of_nat (digit_val c) * scale) = unat nanos + unat (of_nat (digit_val c) * scale)"
      using calculation sum by (subst unat_add_lem [THEN iffD1]) simp_all
    ultimately have v: "unat (nanos + of_nat (digit_val c) * scale) \<le> unat nanos + 9 * unat scale"
      using le by simp
    have s: "unat (scale div 10) = unat scale div 10" by (simp add: unat_div)
    have "unat (nanos + of_nat (digit_val c) * scale) + max 1 (10 * unat (scale div 10)) \<le> 1000000000"
      using v s 2(2) by (cases "unat scale = 0") (auto simp: max_def split: if_splits)
    with 2(1) True show ?thesis by simp
  qed (use 2 in simp)
qed simp

lemma read_fraction_bound: "unat (fst (read_fraction sv)) < 1000000000"
  using fraction_loop_bound [of 0 100000000] by (auto simp: read_fraction_def split: list.splits)

subsection \<open>Hexadecimal text\<close>

lemma hex_val_hex_digit: "k < 16 \<Longrightarrow> hex_val (hex_digit k) = of_nat k \<and> hex_digit k \<noteq> CHR ''-''"
proof -
  assume "k < 16"
  then have "k \<in> set [0..<16]" by simp
  then show ?thesis by (auto simp: upt_rec hex_digit_def hex_val_def)
qed

lemma of_nat_small_neq_ff: "k < 16 \<Longrightarrow> (of_nat k :: u8) \<noteq> 0xff"
  by (auto simp: word_unat_eq_iff unat_of_nat)

lemma nibbles_drop: "(of_nat (unat (b :: u8) div 16) :: u8) = drop_bit 4 b"
  by (simp add: word_unat_eq_iff unat_of_nat drop_bit_eq_div unat_div) (metis div_le_dividend le_less_trans mod_less unat_u8_less)

lemma nibbles_take: "(of_nat (unat (b :: u8) mod 16) :: u8) = take_bit 4 b"
  by (simp add: word_unat_eq_iff unat_of_nat take_bit_eq_mod unat_mod)

lemma byte_of_nibbles_byte:
  "byte_of_nibbles (of_nat (unat b div 16)) (of_nat (unat b mod 16)) = b"
  unfolding nibbles_drop nibbles_take byte_of_nibbles_def
  by (rule bit_word_eqI) (auto simp: bit_simps)

lemma unat_div_16: "unat (b :: u8) div 16 < 16"
  using unat_u8_less [of b] by (intro less_mult_imp_div_less) simp

lemma hex2_cases:
  obtains h l where "hex2 b = [h, l]" "h \<noteq> CHR ''-''" "hex_val h \<noteq> 0xff" "hex_val l \<noteq> 0xff"
    "byte_of_nibbles (hex_val h) (hex_val l) = b"
proof -
  have l: "unat b mod 16 < 16" by simp
  show thesis
    using that [of "hex_digit (unat b div 16)" "hex_digit (unat b mod 16)"]
      hex_val_hex_digit [OF unat_div_16 [of b]] hex_val_hex_digit [OF l] of_nat_small_neq_ff [OF unat_div_16 [of b]]
      of_nat_small_neq_ff [OF l] byte_of_nibbles_byte [of b]
    by (simp add: hex2_def)
qed

lemma guid_bytes_hex2: "length acc < 16 \<Longrightarrow> guid_bytes (hex2 b @ r) acc = guid_bytes r (acc @ [b])"
  by (rule hex2_cases [of b]) auto

lemma guid_bytes_hyphen: "length acc < 16 \<Longrightarrow> guid_bytes (CHR ''-'' # r) acc = guid_bytes r acc"
  by simp

lemma decode_pairs_hex2: "decode_pairs (concat (map hex2 bs)) cap = take cap bs"
proof (induction bs arbitrary: cap)
  case (Cons b bs)
  show ?case
    by (rule hex2_cases [of b]) (cases cap, auto simp: Cons)
qed simp

lemma decode_encode_bytea: "decode_bytea (encode_bytea bs) cap = take cap bs"
  using decode_pairs_hex2 [of bs cap] by (simp add: decode_bytea_def encode_bytea_def hex_pad_2)

lemma length_decode_pairs: "length (decode_pairs sv cap) \<le> cap"
  by (induction sv cap rule: decode_pairs.induct) auto

lemma length_decode_bytea: "length (decode_bytea sv cap) \<le> cap"
  unfolding decode_bytea_def by (rule length_decode_pairs)

lemma length_decode_bytea_text: "2 * length (decode_bytea sv cap) \<le> length sv"
proof -
  have "2 * length (decode_pairs t c) \<le> length t" for t c
    by (induction t c rule: decode_pairs.induct) auto
  from this [of sv cap] this [of "drop 2 sv" cap] show ?thesis unfolding decode_bytea_def by auto
qed

subsection \<open>Guids\<close>

lemma unat_ucast_u16_u8: "unat (ucast (w :: u16) :: u8) = unat w mod 256"
  and unat_ucast_u32_u16: "unat (ucast (d :: u32) :: u16) = unat d mod 65536"
  by (simp_all add: unsigned_ucast_eq take_bit_eq_mod)

lemma unat_drop_u16: "unat (drop_bit 8 (w :: u16)) = unat w div 256"
  and unat_drop_u32: "unat (drop_bit 16 (d :: u32)) = unat d div 65536"
  by (simp_all add: drop_bit_eq_div unat_div)

definition u16_bytes :: "u16 \<Rightarrow> u8 list" where
  "u16_bytes w = [ucast (drop_bit 8 w), ucast w]"

definition u32_bytes :: "u32 \<Rightarrow> u8 list" where
  "u32_bytes d = u16_bytes (ucast (drop_bit 16 d)) @ u16_bytes (ucast d)"

lemma hex_pad_u16: "hex_pad 4 (unat (w :: u16)) = concat (map hex2 (u16_bytes w))"
proof -
  have "unat w div 256 < 256" using unat_u16_less [of w] by (intro less_mult_imp_div_less) simp
  then have hi: "unat (ucast (drop_bit 8 w) :: u8) = unat w div 256"
    by (simp add: unat_ucast_u16_u8 unat_drop_u16)
  have "hex_pad 4 (unat w) = hex_pad 2 (unat w div 256) @ hex_pad 2 (unat w mod 256)"
    using hex_pad_add [of 2 2 "unat w"] by simp
  also have "\<dots> = hex2 (ucast (drop_bit 8 w)) @ hex2 (ucast w)"
    using hex_pad_2 [of "ucast (drop_bit 8 w)", unfolded hi]
      hex_pad_2 [of "ucast w", unfolded unat_ucast_u16_u8] by simp
  finally show ?thesis by (simp add: u16_bytes_def)
qed

lemma hex_pad_u32: "hex_pad 8 (unat (d :: u32)) = concat (map hex2 (u32_bytes d))"
proof -
  have "unat d div 65536 < 65536" using unat_u32_less [of d] by (intro less_mult_imp_div_less) simp
  then have hi: "unat (ucast (drop_bit 16 d) :: u16) = unat d div 65536"
    by (simp add: unat_ucast_u32_u16 unat_drop_u32)
  have "hex_pad 8 (unat d) = hex_pad 4 (unat d div 65536) @ hex_pad 4 (unat d mod 65536)"
    using hex_pad_add [of 4 4 "unat d"] by simp
  also have "\<dots> = hex_pad 4 (unat (ucast (drop_bit 16 d) :: u16)) @ hex_pad 4 (unat (ucast d :: u16))"
    unfolding hi by (simp add: unat_ucast_u32_u16)
  finally show ?thesis by (simp add: hex_pad_u16 u32_bytes_def)
qed

lemma length_data4:
  "length d4 = 8 \<Longrightarrow> d4 = [d4 ! 0, d4 ! 1, d4 ! 2, d4 ! 3, d4 ! 4, d4 ! 5, d4 ! 6, d4 ! (7::nat)]"
  by (auto simp: numeral_eq_Suc length_Suc_conv)

lemma guid_bytes_all:
  "length acc + length bs \<le> 16 \<Longrightarrow> guid_bytes (concat (map hex2 bs) @ r) acc = guid_bytes r (acc @ bs)"
proof (induction bs arbitrary: acc)
  case (Cons b bs)
  then show ?case using guid_bytes_hex2 [of acc b "concat (map hex2 bs) @ r"] by simp
qed simp

lemma length_u16_bytes [simp]: "length (u16_bytes w) = 2"
  and length_u32_bytes [simp]: "length (u32_bytes d) = 4"
  by (simp_all add: u16_bytes_def u32_bytes_def)

lemma guid_text_bytes:
  "guid_text g = concat (map hex2 (u32_bytes (g_data1 g))) @ ''-'' @ concat (map hex2 (u16_bytes (g_data2 g)))
     @ ''-'' @ concat (map hex2 (u16_bytes (g_data3 g))) @ ''-'' @ concat (map hex2 [g_data4 g ! 0, g_data4 g ! 1])
     @ ''-'' @ concat (map hex2 [g_data4 g ! 2, g_data4 g ! 3, g_data4 g ! 4, g_data4 g ! 5, g_data4 g ! 6, g_data4 g ! 7])"
  by (simp add: guid_text_def hex_pad_u16 hex_pad_u32 hex_pad_2)

lemma length_concat_hex2: "length (concat (map hex2 bs)) = 2 * length bs"
  by (induction bs) auto

lemma length_guid_text: "length (guid_text g) = 36"
  by (simp add: guid_text_bytes length_concat_hex2)

lemma format_guid_eq: "format_guid g = guid_text g"
  by (simp add: format_guid_def fmt_guid_def snprintf_def view_def written_len_def length_guid_text)

lemma guid_text_scanned:
  assumes "length (g_data4 g) = 8"
  shows "guid_bytes (guid_text g) [] = Some (u32_bytes (g_data1 g) @ u16_bytes (g_data2 g) @ u16_bytes (g_data3 g) @ g_data4 g)"
proof -
  let ?d = "g_data4 g"
  have last: "guid_bytes (concat (map hex2 bs)) acc = Some (acc @ bs)" if "length acc + length bs \<le> 16" for acc bs
    using guid_bytes_all [OF that, of "[]"] by simp
  have "guid_bytes (guid_text g) [] = Some (u32_bytes (g_data1 g) @ u16_bytes (g_data2 g) @ u16_bytes (g_data3 g)
      @ [?d ! 0, ?d ! 1] @ [?d ! 2, ?d ! 3, ?d ! 4, ?d ! 5, ?d ! 6, ?d ! 7])"
    unfolding guid_text_bytes
    by (simp only: append_Cons append_Nil)
       (simp add: guid_bytes_all last del: concat.simps list.map(2))
  then show ?thesis using length_data4 [OF assms] by simp
qed

lemma recombine_u32:
  "push_bit 24 (ucast (u32_bytes d ! 0)) OR push_bit 16 (ucast (u32_bytes d ! 1)) OR push_bit 8 (ucast (u32_bytes d ! 2))
     OR ucast (u32_bytes d ! 3) = (d :: u32)"
  unfolding u32_bytes_def u16_bytes_def
  by (rule bit_word_eqI) (auto simp: bit_simps nth_append)

lemma recombine_u16:
  "ucast (push_bit 8 (ucast (u16_bytes w ! 0) :: u32) OR ucast (u16_bytes w ! 1)) = (w :: u16)"
  unfolding u16_bytes_def by (rule bit_word_eqI) (auto simp: bit_simps)

lemma parse_format_guid: "length (g_data4 g) = 8 \<Longrightarrow> parse_guid (format_guid g) = Some g"
  using recombine_u32 [of "g_data1 g"] recombine_u16 [of "g_data2 g"] recombine_u16 [of "g_data3 g"]
  by (simp add: parse_guid_def format_guid_eq guid_text_scanned nth_append u32_bytes_def u16_bytes_def)

subsection \<open>Integers\<close>

lemma takeWhile_dec: "takeWhile is_digit (dec n) = dec n"
  using dec_all_digits [of n] by (simp add: takeWhile_eq_all_conv)

lemma dec_no_minus: "hd (dec n) \<noteq> CHR ''-''"
proof -
  have "is_digit (hd (dec n))" using dec_all_digits [of n] dec_ne [of n] by (metis hd_in_set)
  then show ?thesis by (auto simp: is_digit_def)
qed

lemma from_chars_dec_int:
  "- (2 ^ (w - 1)) \<le> v \<Longrightarrow> v < 2 ^ (w - 1) \<Longrightarrow> from_chars_int w (dec_int v) = Some v"
  by (auto simp: from_chars_int_def dec_int_def takeWhile_dec dec_no_minus Let_def)

lemma from_chars_sint: "from_chars_int LENGTH('a) (dec_int (sint (v :: 'a::len word))) = Some (sint v)"
  using sint_lt [of v] sint_ge [of v] by (intro from_chars_dec_int) simp_all

lemmas from_chars_fixed =
  from_chars_sint [where 'a = 8, simplified] from_chars_sint [where 'a = 16, simplified]
  from_chars_sint [where 'a = 32, simplified] from_chars_sint [where 'a = 64, simplified]

subsection \<open>Properties of the conversions\<close>

text \<open>C39: a date, a time, a timestamp and a guid sent to the server as text read back as the same
  value, for every value the ISO text can carry: years 0 to 9999, fields of two digits,
  nanoseconds below one second; a guid without exception.\<close>

theorem structure_text_roundtrip:
  "(iso_date d \<longrightarrow> parse_date (format_date d) = Some d)
   \<and> (iso_time t \<longrightarrow> parse_time (format_time t) = Some t)
   \<and> (iso_timestamp ts \<longrightarrow> parse_timestamp (format_timestamp ts) = Some ts)
   \<and> (length (g_data4 g) = 8 \<longrightarrow> parse_guid (format_guid g) = Some g)"
  by (simp add: parse_format_date parse_format_time parse_format_timestamp parse_format_guid)

theorem structure_text_roundtrip_witness:
  "parse_timestamp (format_timestamp \<lparr>ts_year = 2024, ts_month = 2, ts_day = 29, ts_hour = 23,
     ts_minute = 59, ts_second = 58, ts_fraction = 120000000\<rparr>)
   = Some \<lparr>ts_year = 2024, ts_month = 2, ts_day = 29, ts_hour = 23,
     ts_minute = 59, ts_second = 58, ts_fraction = 120000000\<rparr>"
  using structure_text_roundtrip [of undefined undefined "\<lparr>ts_year = 2024, ts_month = 2, ts_day = 29,
     ts_hour = 23, ts_minute = 59, ts_second = 58, ts_fraction = 120000000\<rparr>" undefined]
  by (simp add: iso_timestamp_def)

lemma read_loop_bound: "n \<le> 4 \<Longrightarrow> unat v < 10 ^ (4 - n) \<Longrightarrow> read_loop n sv v = Some (w, r) \<Longrightarrow> unat w < 10000"
proof (induction n arbitrary: sv v)
  case (Suc n)
  from Suc.prems obtain c r' where sv: "sv = c # r'" "is_digit c"
    "read_loop n r' (v * 10 + of_nat (digit_val c)) = Some (w, r)"
    by (auto split: list.splits if_splits)
  have dv: "digit_val c \<le> 9" using sv(2) unfolding is_digit_def digit_val_def by linarith
  have p: "10 * (10::nat) ^ (4 - Suc n) = 10 ^ (4 - n)" using Suc.prems(1) by (simp add: Suc_diff_Suc flip: power_Suc)
  have le: "(10::nat) ^ (4 - n) \<le> 10 ^ 4" by (intro power_increasing) auto
  have vb: "unat v * 10 + digit_val c < 10 ^ (4 - n)" using Suc.prems(2) dv p by linarith
  have m: "unat (v * 10) = unat v * 10" using vb le by (subst unat_mult_lem [THEN iffD1]) simp_all
  have "unat (v * 10 + of_nat (digit_val c)) = unat v * 10 + digit_val c"
    using vb le dv m by (subst unat_add_lem [THEN iffD1]) (simp_all add: unat_of_nat)
  with Suc.IH [OF _ _ sv(3)] vb Suc.prems(1) show ?case by simp
qed simp

text \<open>whatever text the server sends, the fractional seconds that are read never reach a full
  second (so the 32-bit sum of nanoseconds never wraps), and a year never exceeds four digits.\<close>

theorem parse_timestamp_bounds:
  assumes "parse_timestamp sv = Some ts"
  shows "unat (ts_fraction ts) < 1000000000 \<and> unat (ts_year ts) < 10000"
proof -
  from assms obtain y r where f: "field 4 (CHR ''-'') sv = Some (y, r)" "ts_year ts = y"
    by (auto simp: parse_timestamp_def bind_eq_Some_conv)
  then have "unat y < 10000"
    using read_loop_bound [of 4 0] by (auto simp: field_def bind_eq_Some_conv read_digits_def split: if_splits)
  moreover have "\<exists>s. ts_fraction ts = fst (read_fraction s)"
    using assms by (auto simp: parse_timestamp_def bind_eq_Some_conv)
  ultimately show ?thesis using f(2) read_fraction_bound by auto
qed

theorem parse_timestamp_bounds_witness:
  "\<exists>ts. parse_timestamp ''1999-01-02T03:04:05.1234567899Z'' = Some ts \<and> unat (ts_fraction ts) = 123456789
     \<and> unat (ts_fraction ts) < 1000000000"
proof -
  have ts: "parse_timestamp ''1999-01-02T03:04:05.1234567899Z'' = Some \<lparr>ts_year = 1999, ts_month = 1,
      ts_day = 2, ts_hour = 3, ts_minute = 4, ts_second = 5, ts_fraction = 123456789\<rparr>"
    by code_simp
  from parse_timestamp_bounds [OF ts] ts show ?thesis by auto
qed

text \<open>binary data survives the text form: decoding an encoded byte string gives the bytes back, cut
  at the capacity of the column; and no text whatever makes the decoder write past the capacity.\<close>

theorem bytea_roundtrip:
  "decode_bytea (encode_bytea bs) cap = take cap bs \<and> length (decode_bytea sv cap) \<le> cap"
  by (simp add: decode_encode_bytea length_decode_bytea)

subsection \<open>Properties of the slots\<close>

lemma slot_at_set [simp]:
  "row < length (co_values c) \<Longrightarrow> slot_at (set_slot row s c) row = s"
  "r \<noteq> row \<Longrightarrow> slot_at (set_slot row s c) r = slot_at c r"
  "slot_at (set_ind row v c) r = slot_at c r"
  "co_ind (set_slot row s c) = co_ind c"
  "co_ind (set_ind row v c) = (co_ind c)[row := v]"
  "co_values (set_ind row v c) = co_values c"
  "co_values (set_slot row s c) = (co_values c)[row := s]"
  by (auto simp: slot_at_def set_slot_def set_ind_def)

lemma column_ok_set_slot: "column_ok rows d c \<Longrightarrow> slot_ok d s \<Longrightarrow> column_ok rows d (set_slot row s c)"
  by (auto simp: column_ok_def list_all_iff dest!: set_update_subset_insert [THEN subsetD])

lemma column_ok_set_ind: "column_ok rows d c \<Longrightarrow> column_ok rows d (set_ind row v c)"
  by (auto simp: column_ok_def)

lemma column_ok_slot: "column_ok rows d c \<Longrightarrow> row < rows \<Longrightarrow> slot_ok d (slot_at c row)"
  by (auto simp: column_ok_def slot_at_def list_all_length)

lemma store_atomic_ok:
  "bd_category d = cat_atomic \<Longrightarrow> slot_ok d s \<Longrightarrow> slot_ok d (snd (store_atomic fo (bd_type d) t s))"
  by (auto simp: store_atomic_def slot_ok_def put_slot_def Let_def split: option.splits if_splits)

lemma guid_bytes_length: "guid_bytes sv b = Some b' \<Longrightarrow> length b \<le> 16 \<Longrightarrow> length b' \<le> 16"
  by (induction sv b rule: guid_bytes.induct) (auto split: if_splits list.splits)

lemma parse_guid_data4: "parse_guid sv = Some g \<Longrightarrow> length (g_data4 g) = 8"
  by (auto simp: parse_guid_def bind_eq_Some_conv split: if_splits)

lemma store_structure_ok:
  "bd_category d = cat_structure \<Longrightarrow> slot_ok d s \<Longrightarrow> slot_ok d (snd (store_structure (bd_type d) t s))"
  by (auto simp: store_structure_def slot_ok_def put_slot_def Let_def parse_guid_data4
      split: option.splits if_splits)

lemma store_c_string_ok:
  assumes "column_ok rows d c" "row < rows" "bd_category d = cat_c_string"
  shows "column_ok rows d (store_c_string d row t c)"
proof -
  obtain cs where "slot_at c row = Sl_chars cs" "length cs = unat (bd_column_size d) + 1"
    using column_ok_slot [OF assms(1,2)] assms(3) by (auto simp: slot_ok_def Let_def split: slot.splits)
  then show ?thesis
    unfolding store_c_string_def Let_def using assms
    by (intro column_ok_set_ind column_ok_set_slot) (auto simp: slot_ok_def chars_of_def)
qed

lemma store_b_string_ok:
  assumes "column_ok rows d c" "row < rows" "bd_category d = cat_b_string"
  shows "column_ok rows d (store_b_string d row t c)"
proof -
  obtain bs where "slot_at c row = Sl_bytes bs" "length bs = unat (bd_column_size d)"
    using column_ok_slot [OF assms(1,2)] assms(3) by (auto simp: slot_ok_def Let_def split: slot.splits)
  then show ?thesis
    unfolding store_b_string_def Let_def using assms length_decode_bytea [of t "unat (bd_column_size d)"]
    by (intro column_ok_set_ind column_ok_set_slot) (auto simp: slot_ok_def bytes_of_def)
qed

lemma store_value_ok:
  assumes "column_ok rows d c" "row < rows"
  shows "column_ok rows d (snd (store_value fo d row t c))"
proof (cases "bd_category d")
  case cat_atomic
  then show ?thesis
    using assms store_atomic_ok [OF cat_atomic column_ok_slot [OF assms]]
    by (auto simp: store_value_def split_beta Let_def intro: column_ok_set_slot)
next
  case cat_structure
  then show ?thesis
    using assms store_structure_ok [OF cat_structure column_ok_slot [OF assms]]
    by (auto simp: store_value_def split_beta Let_def intro: column_ok_set_slot)
qed (use assms in \<open>simp_all add: store_value_def store_c_string_ok store_b_string_ok\<close>)

lemma store_value_other_rows:
  "r \<noteq> row \<Longrightarrow> slot_at (snd (store_value fo d row t c)) r = slot_at c r
     \<and> co_ind (snd (store_value fo d row t c)) ! r = co_ind c ! r"
  by (cases "bd_category d")
     (simp_all add: store_value_def split_beta Let_def store_c_string_def store_b_string_def)

lemma store_value_indicator:
  "bd_category d \<in> {cat_atomic, cat_structure, cat_w_string} \<Longrightarrow> co_ind (snd (store_value fo d row t c)) = co_ind c"
  by (auto simp: store_value_def split_beta Let_def)


definition example_chars :: buffer_dscr_const where
  "example_chars = \<lparr>bd_name = ''name'', bd_category = cat_c_string, bd_base_type = ''char'',
     bd_type = st_var_char, bd_column_size = 3, bd_decimal_digits = 0\<rparr>"

definition example_column :: "(nat, nat) column" where
  "example_column = \<lparr>co_values = [Sl_chars (replicate 4 (CHR 0x00)), Sl_chars (replicate 4 (CHR 0x00))],
     co_ind = [0, 0]\<rparr>"

lemma example_column_ok: "column_ok 2 example_chars example_column"
  by (simp add: column_ok_def example_column_def example_chars_def slot_ok_def)


lemma unat_scast_ind: "n < 2 ^ 31 \<Longrightarrow> unat (scast (of_nat n :: i32) :: u64) = n"
proof -
  assume n: "n < 2 ^ 31"
  have "sint (of_nat n :: i32) = int n" by (rule sint_of_nat_32 [OF n])
  moreover have "int n mod 2 ^ 64 = int n" using n by (intro mod_pos_pos_trivial) auto
  ultimately show ?thesis by (simp only: scast_eq unat_eq_nat_uint uint_word_of_int) simp
qed

text \<open>a text column holds what was stored in it, cut at the declared width: loading the row gives
  the text back when it fits and its first \<open>column_size\<close> bytes when it does not, the indicator is
  the number of bytes kept, and the byte behind them is the terminator.\<close>

theorem c_string_store_load:
  assumes "column_ok rows d c" "row < rows" "bd_category d = cat_c_string" "unat (bd_column_size d) < 2 ^ 31"
  shows "let c' = snd (store_value fo d row t c); n = min (length t) (unat (bd_column_size d)) in
      load_value fo d c' row = take (unat (bd_column_size d)) t
    \<and> sint (co_ind c' ! row) = int n
    \<and> chars_of (slot_at c' row) ! n = CHR 0x00"
proof -
  obtain cs where cs: "slot_at c row = Sl_chars cs" "length cs = unat (bd_column_size d) + 1"
    using column_ok_slot [OF assms(1,2)] assms(3) by (auto simp: slot_ok_def Let_def split: slot.splits)
  have r: "row < length (co_values c)" "row < length (co_ind c)" using assms(1,2) by (auto simp: column_ok_def)
  define n where "n = min (length t) (unat (bd_column_size d))"
  have n: "n < 2 ^ 31" "n \<le> length t" "n < length (take n t @ drop n cs)"
    using assms(4) cs(2) by (auto simp: n_def)
  have st: "snd (store_value fo d row t c)
      = set_ind row (of_nat n) (set_slot row (Sl_chars ((take n t @ drop n cs)[n := CHR 0x00])) c)"
    using assms(3) cs(1) by (simp add: store_value_def store_c_string_def Let_def n_def chars_of_def)
  have "take n t = take (unat (bd_column_size d)) t" by (auto simp: n_def min_def)
  with n r show ?thesis
    unfolding st Let_def n_def [symmetric]
    by (simp add: load_value_def assms(3) load_c_string_def used_len_def chars_of_def unat_scast_ind
        sint_of_nat_32) (simp add: n_def)
qed

theorem c_string_store_load_witness:
  "load_value undefined example_chars (snd (store_value undefined example_chars 1 ''abcdef'' example_column)) 1 = ''abc''"
  using c_string_store_load [OF example_column_ok, of 1 undefined "''abcdef''"]
  by (simp add: example_chars_def Let_def)

text \<open>The structure values whose text the server's ISO form can carry.\<close>

definition sendable :: "('f, 'd) slot \<Rightarrow> bool" where
  "sendable s = (case s of
      Sl_date v \<Rightarrow> iso_date v | Sl_time v \<Rightarrow> iso_time v | Sl_timestamp v \<Rightarrow> iso_timestamp v
    | Sl_interval _ \<Rightarrow> False | Sl_void \<Rightarrow> False | _ \<Rightarrow> True)"

definition float_text_exact :: "('f, 'd) float_ops \<Rightarrow> bool" where
  "float_text_exact fo \<longleftrightarrow> (\<forall>x. fo_parse_float fo (fo_format_float fo x) = Some x)
     \<and> (\<forall>x. fo_parse_double fo (fo_format_double fo x) = Some x)"

lemma load_store_atomic:
  assumes "bd_category d = cat_atomic" "bd_type d \<in> {st_smallint, st_integer, st_bigint, st_tiny_int, st_real,
      st_float, st_double, st_bit}" "slot_ok d s" "float_text_exact fo"
  shows "store_atomic fo (bd_type d) (load_atomic fo (bd_type d) s) s' = (True, s)"
proof -
  note defs = store_atomic_def load_atomic_def slot_ok_def put_slot_def Let_def
  from assms(2) consider "bd_type d = st_smallint" | "bd_type d = st_integer" | "bd_type d = st_bigint"
    | "bd_type d = st_tiny_int" | "bd_type d = st_real" | "bd_type d = st_float" | "bd_type d = st_double"
    | "bd_type d = st_bit" by auto
  then show ?thesis
    by cases (use assms(1,3,4) in \<open>cases s; simp add: defs float_text_exact_def from_chars_fixed\<close>)+
qed

lemma load_store_structure:
  assumes "bd_category d = cat_structure" "slot_ok d s" "sendable s"
  shows "store_structure (bd_type d) (load_structure (bd_type d) s) s' = (True, s)"
  using assms
  by (cases s; auto simp: store_structure_def load_structure_def slot_ok_def put_slot_def Let_def sendable_def
      is_date_type_def is_time_type_def is_timestamp_type_def
      parse_format_date parse_format_time parse_format_timestamp parse_format_guid split: if_splits)


definition example_int :: buffer_dscr_const where
  "example_int = \<lparr>bd_name = ''id'', bd_category = cat_atomic, bd_base_type = ''int16_t'',
     bd_type = st_smallint, bd_column_size = 2, bd_decimal_digits = 0\<rparr>"

definition unit_floats :: "(unit, unit) float_ops" where
  "unit_floats = \<lparr>fo_parse_float = \<lambda>_. Some (), fo_parse_double = \<lambda>_. Some (),
     fo_format_float = \<lambda>_. [], fo_format_double = \<lambda>_. []\<rparr>"


end
