(* ===== verification/Psql_Query.thy ===== *)
theory Psql_Query
  imports Psql_Values Db_Error Row_Cursor
begin

text \<open>
  A prepared statement with its parameter and result buffers on PostgreSQL
  (\<open>src/rtl/psql/query.hpp\<close>). What libpq answers is an argument of the operations: a result
  (null, or status, diagnostics, tuples), or the outcomes of the pipeline calls. The values of
  the \<open>PGRES_\<close> constants are a parameter. The commands a destructor sends are returned, so that
  the ownership of the server side statement can be followed through a move. Lines logged at
  debug and trace level are left out.
\<close>

subsection \<open>Results of libpq\<close>

record pgres_codes =
  pgres_command_ok :: int
  pgres_tuples_ok :: int
  pgres_fatal_error :: int

record pg_result = pg_diag +
  pgr_tuples :: "string option list list"
  pgr_cmd_tuples :: "string option"

text \<open>\<open>PQresultStatus\<close> of a null result is \<open>PGRES_FATAL_ERROR\<close>; \<open>PQgetisnull\<close> of a cell outside the
  result answers null.\<close>

definition PQresultStatus :: "pgres_codes \<Rightarrow> pg_result option \<Rightarrow> int" where
  "PQresultStatus k res = (case res of Some r \<Rightarrow> pgd_status r | None \<Rightarrow> pgres_fatal_error k)"

definition pg_cell :: "pg_result \<Rightarrow> nat \<Rightarrow> nat \<Rightarrow> string option" where
  "pg_cell res row col =
     (if row < length (pgr_tuples res) \<and> col < length (pgr_tuples res ! row)
      then pgr_tuples res ! row ! col else None)"

definition error_from :: "pgres_codes \<Rightarrow> pg_result option \<Rightarrow> string option \<Rightarrow> psql_error" where
  "error_from k res conn_message =
     psql_error_from_result (pgres_fatal_error k) (map_option pg_diag.truncate res) conn_message"

definition client_error :: "pgres_codes \<Rightarrow> string \<Rightarrow> psql_error" where
  "client_error k msg = \<lparr>pe_message = msg, pe_sql_state = [], pe_status = pgres_fatal_error k\<rparr>"

subsection \<open>The statement object\<close>

record ('f, 'd) psql_query =
  pq_db :: bool
  pq_sql :: string
  pq_stmt_name :: string
  pq_prepared :: bool
  pq_bound_par_layout :: u64
  pq_bound_res_layout :: u64
  pq_rows :: "pg_result option"
  pq_next_row :: nat
  pq_total_rows :: nat
  pq_rows_fetched :: nat
  pq_affected_rows :: i64
  pq_par :: "('f, 'd) par_storage buffer_root"
  pq_res :: "('f, 'd) column list buffer_root"

text \<open>\<open>counter.fetch_add(1)\<close> on the one 64-bit counter of the process.\<close>

definition next_stmt_id :: "u64 \<Rightarrow> u64 \<times> u64" where
  "next_stmt_id counter = (counter, counter + 1)"

definition stmt_name_of :: "u64 \<Rightarrow> string" where
  "stmt_name_of n = ''dbgen4_'' @ dec (unat n)"

text \<open>The constructor throws on a null database; otherwise it draws a name from the counter.
  \<open>par0\<close> and \<open>res0\<close> are the freshly made buffers.\<close>

definition make_query ::
  "bool \<Rightarrow> string \<Rightarrow> u64 \<Rightarrow> ('f, 'd) par_storage buffer_root \<Rightarrow> ('f, 'd) column list buffer_root
     \<Rightarrow> (('f, 'd) psql_query \<times> u64) cpp" where
  "make_query db sql counter par0 res0 =
     (if \<not> db then Throws ''db pointer cannot be null''
      else let (n, counter') = next_stmt_id counter in
        Ret (\<lparr>pq_db = True, pq_sql = sql, pq_stmt_name = stmt_name_of n, pq_prepared = False,
              pq_bound_par_layout = 0, pq_bound_res_layout = 0, pq_rows = None, pq_next_row = 0,
              pq_total_rows = 0, pq_rows_fetched = 0, pq_affected_rows = - 1, pq_par = par0, pq_res = res0\<rparr>,
             counter'))"

text \<open>The statement text the destructor sends to the server, if any.\<close>

definition destroy_query :: "('f, 'd) psql_query \<Rightarrow> string list" where
  "destroy_query q = (if pq_prepared q \<and> pq_db q then [''DEALLOCATE '' @ pq_stmt_name q] else [])"

text \<open>The move constructor: the new object and what is left of the source. A moved-from string and
  a moved-from result holder are empty.\<close>

definition move_query :: "('f, 'd) psql_query \<Rightarrow> ('f, 'd) psql_query \<times> ('f, 'd) psql_query" where
  "move_query q = (q, q\<lparr>pq_sql := [], pq_stmt_name := [], pq_rows := None, pq_prepared := False, pq_db := False\<rparr>)"

text \<open>\<open>created\<close>: whether \<open>PQcancelCreate\<close> gave a handle; \<open>sent\<close>: the answer of \<open>PQcancelBlocking\<close>.\<close>

definition cancel_query :: "bool \<Rightarrow> int \<Rightarrow> ('f, 'd) psql_query \<Rightarrow> bool" where
  "cancel_query created sent q = (if \<not> pq_db q then False else if \<not> created then False else sent = 1)"

subsection \<open>Marshalling, preparing, executing\<close>

definition marshal_row ::
  "('f, 'd) float_ops \<Rightarrow> buffer_dscr_const list \<Rightarrow> ('f, 'd) column list \<Rightarrow> nat \<Rightarrow> string option list" where
  "marshal_row fo pd pi row =
     map (\<lambda>(d, c). if co_ind c ! row = null_data then None else Some (load_value fo d c row)) (zip pd pi)"

definition prepare_oids :: "stmt_type \<Rightarrow> oid_t list" where
  "prepare_oids ty = map (\<lambda>c. to_oid (bd_type c)) (sy_pd ty)"

definition prepare ::
  "pgres_codes \<Rightarrow> stmt_type \<Rightarrow> pg_result option \<Rightarrow> string option \<Rightarrow> ('f, 'd) psql_query
     \<Rightarrow> (psql_error + unit) \<times> ('f, 'd) psql_query" where
  "prepare k ty res conn_message q =
     (if PQresultStatus k res \<noteq> pgres_command_ok k then (Inl (error_from k res conn_message), q)
      else (Inr (), q\<lparr>pq_prepared := True,
        pq_bound_par_layout := (if has_p ty then br_layout_generation (pq_par q) else pq_bound_par_layout q),
        pq_bound_res_layout := (if has_r ty then br_layout_generation (pq_res q) else pq_bound_res_layout q)\<rparr>))"

definition check_layout :: "pgres_codes \<Rightarrow> stmt_type \<Rightarrow> ('f, 'd) psql_query \<Rightarrow> psql_error + unit" where
  "check_layout k ty q =
     (if has_p ty \<and> br_layout_generation (pq_par q) \<noteq> pq_bound_par_layout q
      then Inl (client_error k (''parameter buffer was resized after prepare(); ''
        @ ''call set_buffer_size() before prepare(), then prepare() again''))
      else if has_r ty \<and> br_layout_generation (pq_res q) \<noteq> pq_bound_res_layout q
      then Inl (client_error k (''result buffer was resized after prepare(); ''
        @ ''call set_buffer_size() before prepare(), then prepare() again''))
      else Inr ())"

definition par_rows :: "('f, 'd) psql_query \<Rightarrow> nat" where
  "par_rows q = gen_buffer_size (ps_cols (br_storage (pq_par q)))"

text \<open>\<open>PQcmdTuples\<close>: a decimal count, or empty when the command has none; an unreadable one leaves
  \<open>-1\<close>.\<close>

definition affected_of :: "pg_result \<Rightarrow> i64" where
  "affected_of r =
     (case pgr_cmd_tuples r of
        None \<Rightarrow> - 1
      | Some t \<Rightarrow> if t = [] then - 1 else case from_chars_int 64 t of Some v \<Rightarrow> word_of_int v | None \<Rightarrow> - 1)"

definition execute_single ::
  "pgres_codes \<Rightarrow> pg_result option \<Rightarrow> string option \<Rightarrow> ('f, 'd) psql_query
     \<Rightarrow> (psql_error + unit) \<times> ('f, 'd) psql_query" where
  "execute_single k res conn_message q =
     (let status = PQresultStatus k res in
      if status \<noteq> pgres_tuples_ok k \<and> status \<noteq> pgres_command_ok k
      then (Inl (error_from k res conn_message), q)
      else (Inr (), q\<lparr>
        pq_total_rows := (if status = pgres_tuples_ok k
           then (case res of Some r \<Rightarrow> length (pgr_tuples r) | None \<Rightarrow> 0) else 0),
        pq_next_row := 0,
        pq_affected_rows := (case res of Some r \<Rightarrow> affected_of r | None \<Rightarrow> - 1),
        pq_rows := res\<rparr>))"

text \<open>A batch in pipeline mode. The answers: whether the mode could be entered, per row whether it
  could be queued, and per queued row its result.\<close>

record pipeline_answers =
  pa_entered :: bool
  pa_send_ok :: "bool list"
  pa_results :: "pg_result option list"
  pa_conn_message :: "string option"

text \<open>How many rows were queued before the first failure to send.\<close>

definition rows_sent :: "nat \<Rightarrow> bool list \<Rightarrow> nat" where
  "rows_sent rows oks = length (takeWhile (\<lambda>ok. ok) (take rows oks))"

definition row_failed :: "pgres_codes \<Rightarrow> pg_result option \<Rightarrow> bool" where
  "row_failed k res \<longleftrightarrow> PQresultStatus k res \<noteq> pgres_command_ok k \<and> PQresultStatus k res \<noteq> pgres_tuples_ok k"

text \<open>The reading loop: the first error seen so far and the status span, row by row.\<close>

fun read_batch ::
  "pgres_codes \<Rightarrow> string option \<Rightarrow> pg_result option list \<Rightarrow> nat \<Rightarrow> psql_error option \<times> u16 list
     \<Rightarrow> psql_error option \<times> u16 list" where
  "read_batch k msg [] r (first_error, status_span) = (first_error, status_span)"
| "read_batch k msg (res # rest) r (first_error, status_span) =
     (let first_error' = (if first_error = None \<and> row_failed k res then Some (error_from k res msg) else first_error)
      in read_batch k msg rest (Suc r)
           (first_error', status_span[r := (if first_error' = None then param_status_ok else param_status_error)]))"

definition execute_batch ::
  "pgres_codes \<Rightarrow> pipeline_answers \<Rightarrow> ('f, 'd) psql_query \<Rightarrow> (psql_error + unit) \<times> ('f, 'd) psql_query" where
  "execute_batch k ans q =
     (let rows = par_rows q in
      if \<not> pa_entered ans then (Inl (client_error k ''could not enter libpq pipeline mode''), q)
      else
        let sent = rows_sent rows (pa_send_ok ans);
            send_error = (if sent < rows then Some (client_error k
               (case pa_conn_message ans of Some m \<Rightarrow> m | None \<Rightarrow> [])) else None);
            st = br_storage (pq_par q);
            cleared = map (\<lambda>_. 0) (ps_row_status st);
            (first_error, status) = read_batch k (pa_conn_message ans) (take sent (pa_results ans)) 0 (None, cleared);
            q' = q\<lparr>pq_par := (pq_par q)\<lparr>br_storage := st\<lparr>ps_row_status := status\<rparr>\<rparr>\<rparr>
        in case send_error of
             Some e \<Rightarrow> (Inl e, q')
           | None \<Rightarrow>
               (case first_error of
                  Some e \<Rightarrow> (Inl e, q')
                | None \<Rightarrow> (Inr (), q'\<lparr>pq_total_rows := 0, pq_next_row := 0,
                    pq_affected_rows := of_nat rows, pq_rows := None\<rparr>)))"

definition execute ::
  "pgres_codes \<Rightarrow> stmt_type \<Rightarrow> pg_result option \<Rightarrow> string option \<Rightarrow> pipeline_answers \<Rightarrow> ('f, 'd) psql_query
     \<Rightarrow> (psql_error + unit) \<times> ('f, 'd) psql_query" where
  "execute k ty res conn_message ans q =
     (if \<not> pq_prepared q then (Inl (client_error k ''statement is not prepared''), q)
      else case check_layout k ty q of
        Inl e \<Rightarrow> (Inl e, q)
      | Inr _ \<Rightarrow>
          if has_p ty \<and> par_rows q > 1 then execute_batch k ans q
          else execute_single k res conn_message q)"

subsection \<open>Fetching\<close>

text \<open>One cell into row \<open>r\<close> of a column; a value that cannot be converted is logged and becomes
  null.\<close>

definition fetch_cell ::
  "('f, 'd) float_ops \<Rightarrow> nat \<Rightarrow> buffer_dscr_const \<Rightarrow> string option \<Rightarrow> ('f, 'd) column \<Rightarrow> ('f, 'd) column" where
  "fetch_cell fo r d cell c =
     (case cell of
        None \<Rightarrow> set_ind r null_data c
      | Some t \<Rightarrow> (let (ok, c') = store_value fo d r t c in if ok then c' else set_ind r null_data c'))"

definition fetch_warns :: "('f, 'd) float_ops \<Rightarrow> nat \<Rightarrow> buffer_dscr_const \<Rightarrow> string option \<Rightarrow> ('f, 'd) column \<Rightarrow> bool" where
  "fetch_warns fo r d cell c = (case cell of None \<Rightarrow> False | Some t \<Rightarrow> \<not> fst (store_value fo d r t c))"

text \<open>One source row into row \<open>r\<close> of every column.\<close>

definition fetch_row ::
  "('f, 'd) float_ops \<Rightarrow> pg_result \<Rightarrow> nat \<Rightarrow> nat \<Rightarrow> buffer_dscr_const list \<Rightarrow> ('f, 'd) column list \<Rightarrow> ('f, 'd) column list" where
  "fetch_row fo res src_row r rd cols =
     map (\<lambda>i. fetch_cell fo r (rd ! i) (pg_cell res src_row i) (cols ! i)) [0..<length rd]"

primrec fetch_rows ::
  "('f, 'd) float_ops \<Rightarrow> pg_result \<Rightarrow> nat \<Rightarrow> nat \<Rightarrow> buffer_dscr_const list \<Rightarrow> ('f, 'd) column list \<Rightarrow> ('f, 'd) column list" where
  "fetch_rows fo res next_row 0 rd cols = cols"
| "fetch_rows fo res next_row (Suc n) rd cols =
     fetch_row fo res (next_row + n) n rd (fetch_rows fo res next_row n rd cols)"

definition fetch_count :: "('f, 'd) psql_query \<Rightarrow> nat" where
  "fetch_count q = min (pq_total_rows q - pq_next_row q) (gen_buffer_size (br_storage (pq_res q)))"

definition fetch ::
  "pgres_codes \<Rightarrow> ('f, 'd) float_ops \<Rightarrow> stmt_type \<Rightarrow> ('f, 'd) psql_query \<Rightarrow> (psql_error + bool) \<times> ('f, 'd) psql_query" where
  "fetch k fo ty q =
     (if \<not> has_r ty then (Inr False, q)
      else case check_layout k ty q of
        Inl e \<Rightarrow> (Inl e, q)
      | Inr _ \<Rightarrow>
          (case pq_rows q of
             None \<Rightarrow> (Inl (client_error k ''no result set - execute first''), q)
           | Some res \<Rightarrow>
               let count = fetch_count q;
                   cols = fetch_rows fo res (pq_next_row q) count (sy_rd ty) (br_storage (pq_res q))
               in (Inr (count > 0),
                   q\<lparr>pq_next_row := pq_next_row q + count, pq_rows_fetched := count,
                     pq_res := set_occupied count ((pq_res q)\<lparr>br_storage := cols\<rparr>)\<rparr>)))"

definition reset_query :: "stmt_type \<Rightarrow> ('f, 'd) psql_query \<Rightarrow> ('f, 'd) psql_query" where
  "reset_query ty q = q\<lparr>pq_rows := None, pq_next_row := 0, pq_total_rows := 0, pq_rows_fetched := 0,
     pq_affected_rows := - 1,
     pq_par := (if has_p ty
        then (let st = br_storage (pq_par q) in
          (pq_par q)\<lparr>br_storage := st\<lparr>ps_cols := reset_all_null (ps_cols st),
             ps_row_status := map (\<lambda>_. 0) (ps_row_status st)\<rparr>\<rparr>)
        else pq_par q),
     pq_res := (if has_r ty then set_occupied 0 (pq_res q) else pq_res q)\<rparr>"

subsection \<open>One fetched row\<close>

lemma fetch_cell_ok: "column_ok n d c \<Longrightarrow> r < n \<Longrightarrow> column_ok n d (fetch_cell fo r d cell c)"
  using store_value_ok [of n d c r fo]
  by (auto simp: fetch_cell_def split_beta Let_def column_ok_set_ind split: option.splits)

lemma fetch_cell_other_rows:
  "r' \<noteq> r \<Longrightarrow> slot_at (fetch_cell fo r d cell c) r' = slot_at c r'
     \<and> co_ind (fetch_cell fo r d cell c) ! r' = co_ind c ! r'"
  using store_value_other_rows [of r' r fo d]
  by (auto simp: fetch_cell_def split_beta Let_def split: option.splits)

lemma store_value_local:
  assumes "slot_at c r = slot_at c2 r" "co_ind c ! r = co_ind c2 ! r"
    and "r < length (co_values c)" "r < length (co_values c2)" "r < length (co_ind c)" "r < length (co_ind c2)"
  shows "fst (store_value fo d r t c) = fst (store_value fo d r t c2)
    \<and> slot_at (snd (store_value fo d r t c)) r = slot_at (snd (store_value fo d r t c2)) r
    \<and> co_ind (snd (store_value fo d r t c)) ! r = co_ind (snd (store_value fo d r t c2)) ! r"
  using assms
  by (cases "bd_category d")
     (simp_all add: store_value_def split_beta Let_def store_c_string_def store_b_string_def)

lemma fetch_cell_local:
  assumes "column_ok n d c" "column_ok n d c2" "r < n"
    and "slot_at c r = slot_at c2 r" "co_ind c ! r = co_ind c2 ! r"
  shows "slot_at (fetch_cell fo r d cell c) r = slot_at (fetch_cell fo r d cell c2) r
    \<and> co_ind (fetch_cell fo r d cell c) ! r = co_ind (fetch_cell fo r d cell c2) ! r"
proof -
  have len: "r < length (co_values c)" "r < length (co_values c2)" "r < length (co_ind c)" "r < length (co_ind c2)"
    using assms(1-3) by (auto simp: column_ok_def)
  have len': "r < length (co_ind (snd (store_value fo d r t c)))" "r < length (co_ind (snd (store_value fo d r t c2)))" for t
    using store_value_ok [OF assms(1,3), of fo t] store_value_ok [OF assms(2,3), of fo t] assms(3)
    by (auto simp: column_ok_def)
  show ?thesis
    using store_value_local [OF assms(4,5) len, of fo d] len len' assms(4)
    by (auto simp: fetch_cell_def split_beta Let_def split: option.splits)
qed

lemma length_fetch_rows: "length cols = length rd \<Longrightarrow> length (fetch_rows fo res nx n rd cols) = length rd"
  by (induction n) (simp_all add: fetch_row_def)

lemma fetch_rows_ok:
  "list_all2 (column_ok m) rd cols \<Longrightarrow> n \<le> m \<Longrightarrow> list_all2 (column_ok m) rd (fetch_rows fo res nx n rd cols)"
  by (induction n) (auto simp: fetch_row_def list_all2_conv_all_nth fetch_cell_ok)

lemma fetch_rows_untouched:
  assumes "length cols = length rd" "i < length rd" "n \<le> r"
  shows "slot_at (fetch_rows fo res nx n rd cols ! i) r = slot_at (cols ! i) r
    \<and> co_ind (fetch_rows fo res nx n rd cols ! i) ! r = co_ind (cols ! i) ! r"
  using assms(3) by (induction n) (simp_all add: fetch_row_def fetch_cell_other_rows assms)

text \<open>Row \<open>r\<close> of a fetched column is what fetching its own cell alone leaves there.\<close>

lemma fetch_rows_cell:
  assumes ok: "list_all2 (column_ok m) rd cols" and i: "i < length rd" and "r < n" "n \<le> m"
  shows "slot_at (fetch_rows fo res nx n rd cols ! i) r
        = slot_at (fetch_cell fo r (rd ! i) (pg_cell res (nx + r) i) (cols ! i)) r
    \<and> co_ind (fetch_rows fo res nx n rd cols ! i) ! r
        = co_ind (fetch_cell fo r (rd ! i) (pg_cell res (nx + r) i) (cols ! i)) ! r"
  using assms(3,4)
proof (induction n)
  case (Suc n)
  let ?cols = "fetch_rows fo res nx n rd cols"
  have len: "length cols = length rd" using ok by (simp add: list_all2_lengthD)
  have ok': "column_ok m (rd ! i) (?cols ! i)" "column_ok m (rd ! i) (cols ! i)"
    using fetch_rows_ok [OF ok, of n] ok i Suc.prems by (auto simp: list_all2_conv_all_nth)
  have step: "fetch_rows fo res nx (Suc n) rd cols ! i = fetch_cell fo n (rd ! i) (pg_cell res (nx + n) i) (?cols ! i)"
    using i by (simp add: fetch_row_def)
  show ?case
  proof (cases "r = n")
    case True
    have u: "slot_at (?cols ! i) n = slot_at (cols ! i) n" "co_ind (?cols ! i) ! n = co_ind (cols ! i) ! n"
      using fetch_rows_untouched [OF len i, of n n] by auto
    have "n < m" using Suc.prems by simp
    from fetch_cell_local [OF ok' this u] show ?thesis unfolding step True .
  next
    case False
    with Suc show ?thesis unfolding step by (simp add: fetch_cell_other_rows)
  qed
qed simp

lemma string_indicator:
  assumes "column_ok m d c" "r < m" "bd_category d = cat_c_string \<or> bd_category d = cat_b_string"
    and "unat (bd_column_size d) < 2 ^ 31"
  shows "co_ind (fetch_cell fo r d cell c) ! r = null_data \<longleftrightarrow> cell = None"
proof -
  have r: "r < length (co_ind c)" using assms(1,2) by (auto simp: column_ok_def)
  have nn: "(of_nat n :: i32) \<noteq> null_data" if "n \<le> unat (bd_column_size d)" for n
  proof
    assume "(of_nat n :: i32) = null_data"
    then have "sint (of_nat n :: i32) = - 1" by (simp add: null_data_def)
    moreover have "sint (of_nat n :: i32) = int n" using that assms(4) by (intro sint_of_nat_32) simp
    ultimately show False by simp
  qed
  show ?thesis
    using assms(3) r nn [of "min _ (unat (bd_column_size d))"] nn [OF length_decode_bytea]
    by (auto simp: fetch_cell_def store_value_def store_c_string_def store_b_string_def Let_def split: option.splits)
qed

text \<open>after a fetch every column is still well formed, and in each of the rows it filled a text
  or binary column is null exactly when the server's value is: the indicator is \<open>null_data\<close> for a
  null and the non-negative length otherwise, whatever the slot held before.\<close>

theorem fetch_null_exact:
  assumes "storage_ok (sy_rd ty) (br_storage (pq_res q))" "pq_rows q = Some res" "check_layout k ty q = Inr ()"
    and "i < length (sy_rd ty)" "r < fetch_count q"
    and "bd_category (sy_rd ty ! i) = cat_c_string \<or> bd_category (sy_rd ty ! i) = cat_b_string"
    and "unat (bd_column_size (sy_rd ty ! i)) < 2 ^ 31"
  shows "let q' = snd (fetch k fo ty q) in
      storage_ok (sy_rd ty) (br_storage (pq_res q'))
    \<and> (co_ind (br_storage (pq_res q') ! i) ! r = null_data \<longleftrightarrow> pg_cell res (pq_next_row q + r) i = None)"
proof -
  let ?rd = "sy_rd ty" and ?cols = "br_storage (pq_res q)" and ?m = "gen_buffer_size (br_storage (pq_res q))"
  let ?cols' = "fetch_rows fo res (pq_next_row q) (fetch_count q) ?rd ?cols"
  have hr: "has_r ty" using assms(4) by (auto simp: has_r_def)
  have st: "br_storage (pq_res (snd (fetch k fo ty q))) = ?cols'"
    using hr assms(2,3) by (simp add: fetch_def Let_def set_occupied_def)
  have ok: "list_all2 (column_ok ?m) ?rd ?cols" using assms(1) by (simp add: storage_ok_def)
  have n: "fetch_count q \<le> ?m" by (simp add: fetch_count_def)
  have ok': "list_all2 (column_ok ?m) ?rd ?cols'" by (rule fetch_rows_ok [OF ok n])
  then have "gen_buffer_size ?cols' = ?m"
    using assms(4) by (cases ?cols'; cases ?rd) (auto simp: gen_buffer_size_def column_ok_def)
  with ok' have "storage_ok ?rd ?cols'" by (simp add: storage_ok_def)
  moreover have "column_ok ?m (?rd ! i) (?cols ! i)" using ok assms(4) by (simp add: list_all2_conv_all_nth)
  moreover have "r < ?m" using assms(5) n by simp
  ultimately show ?thesis
    unfolding Let_def st using fetch_rows_cell [OF ok assms(4,5) n, of fo res "pq_next_row q"]
      string_indicator [OF _ _ assms(6,7)] by simp
qed

subsection \<open>The result set as a cursor\<close>

definition cursor_ok :: "pgres_codes \<Rightarrow> stmt_type \<Rightarrow> ('f, 'd) psql_query \<Rightarrow> bool" where
  "cursor_ok k ty q \<longleftrightarrow> has_r ty \<and> check_layout k ty q = Inr ()
     \<and> (\<exists>res. pq_rows q = Some res \<and> pq_total_rows q \<le> length (pgr_tuples res))
     \<and> pq_next_row q \<le> pq_total_rows q
     \<and> storage_ok (sy_rd ty) (br_storage (pq_res q)) \<and> 0 < gen_buffer_size (br_storage (pq_res q))"

definition result_rows :: "('f, 'd) psql_query \<Rightarrow> string option list list" where
  "result_rows q = (case pq_rows q of Some r \<Rightarrow> take (pq_total_rows q) (pgr_tuples r) | None \<Rightarrow> [])"

definition pending_rows :: "('f, 'd) psql_query \<Rightarrow> string option list list" where
  "pending_rows q = drop (pq_next_row q) (result_rows q)"

definition page_rows :: "('f, 'd) psql_query \<Rightarrow> nat" where
  "page_rows q = gen_buffer_size (br_storage (pq_res q))"

text \<open>The rows a call of \<open>fetch\<close> hands out: as many as \<open>rows_fetched\<close> says, from where the cursor
  stood.\<close>

definition fetch_page ::
  "pgres_codes \<Rightarrow> ('f, 'd) float_ops \<Rightarrow> stmt_type \<Rightarrow> ('f, 'd) psql_query \<Rightarrow> string option list list \<times> ('f, 'd) psql_query" where
  "fetch_page k fo ty q =
     (let (ans, q') = fetch k fo ty q in
      (case ans of Inr True \<Rightarrow> take (pq_rows_fetched q') (drop (pq_next_row q) (result_rows q)) | _ \<Rightarrow> [], q'))"

lemma gen_size_fetch_rows:
  assumes "storage_ok rd cols" "rd \<noteq> []" "n \<le> gen_buffer_size cols"
  shows "storage_ok rd (fetch_rows fo res nx n rd cols)
    \<and> gen_buffer_size (fetch_rows fo res nx n rd cols) = gen_buffer_size cols"
proof -
  have ok: "list_all2 (column_ok (gen_buffer_size cols)) rd (fetch_rows fo res nx n rd cols)"
    using assms(1,3) by (intro fetch_rows_ok) (simp_all add: storage_ok_def)
  then have "gen_buffer_size (fetch_rows fo res nx n rd cols) = gen_buffer_size cols"
    using assms(2) by (cases "fetch_rows fo res nx n rd cols"; cases rd) (auto simp: gen_buffer_size_def column_ok_def)
  with ok show ?thesis by (simp add: storage_ok_def)
qed

lemma fetch_step:
  assumes "cursor_ok k ty q"
  obtains res cols where "pq_rows q = Some res"
    "fetch k fo ty q = (Inr (fetch_count q > 0), q\<lparr>pq_next_row := pq_next_row q + fetch_count q,
       pq_rows_fetched := fetch_count q, pq_res := set_occupied (fetch_count q) ((pq_res q)\<lparr>br_storage := cols\<rparr>)\<rparr>)"
    "storage_ok (sy_rd ty) cols" "gen_buffer_size cols = page_rows q"
proof -
  from assms obtain res where r: "pq_rows q = Some res" by (auto simp: cursor_ok_def)
  let ?cols = "fetch_rows fo res (pq_next_row q) (fetch_count q) (sy_rd ty) (br_storage (pq_res q))"
  have "storage_ok (sy_rd ty) ?cols \<and> gen_buffer_size ?cols = gen_buffer_size (br_storage (pq_res q))"
    using assms by (intro gen_size_fetch_rows) (auto simp: cursor_ok_def has_r_def fetch_count_def)
  moreover have "fetch k fo ty q = (Inr (fetch_count q > 0), q\<lparr>pq_next_row := pq_next_row q + fetch_count q,
       pq_rows_fetched := fetch_count q, pq_res := set_occupied (fetch_count q) ((pq_res q)\<lparr>br_storage := ?cols\<rparr>)\<rparr>)"
    using assms r by (simp add: fetch_def cursor_ok_def Let_def)
  ultimately show thesis using that r by (simp add: page_rows_def)
qed

lemma check_layout_fetch:
  "check_layout k ty (q\<lparr>pq_next_row := a, pq_rows_fetched := b, pq_res := set_occupied c ((pq_res q)\<lparr>br_storage := cols\<rparr>)\<rparr>)
     = check_layout k ty q"
  by (simp add: check_layout_def set_occupied_def)

lemma check_layout_executed:
  "check_layout k ty (q\<lparr>pq_total_rows := a, pq_next_row := b, pq_affected_rows := c, pq_rows := d\<rparr>) = check_layout k ty q"
  by (simp add: check_layout_def)

lemma length_result_rows: "cursor_ok k ty q \<Longrightarrow> length (result_rows q) = pq_total_rows q"
  by (auto simp: cursor_ok_def result_rows_def)

interpretation psql_rows: row_cursor "fetch_page k fo ty" pending_rows page_rows "cursor_ok k ty"
  for k fo ty
proof
  fix q :: "('a, 'b) psql_query"
  assume ok: "cursor_ok k ty q"
  then obtain res cols where st: "pq_rows q = Some res"
    "fetch k fo ty q = (Inr (fetch_count q > 0), q\<lparr>pq_next_row := pq_next_row q + fetch_count q,
       pq_rows_fetched := fetch_count q, pq_res := set_occupied (fetch_count q) ((pq_res q)\<lparr>br_storage := cols\<rparr>)\<rparr>)"
    "storage_ok (sy_rd ty) cols" "gen_buffer_size cols = page_rows q"
    by (rule fetch_step)
  let ?q = "snd (fetch_page k fo ty q)"
  have q': "?q = q\<lparr>pq_next_row := pq_next_row q + fetch_count q,
       pq_rows_fetched := fetch_count q, pq_res := set_occupied (fetch_count q) ((pq_res q)\<lparr>br_storage := cols\<rparr>)\<rparr>"
    by (simp add: fetch_page_def st(2))
  have cnt: "fetch_count q = min (pq_total_rows q - pq_next_row q) (page_rows q)"
    by (simp add: fetch_count_def page_rows_def)
  have rr: "result_rows ?q = result_rows q" by (cases "pq_rows q") (simp_all add: q' result_rows_def)
  have len: "length (pending_rows q) = pq_total_rows q - pq_next_row q"
    using length_result_rows [OF ok] by (simp add: pending_rows_def)
  have takes: "take (fetch_count q) (pending_rows q) = take (page_rows q) (pending_rows q)"
    unfolding cnt len [symmetric] by (simp add: min_def)
  show "fst (fetch_page k fo ty q) = take (page_rows q) (pending_rows q)"
    using takes by (cases "fetch_count q = 0") (auto simp: fetch_page_def st(2) pending_rows_def result_rows_def)
  show "pending_rows ?q = drop (page_rows q) (pending_rows q)"
    using len cnt by (simp add: pending_rows_def rr) (simp add: q' min_def add.commute)
  show "page_rows ?q = page_rows q" using st(4) by (simp add: q' page_rows_def set_occupied_def)
  show "0 < page_rows q" using ok by (simp add: cursor_ok_def page_rows_def)
  show "cursor_ok k ty ?q"
    using ok st cnt unfolding cursor_ok_def q' check_layout_fetch
    by (auto simp: set_occupied_def page_rows_def)
qed


subsection \<open>A concrete statement\<close>

definition codes0 :: pgres_codes where
  "codes0 = \<lparr>pgres_command_ok = 1, pgres_tuples_ok = 2, pgres_fatal_error = 7\<rparr>"

definition type0 :: stmt_type where
  "type0 = \<lparr>sy_pd = [], sy_rd = [example_chars]\<rparr>"

definition query0 :: "(nat, nat) psql_query" where
  "query0 = \<lparr>pq_db = True, pq_sql = ''select name from t'', pq_stmt_name = ''dbgen4_0'', pq_prepared = True,
     pq_bound_par_layout = 0, pq_bound_res_layout = 1, pq_rows = None, pq_next_row = 0, pq_total_rows = 0,
     pq_rows_fetched = 0, pq_affected_rows = - 1,
     pq_par = \<lparr>br_storage = \<lparr>ps_cols = [], ps_row_status = []\<rparr>, br_layout_generation = 0, br_occupied = 0\<rparr>,
     pq_res = \<lparr>br_storage = [example_column], br_layout_generation = 1, br_occupied = 0\<rparr>\<rparr>"

definition result0 :: pg_result where
  "result0 = \<lparr>pgd_state = None, pgd_message = None, pgd_status = 2,
     pgr_tuples = [[Some ''a''], [None], [Some ''bcd'']], pgr_cmd_tuples = None\<rparr>"

lemma query0_ok:
  "has_r type0" "check_layout codes0 type0 query0 = Inr ()" "storage_ok (sy_rd type0) (br_storage (pq_res query0))"
  "gen_buffer_size (br_storage (pq_res query0)) = 2"
  using example_column_ok
  by (simp_all add: has_r_def has_p_def type0_def check_layout_def query0_def storage_ok_def gen_buffer_size_def)
     (simp_all add: example_column_def numeral_2_eq_2)


theorem fetch_null_exact_witness:
  "let q1 = snd (execute_single codes0 (Some result0) None query0);
       q2 = snd (fetch codes0 undefined type0 q1)
   in co_ind (br_storage (pq_res q2) ! 0) ! 1 = null_data"
proof -
  let ?q = "snd (execute_single codes0 (Some result0) None query0)"
  have q: "?q = query0\<lparr>pq_total_rows := 3, pq_next_row := 0, pq_affected_rows := - 1, pq_rows := Some result0\<rparr>"
    by (simp add: execute_single_def PQresultStatus_def result0_def codes0_def affected_of_def)
  have "check_layout codes0 type0 ?q = Inr ()" unfolding q check_layout_executed by (rule query0_ok(2))
  moreover have "storage_ok (sy_rd type0) (br_storage (pq_res ?q))" unfolding q using query0_ok(3) by simp
  moreover have "pq_rows ?q = Some result0" "1 < fetch_count ?q" "pg_cell result0 (pq_next_row ?q + 1) 0 = None"
    unfolding q using query0_ok(4) by (simp_all add: fetch_count_def pg_cell_def result0_def)
  ultimately show ?thesis
    using fetch_null_exact [of type0 ?q result0 codes0 0 1 undefined]
    by (simp add: type0_def example_chars_def Let_def)
qed

subsection \<open>Layout, ownership, names\<close>



text \<open>Moving a statement \<open>n\<close> times in a row: the last owner and the husks left behind.\<close>

primrec move_chain :: "nat \<Rightarrow> ('f, 'd) psql_query \<Rightarrow> ('f, 'd) psql_query \<times> ('f, 'd) psql_query list" where
  "move_chain 0 q = (q, [])"
| "move_chain (Suc n) q = (let (q', husks) = move_chain n q; (q'', husk) = move_query q' in (q'', husks @ [husk]))"

lemma destroy_husk: "destroy_query (snd (move_query q)) = []"
  by (simp add: move_query_def destroy_query_def)

text \<open>C11: a server side statement is freed exactly once. However often a statement object is moved,
  destroying the last owner and every moved-from object sends the \<open>DEALLOCATE\<close> commands that
  destroying the original would have sent: one when it was prepared, none otherwise.\<close>

theorem moved_statement_freed_once:
  "concat (map destroy_query (fst (move_chain n q) # snd (move_chain n q))) = destroy_query q
   \<and> length (destroy_query q) = (if pq_prepared q \<and> pq_db q then 1 else 0)"
proof (induction n)
  case (Suc n)
  then show ?case
    by (simp add: split_beta Let_def destroy_husk) (simp add: move_query_def)
qed (simp add: destroy_query_def)

text \<open>The names of the statements made from the counter, in order.\<close>

primrec stmt_names :: "nat \<Rightarrow> u64 \<Rightarrow> string list" where
  "stmt_names 0 counter = []"
| "stmt_names (Suc n) counter =
     (let (i, counter') = next_stmt_id counter in stmt_name_of i # stmt_names n counter')"

lemma stmt_names_eq: "stmt_names n c = map (\<lambda>i. stmt_name_of (c + of_nat i)) [0..<n]"
proof (induction n arbitrary: c)
  case (Suc n)
  show ?case
    unfolding stmt_names.simps next_stmt_id_def Suc upt_conv_Cons [OF zero_less_Suc]
    by (simp add: map_Suc_upt [symmetric] comp_def algebra_simps del: upt_Suc)
qed simp

text \<open>no two statements of one process get the same server side name, whatever the template
  arguments they were made with, until the 64-bit counter has gone all the way round.\<close>

theorem stmt_names_distinct:
  assumes "n \<le> 2 ^ 64"
  shows "distinct (stmt_names n counter)"
proof -
  have "i = j" if "i < n" "j < n" "stmt_name_of (counter + of_nat i) = stmt_name_of (counter + of_nat j)" for i j
  proof -
    have "(of_nat i :: u64) = of_nat j" using that(3) by (simp add: stmt_name_of_def dec_inj flip: word_unat_eq_iff)
    then have "unat (of_nat i :: u64) = unat (of_nat j :: u64)" by simp
    then have "i mod 2 ^ 64 = j mod 2 ^ 64" by (simp only: unat_of_nat) (simp add: take_bit_eq_mod)
    then show ?thesis using that(1,2) assms by simp
  qed
  then show ?thesis by (auto simp: stmt_names_eq distinct_map inj_on_def)
qed

theorem stmt_names_distinct_witness:
  "distinct (stmt_names 3 (- 2)) \<and> stmt_names 3 (- 2) ! 2 = ''dbgen4_0''"
proof -
  have "stmt_names 3 (- 2) ! 2 = ''dbgen4_0''"
    by (simp add: stmt_names_eq stmt_name_of_def) (simp add: dec.simps)
  then show ?thesis using stmt_names_distinct [of 3 "- 2"] by simp
qed

subsection \<open>Batches\<close>

definition first_failed :: "pgres_codes \<Rightarrow> pg_result option list \<Rightarrow> nat" where
  "first_failed k rs = length (takeWhile (\<lambda>r. \<not> row_failed k r) rs)"

lemma first_failed_Cons [simp]: "first_failed k (r # rs) = (if row_failed k r then 0 else Suc (first_failed k rs))"
  by (simp add: first_failed_def)

lemma first_failed_le: "first_failed k rs \<le> length rs"
  by (simp add: first_failed_def length_takeWhile_le)

lemma read_batch_error:
  "r + length rs \<le> length span \<Longrightarrow>
   fst (read_batch k m rs r (Some e, span)) = Some e
   \<and> length (snd (read_batch k m rs r (Some e, span))) = length span
   \<and> (\<forall>j < length span. snd (read_batch k m rs r (Some e, span)) ! j
        = (if r \<le> j \<and> j < r + length rs then param_status_error else span ! j))"
proof (induction rs arbitrary: r span)
  case (Cons x rs)
  then show ?case using Cons.IH [of "Suc r" "span[r := param_status_error]"]
    by (auto simp: nth_list_update)
qed auto

lemma read_batch_spec:
  "r + length rs \<le> length span \<Longrightarrow>
   fst (read_batch k m rs r (None, span))
     = (if first_failed k rs < length rs then Some (error_from k (rs ! first_failed k rs) m) else None)
   \<and> length (snd (read_batch k m rs r (None, span))) = length span
   \<and> (\<forall>j < length span. snd (read_batch k m rs r (None, span)) ! j
        = (if r \<le> j \<and> j < r + length rs then (if j - r < first_failed k rs then param_status_ok else param_status_error)
           else span ! j))"
proof (induction rs arbitrary: r span)
  case (Cons x rs)
  show ?case
  proof (cases "row_failed k x")
    case True
    then show ?thesis
      using Cons.prems read_batch_error [of "Suc r" rs "span[r := param_status_error]" k m "error_from k x m"]
      by (auto simp: nth_list_update)
  next
    case False
    have "j - r < Suc (first_failed k rs) \<longleftrightarrow> j - Suc r < first_failed k rs" if "Suc r \<le> j" for j
      using that by linarith
    then show ?thesis
      using False Cons.prems Cons.IH [of "Suc r" "span[r := param_status_ok]"]
      by (auto simp: nth_list_update)
  qed
qed auto

lemma rows_sent_le: "rows_sent rows oks \<le> rows"
  unfolding rows_sent_def using length_takeWhile_le [of "\<lambda>ok. ok" "take rows oks"] by simp

text \<open>C18: a batch is all or nothing and its row status tells where it broke: it succeeds exactly when
  every row was queued and every result was good, and then counts every row as affected; the
  rows in front of the first bad one are marked good, the bad one and all queued after it are
  marked failed. A row that was never queued keeps the cleared status, which reads as success.\<close>

theorem batch_row_status:
  assumes "pa_entered ans" "length (ps_row_status (br_storage (pq_par q))) = par_rows q"
    and "sent = rows_sent (par_rows q) (pa_send_ok ans)" "sent \<le> length (pa_results ans)"
    and "bad = first_failed k (take sent (pa_results ans))"
    and "execute_batch k ans q = (answer, q')" "j < par_rows q"
  shows "ps_row_status (br_storage (pq_par q')) ! j = (if bad \<le> j \<and> j < sent then param_status_error else param_status_ok)
    \<and> (answer = Inr () \<longleftrightarrow> sent = par_rows q \<and> bad = sent)
    \<and> (answer = Inr () \<longrightarrow> pq_affected_rows q' = of_nat (par_rows q) \<and> pq_rows q' = None)
    \<and> (sent = par_rows q \<and> bad < sent \<longrightarrow> answer = Inl (error_from k (pa_results ans ! bad) (pa_conn_message ans)))"
proof -
  define rs where "rs = take sent (pa_results ans)"
  define span where "span = (map (\<lambda>_. 0) (ps_row_status (br_storage (pq_par q))) :: u16 list)"
  have sent: "sent \<le> par_rows q" using rows_sent_le assms(3) by simp
  have len: "length rs = sent" "0 + length rs \<le> length span" "length span = par_rows q"
    using assms(2,4) sent by (simp_all add: rs_def span_def)
  have bad: "bad = first_failed k rs" "bad \<le> sent"
    using first_failed_le [of k rs] len(1) assms(5) by (simp_all add: rs_def)
  define fe where "fe = fst (read_batch k (pa_conn_message ans) rs 0 (None, span))"
  define st where "st = snd (read_batch k (pa_conn_message ans) rs 0 (None, span))"
  have rb: "read_batch k (pa_conn_message ans) rs 0 (None, span) = (fe, st)" by (simp add: fe_def st_def)
  note spec = read_batch_spec [OF len(2), of k "pa_conn_message ans", unfolded len(1), folded bad(1) fe_def st_def]
  have fe: "fe = (if bad < sent then Some (error_from k (pa_results ans ! bad) (pa_conn_message ans)) else None)"
    using spec by (simp add: rs_def)
  have "span ! j = param_status_ok" using assms(2,7) by (simp add: span_def param_status_ok_def)
  then have stj: "st ! j = (if bad \<le> j \<and> j < sent then param_status_error else param_status_ok)"
    using spec assms(7) len(3) by auto
  show ?thesis
    using assms(6) unfolding execute_batch_def Let_def assms(3) [symmetric] rs_def [symmetric] span_def [symmetric]
    using assms(1) rb fe stj bad(2) sent by (auto split: if_splits)
qed

definition batch0 :: "(nat, nat) psql_query" where
  "batch0 = query0\<lparr>pq_par := \<lparr>br_storage = \<lparr>ps_cols = [example_column], ps_row_status = [0, 0]\<rparr>,
     br_layout_generation = 0, br_occupied = 0\<rparr>\<rparr>"

theorem batch_row_status_witness:
  "ps_row_status (br_storage (pq_par (snd (execute_batch codes0 \<lparr>pa_entered = True, pa_send_ok = [True, True],
     pa_results = [Some (result0\<lparr>pgd_status := 1\<rparr>), None], pa_conn_message = None\<rparr> batch0)))) ! 1 = param_status_error"
proof -
  let ?ans = "\<lparr>pa_entered = True, pa_send_ok = [True, True],
     pa_results = [Some (result0\<lparr>pgd_status := 1\<rparr>), None], pa_conn_message = None\<rparr>"
  have r: "par_rows batch0 = 2" by (simp add: par_rows_def batch0_def gen_buffer_size_def example_column_def)
  have "rows_sent 2 [True, True] = 2" "first_failed codes0 (pa_results ?ans) = 1"
    by (simp_all add: rows_sent_def row_failed_def PQresultStatus_def codes0_def result0_def)
  then show ?thesis
    using batch_row_status [of ?ans batch0 2 1 codes0 "fst (execute_batch codes0 ?ans batch0)"
        "snd (execute_batch codes0 ?ans batch0)" 1] r
    by (simp add: batch0_def)
qed

subsection \<open>A null that stays\<close>

text \<open>the indicator of a scalar or structure column is only ever set to null by a fetch, never
  back: once a row of the buffer held a null there, every later value fetched into that row is
  stored but still marked null, although the server sent a value that converted.\<close>

theorem scalar_null_is_sticky:
  assumes "bd_category d = cat_atomic \<or> bd_category d = cat_structure" "r < length (co_ind c)"
    and "c1 = fetch_cell fo r d None c" "c2 = fetch_cell fo r d (Some t) c1" "fst (store_value fo d r t c1)"
  shows "co_ind c2 ! r = null_data"
  using assms store_value_indicator [of d fo r t c1]
  by (auto simp: fetch_cell_def split_beta Let_def)

theorem scalar_null_is_sticky_witness:
  "co_ind (fetch_cell unit_floats 0 example_int (Some ''42'') (fetch_cell unit_floats 0 example_int None
     \<lparr>co_values = [Sl_int16 0], co_ind = [0]\<rparr>)) ! 0 = null_data"
proof -
  let ?c = "\<lparr>co_values = [Sl_int16 0], co_ind = [0]\<rparr> :: (unit, unit) column"
  have "fst (store_value unit_floats example_int 0 ''42'' (fetch_cell unit_floats 0 example_int None ?c))"
    by (simp add: store_value_def example_int_def store_atomic_def put_slot_def from_chars_int_def is_digit_def
        digits_value_def digit_val_def split_beta)
  then show ?thesis
    using scalar_null_is_sticky [of example_int 0 ?c _ unit_floats _ "''42''"] by (simp add: example_int_def)
qed

text \<open>The text of a \<open>bit\<close> column is taken for hexadecimal digits: eight bits become four bytes.\<close>

theorem bit_column_read_as_hex:
  "sm_category (get_sql_mapping (from_oid (pg_oid_value oid_bit))) = cat_b_string
   \<and> decode_bytea ''10101010'' 8 = [0x10, 0x10, 0x10, 0x10]"
proof
  show "sm_category (get_sql_mapping (from_oid (pg_oid_value oid_bit))) = cat_b_string"
    by (simp add: category_by_index del: pg_oid_value.simps)
  show "decode_bytea ''10101010'' 8 = [0x10, 0x10, 0x10, 0x10]"
    by code_simp
qed

end
