(* ===== verification/Async_Tasks.thy ===== *)
theory Async_Tasks
  imports Async_Rows Psql_Query
begin

text \<open>
  The statements behind the asynchronous facade (\<open>detail::task\<close> of \<open>src/rtl/async_db.hpp\<close>), on the
  PostgreSQL query class: the backend that the worker of \<open>Async_Db\<close> runs its jobs against is
  built from the operations of \<open>Psql_Query\<close>. The server is a parameter: what it answers to one
  execution and to a pipelined batch.
\<close>

subsection \<open>A statement and the server\<close>

record 'srv psql_server =
  sv_single :: "string \<Rightarrow> string option list \<Rightarrow> 'srv \<Rightarrow> (pg_result option \<times> string option) \<times> 'srv"
  sv_batch :: "string \<Rightarrow> string option list list \<Rightarrow> 'srv \<Rightarrow> pipeline_answers \<times> 'srv"
  sv_commit :: "'srv \<Rightarrow> db_sts \<times> 'srv"
  sv_rollback :: "'srv \<Rightarrow> db_sts \<times> 'srv"

definition no_answers :: pipeline_answers where
  "no_answers = \<lparr>pa_entered = False, pa_send_ok = [], pa_results = [], pa_conn_message = None\<rparr>"

text \<open>\<open>query::execute\<close> with the calls it makes: none when it refuses, else one execution with the
  first row of the parameter buffer, or the rows of a batch.\<close>

definition run_statement ::
  "pgres_codes \<Rightarrow> ('f, 'd) float_ops \<Rightarrow> 'srv psql_server \<Rightarrow> stmt_type \<Rightarrow> ('f, 'd) psql_query \<Rightarrow> 'srv
     \<Rightarrow> ((psql_error + unit) \<times> ('f, 'd) psql_query) \<times> 'srv" where
  "run_statement k fo sv ty q srv =
     (let cols = ps_cols (br_storage (pq_par q)) in
      if \<not> pq_prepared q \<or> check_layout k ty q \<noteq> Inr () then (execute k ty None None no_answers q, srv)
      else if has_p ty \<and> par_rows q > 1
      then (let (ans, srv') = sv_batch sv (pq_stmt_name q) (map (marshal_row fo (sy_pd ty) cols) [0..<par_rows q]) srv
            in (execute k ty None None ans q, srv'))
      else (let ((res, msg), srv') = sv_single sv (pq_stmt_name q) (if has_p ty then marshal_row fo (sy_pd ty) cols 0 else []) srv
            in (execute k ty res msg no_answers q, srv')))"

subsection \<open>The task\<close>

record ('f, 'd) psql_task =
  tk_type :: stmt_type
  tk_query :: "('f, 'd) psql_query"

definition set_params :: "('f, 'd) column list \<Rightarrow> ('f, 'd) psql_query \<Rightarrow> ('f, 'd) psql_query" where
  "set_params cols q = q\<lparr>pq_par := (pq_par q)\<lparr>br_storage := (br_storage (pq_par q))\<lparr>ps_cols := cols\<rparr>\<rparr>\<rparr>"

definition task_restore :: "('f, 'd) column list \<Rightarrow> ('f, 'd) psql_task \<Rightarrow> ('f, 'd) psql_task cpp" where
  "task_restore snap t =
     (if has_p (tk_type t)
      then case restore_params snap (ps_cols (br_storage (pq_par (tk_query t)))) of
             Ret cols \<Rightarrow> Ret (t\<lparr>tk_query := set_params cols (tk_query t)\<rparr>)
           | Throws what \<Rightarrow> Throws what
           | Assert_failed \<Rightarrow> Assert_failed
           | Undefined_behaviour \<Rightarrow> Undefined_behaviour
      else Ret t)"

definition task_execute ::
  "pgres_codes \<Rightarrow> ('f, 'd) float_ops \<Rightarrow> 'srv psql_server \<Rightarrow> ('f, 'd) psql_task \<Rightarrow> 'srv
     \<Rightarrow> (db_error option \<times> ('f, 'd) psql_task) \<times> 'srv" where
  "task_execute k fo sv t srv =
     (let ((r, q), srv') = run_statement k fo sv (tk_type t) (tk_query t) srv in
      ((case r of Inl e \<Rightarrow> Some (psql_to_db_error e) | Inr _ \<Rightarrow> None, t\<lparr>tk_query := q\<rparr>), srv'))"

definition task_fetch ::
  "pgres_codes \<Rightarrow> ('f, 'd) float_ops \<Rightarrow> ('f, 'd) psql_task \<Rightarrow> (db_error option \<times> bool) \<times> ('f, 'd) psql_task" where
  "task_fetch k fo t =
     (let (r, q) = fetch k fo (tk_type t) (tk_query t) in
      (case r of Inl e \<Rightarrow> (Some (psql_to_db_error e), False) | Inr got \<Rightarrow> (None, got), t\<lparr>tk_query := q\<rparr>))"

subsection \<open>The worker's side\<close>

text \<open>The registered statements and the server. \<open>ws_broken\<close> records that a job left the defined
  behaviour of the sources: an index outside the registered statements, or a snapshot that does not
  fit its statement's buffer.\<close>

record ('f, 'd, 'srv) worker_side =
  ws_tasks :: "('f, 'd) psql_task list"
  ws_server :: 'srv
  ws_broken :: bool

definition worker_execute ::
  "pgres_codes \<Rightarrow> ('f, 'd) float_ops \<Rightarrow> 'srv psql_server \<Rightarrow> nat \<Rightarrow> ('f, 'd) column list \<Rightarrow> ('f, 'd, 'srv) worker_side
     \<Rightarrow> db_error option \<times> ('f, 'd, 'srv) worker_side" where
  "worker_execute k fo sv tid snap w =
     (if length (ws_tasks w) \<le> tid then (None, w\<lparr>ws_broken := True\<rparr>)
      else case task_restore snap (ws_tasks w ! tid) of
        Ret t \<Rightarrow>
          (let ((e, t'), srv') = task_execute k fo sv t (ws_server w)
           in (e, w\<lparr>ws_tasks := (ws_tasks w)[tid := t'], ws_server := srv'\<rparr>))
      | _ \<Rightarrow> (None, w\<lparr>ws_broken := True\<rparr>))"

definition worker_fetch ::
  "pgres_codes \<Rightarrow> ('f, 'd) float_ops \<Rightarrow> nat \<Rightarrow> ('f, 'd, 'srv) worker_side
     \<Rightarrow> (db_error option \<times> bool) \<times> ('f, 'd, 'srv) worker_side" where
  "worker_fetch k fo tid w =
     (if length (ws_tasks w) \<le> tid then ((None, False), w\<lparr>ws_broken := True\<rparr>)
      else let (r, t) = task_fetch k fo (ws_tasks w ! tid) in (r, w\<lparr>ws_tasks := (ws_tasks w)[tid := t]\<rparr>))"

definition end_transaction ::
  "('srv \<Rightarrow> db_sts \<times> 'srv) \<Rightarrow> ('f, 'd, 'srv) worker_side \<Rightarrow> db_sts \<times> ('f, 'd, 'srv) worker_side" where
  "end_transaction f w = (let (r, srv') = f (ws_server w) in (r, w\<lparr>ws_server := srv'\<rparr>))"

definition psql_backend ::
  "pgres_codes \<Rightarrow> ('f, 'd) float_ops \<Rightarrow> 'srv psql_server
     \<Rightarrow> (('f, 'd, 'srv) worker_side, ('f, 'd) column list) backend" where
  "psql_backend k fo sv = \<lparr>be_execute = worker_execute k fo sv, be_fetch = worker_fetch k fo,
     be_commit = end_transaction (sv_commit sv), be_rollback = end_transaction (sv_rollback sv)\<rparr>"

subsection \<open>A registered statement as a paged result set\<close>

definition task_query :: "nat \<Rightarrow> ('f, 'd, 'srv) worker_side \<Rightarrow> ('f, 'd) psql_query" where
  "task_query tid w = tk_query (ws_tasks w ! tid)"

text \<open>The rows that lie in front of the cursor, which the last fetch copied.\<close>

definition seen_rows :: "('f, 'd) psql_query \<Rightarrow> string option list list" where
  "seen_rows q = take (pq_rows_fetched q) (drop (pq_next_row q - pq_rows_fetched q) (result_rows q))"

definition task_ok :: "pgres_codes \<Rightarrow> stmt_type \<Rightarrow> nat \<Rightarrow> ('f, 'd, 'srv) worker_side \<Rightarrow> bool" where
  "task_ok k ty tid w \<longleftrightarrow> tid < length (ws_tasks w) \<and> tk_type (ws_tasks w ! tid) = ty \<and> cursor_ok k ty (task_query tid w)"

lemma seen_rows_fetch:
  assumes "cursor_ok k ty q"
  shows "fetch k fo ty q = (Inr (pending_rows q \<noteq> []), snd (fetch k fo ty q))"
    and "pending_rows q \<noteq> [] \<Longrightarrow> seen_rows (snd (fetch k fo ty q)) = fst (fetch_page k fo ty q)"
    and "snd (fetch_page k fo ty q) = snd (fetch k fo ty q)"
proof -
  obtain res cols where f: "pq_rows q = Some res"
    "fetch k fo ty q = (Inr (fetch_count q > 0), q\<lparr>pq_next_row := pq_next_row q + fetch_count q,
       pq_rows_fetched := fetch_count q, pq_res := set_occupied (fetch_count q) ((pq_res q)\<lparr>br_storage := cols\<rparr>)\<rparr>)"
    using fetch_step [OF assms, of fo] by metis
  have "length (pending_rows q) = pq_total_rows q - pq_next_row q"
    using length_result_rows [OF assms] by (simp add: pending_rows_def)
  then have p: "fetch_count q > 0 \<longleftrightarrow> pending_rows q \<noteq> []"
    using psql_rows.page_size_pos [OF assms] by (auto simp: fetch_count_def page_rows_def simp flip: length_greater_0_conv)
  show "fetch k fo ty q = (Inr (pending_rows q \<noteq> []), snd (fetch k fo ty q))" using f(2) p by simp
  show "snd (fetch_page k fo ty q) = snd (fetch k fo ty q)" by (simp add: fetch_page_def f(2))
  show "seen_rows (snd (fetch k fo ty q)) = fst (fetch_page k fo ty q)" if "pending_rows q \<noteq> []"
    using f(1) that p unfolding fetch_page_def f(2) by (simp add: seen_rows_def result_rows_def)
qed

lemma worker_fetch_ok:
  assumes "task_ok k ty tid w"
  shows "fst (worker_fetch k fo tid w) = (None, pending_rows (task_query tid w) \<noteq> [])"
    and "task_query tid (snd (worker_fetch k fo tid w)) = snd (fetch_page k fo ty (task_query tid w))"
    and "task_ok k ty tid (snd (worker_fetch k fo tid w))"
    and "ws_server (snd (worker_fetch k fo tid w)) = ws_server w"
proof -
  let ?q = "task_query tid w"
  have ok: "cursor_ok k ty ?q" and tid: "tid < length (ws_tasks w)" and ty: "tk_type (ws_tasks w ! tid) = ty"
    using assms by (simp_all add: task_ok_def)
  obtain q' where q': "fetch k fo ty ?q = (Inr (pending_rows ?q \<noteq> []), q')" "q' = snd (fetch_page k fo ty ?q)"
    using seen_rows_fetch(1,3) [OF ok, of fo] by metis
  have "worker_fetch k fo tid w = ((None, pending_rows ?q \<noteq> []),
      w\<lparr>ws_tasks := (ws_tasks w)[tid := (ws_tasks w ! tid)\<lparr>tk_query := q'\<rparr>]\<rparr>)"
    using tid ty q'(1) by (simp add: worker_fetch_def task_fetch_def task_query_def)
  then show "fst (worker_fetch k fo tid w) = (None, pending_rows ?q \<noteq> [])"
    and "task_query tid (snd (worker_fetch k fo tid w)) = snd (fetch_page k fo ty ?q)"
    and "task_ok k ty tid (snd (worker_fetch k fo tid w))"
    and "ws_server (snd (worker_fetch k fo tid w)) = ws_server w"
    using tid ty psql_rows.invar_kept [OF ok, of fo] by (simp_all add: task_query_def task_ok_def q'(2))
qed

interpretation async_rows: row_task "psql_backend k fo sv" tid "\<lambda>w. seen_rows (task_query tid w)"
    "\<lambda>w. pending_rows (task_query tid w)" "\<lambda>w. page_rows (task_query tid w)" "task_ok k ty tid"
  for k fo sv tid ty
proof
  fix w :: "('a, 'b, 'c) worker_side"
  let ?be = "psql_backend k fo sv"
  assume ok: "task_ok k ty tid w"
  then have q: "cursor_ok k ty (task_query tid w)" by (simp add: task_ok_def)
  have be: "be_fetch ?be tid = worker_fetch k fo tid" by (simp add: psql_backend_def)
  note f = worker_fetch_ok [OF ok, of fo]
  show "fst (be_fetch ?be tid w) = (None, pending_rows (task_query tid w) \<noteq> [])"
    and "task_ok k ty tid (snd (be_fetch ?be tid w))"
    using f(1,3) be by simp_all
  show "seen_rows (task_query tid (snd (be_fetch ?be tid w))) = take (page_rows (task_query tid w)) (pending_rows (task_query tid w))"
    if "pending_rows (task_query tid w) \<noteq> []"
    using f(2) be seen_rows_fetch(2,3) [OF q, of fo] that psql_rows.page_rows [OF q, of fo] by simp
  show "pending_rows (task_query tid (snd (be_fetch ?be tid w))) = drop (page_rows (task_query tid w)) (pending_rows (task_query tid w))"
    and "page_rows (task_query tid (snd (be_fetch ?be tid w))) = page_rows (task_query tid w)"
    using f(2) be psql_rows.page_pending [OF q, of fo] psql_rows.page_size_kept [OF q, of fo] by simp_all
  show "0 < page_rows (task_query tid w)" using psql_rows.page_size_pos [OF q] .
qed

subsection \<open>A query through the facade\<close>

text \<open>A registered statement with rows and at most one row of parameters, prepared on buffers that kept
  their size; \<open>cols\<close> is the caller's own parameter buffer.\<close>

definition select_ready :: "pgres_codes \<Rightarrow> ('f, 'd) psql_task \<Rightarrow> ('f, 'd) column list \<Rightarrow> bool" where
  "select_ready k t cols \<longleftrightarrow> (let ty = tk_type t; q = tk_query t; own = ps_cols (br_storage (pq_par q)) in
     has_r ty \<and> pq_prepared q \<and> check_layout k ty q = Inr ()
     \<and> storage_ok (sy_rd ty) (br_storage (pq_res q)) \<and> 0 < gen_buffer_size (br_storage (pq_res q))
     \<and> (has_p ty \<longrightarrow> storage_ok (sy_pd ty) cols \<and> storage_ok (sy_pd ty) own
          \<and> gen_buffer_size cols = 1 \<and> gen_buffer_size own = 1))"

definition sent_values :: "('f, 'd) float_ops \<Rightarrow> stmt_type \<Rightarrow> ('f, 'd) column list \<Rightarrow> string option list" where
  "sent_values fo ty cols = (if has_p ty then marshal_row fo (sy_pd ty) cols 0 else [])"

lemma set_params_simps [simp]:
  "pq_res (set_params cols q) = pq_res q" "pq_prepared (set_params cols q) = pq_prepared q"
  "pq_stmt_name (set_params cols q) = pq_stmt_name q" "par_rows (set_params cols q) = gen_buffer_size cols"
  "ps_cols (br_storage (pq_par (set_params cols q))) = cols" "check_layout k ty (set_params cols q) = check_layout k ty q"
  by (simp_all add: set_params_def par_rows_def check_layout_def)

lemma task_restore_ready:
  assumes "select_ready k t cols"
  shows "task_restore (snapshot_params cols) t
    = Ret (t\<lparr>tk_query := if has_p (tk_type t) then set_params cols (tk_query t) else tk_query t\<rparr>)"
  using assms snapshot_restored [of "sy_pd (tk_type t)" cols "ps_cols (br_storage (pq_par (tk_query t)))"]
  by (simp add: task_restore_def select_ready_def Let_def)

lemma run_statement_single:
  assumes "pq_prepared q" "check_layout k ty q = Inr ()" "has_p ty \<longrightarrow> par_rows q = 1"
    and "sv_single sv (pq_stmt_name q) (sent_values fo ty (ps_cols (br_storage (pq_par q)))) srv = ((res, msg), srv')"
  shows "run_statement k fo sv ty q srv = (execute_single k res msg q, srv')"
  using assms by (auto simp: run_statement_def execute_def sent_values_def Let_def)

lemma worker_execute_ready:
  assumes "tid < length (ws_tasks w)" "ws_tasks w ! tid = t" "select_ready k t cols"
    and "sv_single sv (pq_stmt_name (tk_query t)) (sent_values fo (tk_type t) cols) (ws_server w) = ((Some r, msg), srv')"
    and "pgd_status r = pgres_tuples_ok k"
  obtains q2 where "worker_execute k fo sv tid (snapshot_params cols) w
      = (None, w\<lparr>ws_tasks := (ws_tasks w)[tid := t\<lparr>tk_query := q2\<rparr>], ws_server := srv'\<rparr>)"
    and "cursor_ok k (tk_type t) q2" "pending_rows q2 = pgr_tuples r" "page_rows q2 = page_rows (tk_query t)"
proof -
  let ?ty = "tk_type t" and ?q = "tk_query t"
  let ?q1 = "if has_p ?ty then set_params cols ?q else ?q"
  let ?q2 = "?q1\<lparr>pq_total_rows := length (pgr_tuples r), pq_next_row := 0, pq_affected_rows := affected_of r, pq_rows := Some r\<rparr>"
  have rdy: "has_r ?ty" "pq_prepared ?q1" "check_layout k ?ty ?q1 = Inr ()" "has_p ?ty \<longrightarrow> par_rows ?q1 = 1"
    "storage_ok (sy_rd ?ty) (br_storage (pq_res ?q1))" "0 < gen_buffer_size (br_storage (pq_res ?q1))"
    using assms(3) by (auto simp: select_ready_def Let_def)
  have sent: "sent_values fo ?ty (ps_cols (br_storage (pq_par ?q1))) = sent_values fo ?ty cols" "pq_stmt_name ?q1 = pq_stmt_name ?q"
    by (simp_all add: sent_values_def)
  have "execute_single k (Some r) msg ?q1 = (Inr (), ?q2)"
    using assms(5) by (simp add: execute_single_def PQresultStatus_def)
  then have "run_statement k fo sv ?ty ?q1 (ws_server w) = ((Inr (), ?q2), srv')"
    using run_statement_single [OF rdy(2-4), of sv fo "ws_server w" "Some r" msg srv'] assms(4) sent by simp
  then have "worker_execute k fo sv tid (snapshot_params cols) w
      = (None, w\<lparr>ws_tasks := (ws_tasks w)[tid := t\<lparr>tk_query := ?q2\<rparr>], ws_server := srv'\<rparr>)"
    using assms(1,2) task_restore_ready [OF assms(3)] by (simp add: worker_execute_def task_execute_def)
  moreover have "cursor_ok k ?ty ?q2" using rdy unfolding cursor_ok_def check_layout_executed by simp
  moreover have "pending_rows ?q2 = pgr_tuples r" by (simp add: pending_rows_def result_rows_def)
  moreover have "page_rows ?q2 = page_rows ?q" by (simp add: page_rows_def)
  ultimately show thesis by (rule that)
qed


text \<open>The concrete statement of \<open>Psql_Query\<close>, registered with a facade; its server counts the
  executions.\<close>

definition server0 :: "nat psql_server" where
  "server0 = \<lparr>sv_single = \<lambda>name vals n. ((Some result0, None), Suc n), sv_batch = \<lambda>name rows n. (no_answers, n),
     sv_commit = \<lambda>n. (sts_success, n), sv_rollback = \<lambda>n. (sts_success, n)\<rparr>"

definition facade0 :: "((nat, nat, nat) worker_side, (nat, nat) column list) async_db" where
  "facade0 = create_async \<lparr>ws_tasks = [\<lparr>tk_type = type0, tk_query = query0\<rparr>], ws_server = 0, ws_broken = False\<rparr>"


end
