(* ===== verification/Db2_Types.thy ===== *)
theory Db2_Types
  imports Sql_Types
begin

text \<open>
  Translation between the type codes of DB2 CLI and the neutral vocabulary
  (\<open>src/rtl/db2/db2_types.hpp\<close>). The constants of \<open>sqlcli1.h\<close> are named here, their values are
  the parameter \<open>odbc_consts\<close>: what the code relies on is that the \<open>case\<close> labels of \<open>from_odbc\<close>
  are distinct, which the compiler demands of a \<open>switch\<close>.
\<close>

subsection \<open>The constants of the driver\<close>

datatype (plugins only: code) odbc_type =
    SQL_INTEGER | SQL_SMALLINT | SQL_BIGINT | SQL_TINYINT
  | SQL_FLOAT | SQL_REAL | SQL_DOUBLE | SQL_BIT
  | SQL_CHAR | SQL_NUMERIC | SQL_DECIMAL | SQL_VARCHAR
  | SQL_DECFLOAT | SQL_LONGVARCHAR | SQL_CLOB | SQL_XML
  | SQL_WCHAR | SQL_WVARCHAR | SQL_WLONGVARCHAR | SQL_DBCLOB
  | SQL_GRAPHIC | SQL_VARGRAPHIC | SQL_BINARY | SQL_VARBINARY
  | SQL_LONGVARBINARY | SQL_BLOB | SQL_DATE | SQL_TIME
  | SQL_TIMESTAMP | SQL_TYPE_DATE | SQL_TYPE_TIME | SQL_TYPE_TIMESTAMP
  | SQL_INTERVAL_YEAR | SQL_INTERVAL_MONTH | SQL_INTERVAL_YEAR_TO_MONTH | SQL_INTERVAL_DAY
  | SQL_INTERVAL_HOUR | SQL_INTERVAL_MINUTE | SQL_INTERVAL_SECOND | SQL_INTERVAL_DAY_TO_HOUR
  | SQL_INTERVAL_DAY_TO_MINUTE | SQL_INTERVAL_DAY_TO_SECOND | SQL_INTERVAL_HOUR_TO_MINUTE | SQL_INTERVAL_HOUR_TO_SECOND
  | SQL_INTERVAL_MINUTE_TO_SECOND | SQL_GUID | SQL_UNKNOWN_TYPE

datatype (plugins only: code) odbc_c_type =
    SQL_C_SLONG | SQL_C_SHORT | SQL_C_SBIGINT | SQL_C_STINYINT
  | SQL_C_DOUBLE | SQL_C_FLOAT | SQL_C_BIT | SQL_C_CHAR
  | SQL_C_WCHAR | SQL_C_BINARY | SQL_C_TYPE_DATE | SQL_C_TYPE_TIME
  | SQL_C_TYPE_TIMESTAMP | SQL_C_INTERVAL_YEAR | SQL_C_INTERVAL_MONTH | SQL_C_INTERVAL_YEAR_TO_MONTH
  | SQL_C_INTERVAL_DAY | SQL_C_INTERVAL_HOUR | SQL_C_INTERVAL_MINUTE | SQL_C_INTERVAL_SECOND
  | SQL_C_INTERVAL_DAY_TO_HOUR | SQL_C_INTERVAL_DAY_TO_MINUTE | SQL_C_INTERVAL_DAY_TO_SECOND | SQL_C_INTERVAL_HOUR_TO_MINUTE
  | SQL_C_INTERVAL_HOUR_TO_SECOND | SQL_C_INTERVAL_MINUTE_TO_SECOND | SQL_C_GUID | SQL_C_DEFAULT

type_synonym sqlreturn = i16

datatype handle_type_enum = ht_env | ht_conn | ht_stmt

record odbc_consts =
  sql_success :: sqlreturn
  sql_success_with_info :: sqlreturn
  sql_no_data :: sqlreturn
  sql_error :: sqlreturn
  sql_param_error :: u16
  sql_type_value :: "odbc_type \<Rightarrow> i16"
  sql_c_type_value :: "odbc_c_type \<Rightarrow> i16"

definition is_odbc_success :: "odbc_consts \<Rightarrow> sqlreturn \<Rightarrow> bool" where
  "is_odbc_success k ret \<longleftrightarrow> ret = sql_success k \<or> ret = sql_success_with_info k"

definition is_odbc_no_data :: "odbc_consts \<Rightarrow> sqlreturn \<Rightarrow> bool" where
  "is_odbc_no_data k ret \<longleftrightarrow> ret = sql_no_data k"

subsection \<open>The three maps\<close>

text \<open>The \<open>case\<close> labels of \<open>from_odbc\<close>, and what each returns.\<close>

definition from_odbc_cases :: "(odbc_type \<times> sql_type) list" where
  "from_odbc_cases = [
     (SQL_INTEGER, st_integer), (SQL_SMALLINT, st_smallint), (SQL_BIGINT, st_bigint),
     (SQL_TINYINT, st_tiny_int), (SQL_FLOAT, st_float), (SQL_REAL, st_real),
     (SQL_DOUBLE, st_double), (SQL_BIT, st_bit), (SQL_CHAR, st_char),
     (SQL_NUMERIC, st_numeric), (SQL_DECIMAL, st_decimal), (SQL_VARCHAR, st_var_char),
     (SQL_DECFLOAT, st_decfloat), (SQL_LONGVARCHAR, st_long_var_char), (SQL_CLOB, st_clob),
     (SQL_XML, st_xml), (SQL_WCHAR, st_wchar), (SQL_WVARCHAR, st_wvar_char),
     (SQL_WLONGVARCHAR, st_wlong_var_char), (SQL_DBCLOB, st_dbclob), (SQL_GRAPHIC, st_graphic),
     (SQL_VARGRAPHIC, st_var_graphic), (SQL_BINARY, st_binary), (SQL_VARBINARY, st_var_binary),
     (SQL_LONGVARBINARY, st_long_var_binary), (SQL_BLOB, st_blob), (SQL_DATE, st_date),
     (SQL_TIME, st_time), (SQL_TIMESTAMP, st_timestamp), (SQL_TYPE_DATE, st_type_date),
     (SQL_TYPE_TIME, st_type_time), (SQL_TYPE_TIMESTAMP, st_type_timestamp), (SQL_INTERVAL_YEAR, st_interval_year),
     (SQL_INTERVAL_MONTH, st_interval_month), (SQL_INTERVAL_YEAR_TO_MONTH, st_interval_year_to_month), (SQL_INTERVAL_DAY, st_interval_day),
     (SQL_INTERVAL_HOUR, st_interval_hour), (SQL_INTERVAL_MINUTE, st_interval_minute), (SQL_INTERVAL_SECOND, st_interval_second),
     (SQL_INTERVAL_DAY_TO_HOUR, st_interval_day_to_hour), (SQL_INTERVAL_DAY_TO_MINUTE, st_interval_day_to_minute), (SQL_INTERVAL_DAY_TO_SECOND, st_interval_day_to_second),
     (SQL_INTERVAL_HOUR_TO_MINUTE, st_interval_hour_to_minute), (SQL_INTERVAL_HOUR_TO_SECOND, st_interval_hour_to_second), (SQL_INTERVAL_MINUTE_TO_SECOND, st_interval_minute_to_second),
     (SQL_GUID, st_guid)]"

definition from_odbc :: "odbc_consts \<Rightarrow> i16 \<Rightarrow> sql_type" where
  "from_odbc k c =
     (case find (\<lambda>(l, t). sql_type_value k l = c) from_odbc_cases of
        Some (l, t) \<Rightarrow> t
      | None \<Rightarrow> st_unknown)"

primrec to_odbc_type :: "sql_type \<Rightarrow> odbc_type" where
  "to_odbc_type st_integer = SQL_INTEGER"
| "to_odbc_type st_smallint = SQL_SMALLINT"
| "to_odbc_type st_bigint = SQL_BIGINT"
| "to_odbc_type st_tiny_int = SQL_TINYINT"
| "to_odbc_type st_float = SQL_FLOAT"
| "to_odbc_type st_real = SQL_REAL"
| "to_odbc_type st_double = SQL_DOUBLE"
| "to_odbc_type st_bit = SQL_BIT"
| "to_odbc_type st_char = SQL_CHAR"
| "to_odbc_type st_numeric = SQL_NUMERIC"
| "to_odbc_type st_decimal = SQL_DECIMAL"
| "to_odbc_type st_var_char = SQL_VARCHAR"
| "to_odbc_type st_decfloat = SQL_DECFLOAT"
| "to_odbc_type st_long_var_char = SQL_LONGVARCHAR"
| "to_odbc_type st_clob = SQL_CLOB"
| "to_odbc_type st_xml = SQL_XML"
| "to_odbc_type st_wchar = SQL_WCHAR"
| "to_odbc_type st_wvar_char = SQL_WVARCHAR"
| "to_odbc_type st_wlong_var_char = SQL_WLONGVARCHAR"
| "to_odbc_type st_dbclob = SQL_DBCLOB"
| "to_odbc_type st_graphic = SQL_GRAPHIC"
| "to_odbc_type st_var_graphic = SQL_VARGRAPHIC"
| "to_odbc_type st_binary = SQL_BINARY"
| "to_odbc_type st_var_binary = SQL_VARBINARY"
| "to_odbc_type st_long_var_binary = SQL_LONGVARBINARY"
| "to_odbc_type st_blob = SQL_BLOB"
| "to_odbc_type st_date = SQL_DATE"
| "to_odbc_type st_time = SQL_TIME"
| "to_odbc_type st_timestamp = SQL_TIMESTAMP"
| "to_odbc_type st_type_date = SQL_TYPE_DATE"
| "to_odbc_type st_type_time = SQL_TYPE_TIME"
| "to_odbc_type st_type_timestamp = SQL_TYPE_TIMESTAMP"
| "to_odbc_type st_interval_year = SQL_INTERVAL_YEAR"
| "to_odbc_type st_interval_month = SQL_INTERVAL_MONTH"
| "to_odbc_type st_interval_year_to_month = SQL_INTERVAL_YEAR_TO_MONTH"
| "to_odbc_type st_interval_day = SQL_INTERVAL_DAY"
| "to_odbc_type st_interval_hour = SQL_INTERVAL_HOUR"
| "to_odbc_type st_interval_minute = SQL_INTERVAL_MINUTE"
| "to_odbc_type st_interval_second = SQL_INTERVAL_SECOND"
| "to_odbc_type st_interval_day_to_hour = SQL_INTERVAL_DAY_TO_HOUR"
| "to_odbc_type st_interval_day_to_minute = SQL_INTERVAL_DAY_TO_MINUTE"
| "to_odbc_type st_interval_day_to_second = SQL_INTERVAL_DAY_TO_SECOND"
| "to_odbc_type st_interval_hour_to_minute = SQL_INTERVAL_HOUR_TO_MINUTE"
| "to_odbc_type st_interval_hour_to_second = SQL_INTERVAL_HOUR_TO_SECOND"
| "to_odbc_type st_interval_minute_to_second = SQL_INTERVAL_MINUTE_TO_SECOND"
| "to_odbc_type st_guid = SQL_GUID"
| "to_odbc_type st_unknown = SQL_UNKNOWN_TYPE"
| "to_odbc_type st_count = SQL_UNKNOWN_TYPE"

definition to_odbc :: "odbc_consts \<Rightarrow> sql_type \<Rightarrow> i16" where
  "to_odbc k t = sql_type_value k (to_odbc_type t)"

primrec to_odbc_c_type :: "sql_type \<Rightarrow> odbc_c_type" where
  "to_odbc_c_type st_integer = SQL_C_SLONG"
| "to_odbc_c_type st_smallint = SQL_C_SHORT"
| "to_odbc_c_type st_bigint = SQL_C_SBIGINT"
| "to_odbc_c_type st_tiny_int = SQL_C_STINYINT"
| "to_odbc_c_type st_float = SQL_C_DOUBLE"
| "to_odbc_c_type st_real = SQL_C_FLOAT"
| "to_odbc_c_type st_double = SQL_C_DOUBLE"
| "to_odbc_c_type st_bit = SQL_C_BIT"
| "to_odbc_c_type st_char = SQL_C_CHAR"
| "to_odbc_c_type st_numeric = SQL_C_CHAR"
| "to_odbc_c_type st_decimal = SQL_C_CHAR"
| "to_odbc_c_type st_var_char = SQL_C_CHAR"
| "to_odbc_c_type st_decfloat = SQL_C_CHAR"
| "to_odbc_c_type st_long_var_char = SQL_C_CHAR"
| "to_odbc_c_type st_clob = SQL_C_CHAR"
| "to_odbc_c_type st_xml = SQL_C_CHAR"
| "to_odbc_c_type st_wchar = SQL_C_WCHAR"
| "to_odbc_c_type st_wvar_char = SQL_C_WCHAR"
| "to_odbc_c_type st_wlong_var_char = SQL_C_WCHAR"
| "to_odbc_c_type st_dbclob = SQL_C_WCHAR"
| "to_odbc_c_type st_graphic = SQL_C_BINARY"
| "to_odbc_c_type st_var_graphic = SQL_C_BINARY"
| "to_odbc_c_type st_binary = SQL_C_BINARY"
| "to_odbc_c_type st_var_binary = SQL_C_BINARY"
| "to_odbc_c_type st_long_var_binary = SQL_C_BINARY"
| "to_odbc_c_type st_blob = SQL_C_BINARY"
| "to_odbc_c_type st_date = SQL_C_TYPE_DATE"
| "to_odbc_c_type st_type_date = SQL_C_TYPE_DATE"
| "to_odbc_c_type st_time = SQL_C_TYPE_TIME"
| "to_odbc_c_type st_type_time = SQL_C_TYPE_TIME"
| "to_odbc_c_type st_timestamp = SQL_C_TYPE_TIMESTAMP"
| "to_odbc_c_type st_type_timestamp = SQL_C_TYPE_TIMESTAMP"
| "to_odbc_c_type st_interval_year = SQL_C_INTERVAL_YEAR"
| "to_odbc_c_type st_interval_month = SQL_C_INTERVAL_MONTH"
| "to_odbc_c_type st_interval_year_to_month = SQL_C_INTERVAL_YEAR_TO_MONTH"
| "to_odbc_c_type st_interval_day = SQL_C_INTERVAL_DAY"
| "to_odbc_c_type st_interval_hour = SQL_C_INTERVAL_HOUR"
| "to_odbc_c_type st_interval_minute = SQL_C_INTERVAL_MINUTE"
| "to_odbc_c_type st_interval_second = SQL_C_INTERVAL_SECOND"
| "to_odbc_c_type st_interval_day_to_hour = SQL_C_INTERVAL_DAY_TO_HOUR"
| "to_odbc_c_type st_interval_day_to_minute = SQL_C_INTERVAL_DAY_TO_MINUTE"
| "to_odbc_c_type st_interval_day_to_second = SQL_C_INTERVAL_DAY_TO_SECOND"
| "to_odbc_c_type st_interval_hour_to_minute = SQL_C_INTERVAL_HOUR_TO_MINUTE"
| "to_odbc_c_type st_interval_hour_to_second = SQL_C_INTERVAL_HOUR_TO_SECOND"
| "to_odbc_c_type st_interval_minute_to_second = SQL_C_INTERVAL_MINUTE_TO_SECOND"
| "to_odbc_c_type st_guid = SQL_C_GUID"
| "to_odbc_c_type st_unknown = SQL_C_DEFAULT"
| "to_odbc_c_type st_count = SQL_C_DEFAULT"

definition to_odbc_c :: "odbc_consts \<Rightarrow> sql_type \<Rightarrow> i16" where
  "to_odbc_c k t = sql_c_type_value k (to_odbc_c_type t)"

subsection \<open>Properties\<close>

text \<open>The labels are distinct, and \<open>SQL_UNKNOWN_TYPE\<close> is none of them.\<close>

definition labels_distinct :: "odbc_consts \<Rightarrow> bool" where
  "labels_distinct k \<longleftrightarrow> distinct (map (sql_type_value k \<circ> fst) from_odbc_cases)
     \<and> sql_type_value k SQL_UNKNOWN_TYPE \<notin> set (map (sql_type_value k \<circ> fst) from_odbc_cases)"

lemma find_distinct_label:
  assumes "distinct (map (\<lambda>x. f (fst x)) xs)" "(l, t) \<in> set xs"
  shows "find (\<lambda>(l', t'). f l' = f l) xs = Some (l, t)"
  using assms
proof (induction xs)
  case (Cons x xs)
  show ?case
  proof (cases "f (fst x) = f l")
    case True
    then have "(l, t) \<notin> set xs" using Cons.prems(1) by (force simp: image_iff)
    with Cons.prems(2) True show ?thesis by (auto simp: split_beta)
  next
    case False
    with Cons show ?thesis by (auto simp: split_beta)
  qed
qed simp

lemma find_no_label:
  assumes "c \<notin> set (map (\<lambda>x. f (fst x)) xs)"
  shows "find (\<lambda>(l', t'). f l' = c) xs = None"
  using assms by (induction xs) (auto simp: split_beta)

lemma from_odbc_label: "labels_distinct k \<Longrightarrow> (l, t) \<in> set from_odbc_cases \<Longrightarrow> from_odbc k (sql_type_value k l) = t"
  using find_distinct_label [of "sql_type_value k" from_odbc_cases l t]
  by (simp add: from_odbc_def labels_distinct_def comp_def)

lemma from_odbc_unknown: "labels_distinct k \<Longrightarrow> from_odbc k (sql_type_value k SQL_UNKNOWN_TYPE) = st_unknown"
  using find_no_label [of "sql_type_value k SQL_UNKNOWN_TYPE" "sql_type_value k" from_odbc_cases]
  by (simp add: from_odbc_def labels_distinct_def comp_def)

lemma to_odbc_in_cases: "t \<noteq> st_unknown \<Longrightarrow> t \<noteq> st_count \<Longrightarrow> (to_odbc_type t, t) \<in> set from_odbc_cases"
  by (cases t) (simp_all add: from_odbc_cases_def)

lemma cases_to_odbc: "list_all (\<lambda>(l, t). to_odbc_type t = l \<and> t \<noteq> st_unknown) from_odbc_cases"
  by (simp add: from_odbc_cases_def)

text \<open>the two sides of the DB2 type translation agree. Every neutral type except the sentinels comes
  back from its ODBC code unchanged; every code the driver reports is either unmapped, and then
  declared as \<open>SQL_UNKNOWN_TYPE\<close>, or is reproduced exactly when the column is bound again.\<close>

theorem odbc_roundtrip:
  assumes "labels_distinct k"
  shows "from_odbc k (to_odbc k t) = (if t = st_count then st_unknown else t)
    \<and> (if from_odbc k c = st_unknown then to_odbc k (from_odbc k c) = sql_type_value k SQL_UNKNOWN_TYPE
       else to_odbc k (from_odbc k c) = c)"
proof
  show "from_odbc k (to_odbc k t) = (if t = st_count then st_unknown else t)"
  proof (cases "t = st_unknown \<or> t = st_count")
    case True
    then show ?thesis using from_odbc_unknown [OF assms] by (elim disjE) (simp_all add: to_odbc_def)
  next
    case False
    then have "(to_odbc_type t, t) \<in> set from_odbc_cases" by (intro to_odbc_in_cases) simp_all
    from from_odbc_label [OF assms this] False show ?thesis by (simp add: to_odbc_def)
  qed
  show "if from_odbc k c = st_unknown then to_odbc k (from_odbc k c) = sql_type_value k SQL_UNKNOWN_TYPE
       else to_odbc k (from_odbc k c) = c"
  proof (cases "find (\<lambda>(l, t). sql_type_value k l = c) from_odbc_cases")
    case None
    then show ?thesis by (simp add: from_odbc_def to_odbc_def)
  next
    case (Some x)
    then have "x \<in> set from_odbc_cases" "sql_type_value k (fst x) = c"
      by (auto simp: find_Some_iff split_beta)
    with cases_to_odbc Some show ?thesis
      by (cases x) (auto simp: from_odbc_def to_odbc_def list_all_iff)
  qed
qed

text \<open>The storage type of the generated buffer that each C type of the driver is bound to.\<close>

primrec bound_storage :: "odbc_c_type \<Rightarrow> string" where
  "bound_storage SQL_C_SLONG = ''int32_t''"
| "bound_storage SQL_C_SHORT = ''int16_t''"
| "bound_storage SQL_C_SBIGINT = ''int64_t''"
| "bound_storage SQL_C_STINYINT = ''int8_t''"
| "bound_storage SQL_C_DOUBLE = ''double''"
| "bound_storage SQL_C_FLOAT = ''float''"
| "bound_storage SQL_C_BIT = ''bool''"
| "bound_storage SQL_C_CHAR = ''char''"
| "bound_storage SQL_C_WCHAR = ''wchar_t''"
| "bound_storage SQL_C_BINARY = ''uint8_t''"
| "bound_storage SQL_C_TYPE_DATE = ''rtl::date''"
| "bound_storage SQL_C_TYPE_TIME = ''rtl::time''"
| "bound_storage SQL_C_TYPE_TIMESTAMP = ''rtl::timestamp''"
| "bound_storage SQL_C_INTERVAL_YEAR = ''rtl::interval''"
| "bound_storage SQL_C_INTERVAL_MONTH = ''rtl::interval''"
| "bound_storage SQL_C_INTERVAL_YEAR_TO_MONTH = ''rtl::interval''"
| "bound_storage SQL_C_INTERVAL_DAY = ''rtl::interval''"
| "bound_storage SQL_C_INTERVAL_HOUR = ''rtl::interval''"
| "bound_storage SQL_C_INTERVAL_MINUTE = ''rtl::interval''"
| "bound_storage SQL_C_INTERVAL_SECOND = ''rtl::interval''"
| "bound_storage SQL_C_INTERVAL_DAY_TO_HOUR = ''rtl::interval''"
| "bound_storage SQL_C_INTERVAL_DAY_TO_MINUTE = ''rtl::interval''"
| "bound_storage SQL_C_INTERVAL_DAY_TO_SECOND = ''rtl::interval''"
| "bound_storage SQL_C_INTERVAL_HOUR_TO_MINUTE = ''rtl::interval''"
| "bound_storage SQL_C_INTERVAL_HOUR_TO_SECOND = ''rtl::interval''"
| "bound_storage SQL_C_INTERVAL_MINUTE_TO_SECOND = ''rtl::interval''"
| "bound_storage SQL_C_GUID = ''rtl::guid''"
| "bound_storage SQL_C_DEFAULT = ''void''"

lemma storage_column:
  "map sm_cpp_type_name sql_to_cpp_table
     = map (\<lambda>(t, m, c, s, p, r). s) (unknown_type_entry # known_type_entries)"
  unfolding sql_to_cpp_table_map by (simp add: entry_defs mapping_of_def)

lemma storage_by_index:
  "t \<noteq> st_count \<Longrightarrow> sm_cpp_type_name (get_sql_mapping t)
     = map (\<lambda>(t, m, c, s, p, r). s) (unknown_type_entry # known_type_entries) ! sql_type_index t"
  unfolding storage_column [symmetric]
  by (simp add: get_sql_mapping_nth make_table(2) sql_type_index_less)

text \<open>the driver is told to write what the generated buffer holds: the C type a column is bound as
  determines the storage type that the type table (and with it the generated code) gives the
  column, so two types bound alike are stored alike, and the three string kinds are exactly the
  types of the three string categories.\<close>

theorem bound_as_stored:
  assumes "t \<noteq> st_count"
  shows "sm_cpp_type_name (get_sql_mapping t) = bound_storage (to_odbc_c_type t)
    \<and> (to_odbc_c_type t = SQL_C_CHAR \<longleftrightarrow> sm_category (get_sql_mapping t) = cat_c_string)
    \<and> (to_odbc_c_type t = SQL_C_WCHAR \<longleftrightarrow> sm_category (get_sql_mapping t) = cat_w_string)
    \<and> (to_odbc_c_type t = SQL_C_BINARY \<longleftrightarrow> sm_category (get_sql_mapping t) = cat_b_string)"
  using assms
  by (cases t) (simp_all add: category_by_index storage_by_index entry_defs)

theorem bound_as_stored_witness: "sm_cpp_type_name (get_sql_mapping st_float) = ''double''"
  using bound_as_stored [of st_float] by simp

text \<open>Values of the constants, for concrete runs.\<close>

definition odbc_consts0 :: odbc_consts where
  "odbc_consts0 = \<lparr>sql_success = 0, sql_success_with_info = 1, sql_no_data = 100, sql_error = - 1, sql_param_error = 5,
     sql_type_value = (\<lambda>l. case map_of (zip (map fst from_odbc_cases) (map of_nat [1..<47])) l of
        Some v \<Rightarrow> v | None \<Rightarrow> 0),
     sql_c_type_value = (\<lambda>_. 0)\<rparr>"

lemma labels_distinct0: "labels_distinct odbc_consts0"
  unfolding labels_distinct_def by code_simp

theorem odbc_roundtrip_witness: "from_odbc odbc_consts0 (to_odbc odbc_consts0 st_guid) = st_guid"
  using odbc_roundtrip [OF labels_distinct0, of st_guid] by simp

end
