(* ===== verification/Db2_Query.thy ===== *)
theory Db2_Query
  imports Db2_Types Db_Error Buffers Row_Cursor
begin

text \<open>
  A prepared statement with its parameter and result buffers on DB2 (\<open>src/rtl/db2/query.hpp\<close>).
  The driver is a parameter: what its calls answer is an argument of the operations, and the
  calls an operation makes are returned as a list, so that the ownership of the statement handle
  and the addresses the driver was given can be followed. A handle is a number, 0 is
  \<open>SQL_NULL_HSTMT\<close>; an object is named by its address. An error that asks the driver for its
  diagnostics is kept as the call that asks (\<open>Odbc_err\<close>); \<open>error_value\<close> makes the \<open>odbc_error\<close>
  of it. Lines logged at debug and trace level are left out.
\<close>

subsection \<open>Calls and errors\<close>

datatype stmt_error =
    Odbc_err sqlreturn nat handle_type_enum nat
  | Client_err string

text \<open>\<open>diag h t rec\<close> is what \<open>SQLGetDiagRec\<close> leaves behind for record \<open>rec\<close>.\<close>

definition error_value ::
  "odbc_consts \<Rightarrow> (nat \<Rightarrow> handle_type_enum \<Rightarrow> nat \<Rightarrow> diag_rec) \<Rightarrow> stmt_error \<Rightarrow> odbc_error cpp" where
  "error_value k diag e =
     (case e of
        Odbc_err ret h t rec \<Rightarrow> make_odbc_error ret (diag h t rec)
      | Client_err msg \<Rightarrow> Ret (odbc_error_client (sql_error k) msg))"

datatype stmt_attr =
    SQL_ATTR_PARAMSET_SIZE nat
  | SQL_ATTR_PARAMS_PROCESSED_PTR nat
  | SQL_ATTR_PARAM_STATUS_PTR
  | SQL_ATTR_PARAMOPT_ATOMIC_NO
  | SQL_ATTR_ROW_ARRAY_SIZE nat
  | SQL_ATTR_ROWS_FETCHED_PTR nat

datatype odbc_call =
    SQLAllocHandle
  | SQLFreeHandle nat
  | SQLPrepare nat string
  | SQLBindParameter nat nat i16 i16 u32 i16 nat
  | SQLBindCol nat nat i16 nat
  | SQLSetStmtAttr nat stmt_attr
  | SQLExecute nat
  | SQLRowCount nat
  | SQLFetchScroll nat
  | SQLCancel nat

subsection \<open>The statement object\<close>

record ('f, 'd) db2_query =
  dq_self :: nat
  dq_db :: bool
  dq_stmt :: nat
  dq_sql :: string
  dq_par :: "('f, 'd) par_storage buffer_root"
  dq_res :: "('f, 'd) column list buffer_root"
  dq_bound_par_layout :: u64
  dq_bound_res_layout :: u64
  dq_params_processed :: nat
  dq_rows_fetched :: nat
  dq_affected_rows :: i32

definition db2_make_query ::
  "nat \<Rightarrow> bool \<Rightarrow> string \<Rightarrow> ('f, 'd) par_storage buffer_root \<Rightarrow> ('f, 'd) column list buffer_root
     \<Rightarrow> ('f, 'd) db2_query cpp" where
  "db2_make_query self db sql par0 res0 =
     (if \<not> db then Throws ''db pointer cannot be null''
      else Ret \<lparr>dq_self = self, dq_db = True, dq_stmt = 0, dq_sql = sql, dq_par = par0, dq_res = res0,
                dq_bound_par_layout = 0, dq_bound_res_layout = 0, dq_params_processed = 0,
                dq_rows_fetched = 0, dq_affected_rows = 0\<rparr>)"

definition db2_is_prepared :: "('f, 'd) db2_query \<Rightarrow> bool" where
  "db2_is_prepared q \<longleftrightarrow> dq_stmt q \<noteq> 0"

text \<open>The move constructor into an object at \<open>self\<close>: the new object, what is left of the source, and
  the calls that give the driver the new addresses of the two counters. A moved-from string is
  empty.\<close>

definition db2_move_query ::
  "stmt_type \<Rightarrow> nat \<Rightarrow> ('f, 'd) db2_query \<Rightarrow> ('f, 'd) db2_query \<times> ('f, 'd) db2_query \<times> odbc_call list" where
  "db2_move_query ty self q =
     (q\<lparr>dq_self := self\<rparr>, q\<lparr>dq_sql := [], dq_stmt := 0, dq_db := False\<rparr>,
      if dq_stmt q \<noteq> 0
      then (if has_p ty then [SQLSetStmtAttr (dq_stmt q) (SQL_ATTR_PARAMS_PROCESSED_PTR self)] else [])
         @ (if has_r ty then [SQLSetStmtAttr (dq_stmt q) (SQL_ATTR_ROWS_FETCHED_PTR self)] else [])
      else [])"

definition db2_destroy_query :: "('f, 'd) db2_query \<Rightarrow> odbc_call list" where
  "db2_destroy_query q = (if dq_stmt q \<noteq> 0 then [SQLFreeHandle (dq_stmt q)] else [])"

subsection \<open>Preparing\<close>

text \<open>What the driver answers to the calls of \<open>prepare\<close>; the bind calls are numbered from 0.\<close>

record prepare_answers =
  an_alloc :: sqlreturn
  an_handle :: nat
  an_prepare :: sqlreturn
  an_bind_param :: "nat \<Rightarrow> sqlreturn"
  an_bind_col :: "nat \<Rightarrow> sqlreturn"

text \<open>A loop of bind calls: the calls made, and the index of the call that failed, if one did.\<close>

fun bind_loop ::
  "odbc_consts \<Rightarrow> (nat \<Rightarrow> sqlreturn) \<Rightarrow> (nat \<Rightarrow> 'b \<Rightarrow> odbc_call) \<Rightarrow> nat \<Rightarrow> 'b list \<Rightarrow> odbc_call list \<times> nat option" where
  "bind_loop k ans call i [] = ([], None)"
| "bind_loop k ans call i (c # cs) =
     (if \<not> is_odbc_success k (ans i) then ([call i c], Some i)
      else let (calls, failed) = bind_loop k ans call (Suc i) cs in (call i c # calls, failed))"

text \<open>\<open>stride\<close> is the byte size of an element, from the generated \<open>buffer_description_init\<close>.\<close>

definition bind_param_call :: "odbc_consts \<Rightarrow> (buffer_dscr_const \<Rightarrow> nat) \<Rightarrow> nat \<Rightarrow> nat \<Rightarrow> buffer_dscr_const \<Rightarrow> odbc_call" where
  "bind_param_call k stride h i c =
     SQLBindParameter h (i + 1) (to_odbc_c k (bd_type c)) (to_odbc k (bd_type c)) (bd_column_size c)
       (bd_decimal_digits c) (stride c)"

definition bind_col_call :: "odbc_consts \<Rightarrow> (buffer_dscr_const \<Rightarrow> nat) \<Rightarrow> nat \<Rightarrow> nat \<Rightarrow> buffer_dscr_const \<Rightarrow> odbc_call" where
  "bind_col_call k stride h i c = SQLBindCol h (i + 1) (to_odbc_c k (bd_type c)) (stride c)"

definition db2_par_rows :: "('f, 'd) db2_query \<Rightarrow> nat" where
  "db2_par_rows q = gen_buffer_size (ps_cols (br_storage (dq_par q)))"

definition db2_prepare ::
  "odbc_consts \<Rightarrow> stmt_type \<Rightarrow> (buffer_dscr_const \<Rightarrow> nat) \<Rightarrow> prepare_answers \<Rightarrow> ('f, 'd) db2_query
     \<Rightarrow> (stmt_error + unit) \<times> ('f, 'd) db2_query \<times> odbc_call list" where
  "db2_prepare k ty stride an q =
     (let c0 = (if db2_is_prepared q then [SQLFreeHandle (dq_stmt q)] else []) @ [SQLAllocHandle] in
      if \<not> is_odbc_success k (an_alloc an) then (Inl (Odbc_err (an_alloc an) 0 ht_conn 1), q, c0)
      else
        let h = an_handle an; q1 = q\<lparr>dq_stmt := h\<rparr>; c1 = c0 @ [SQLPrepare h (dq_sql q)] in
        if \<not> is_odbc_success k (an_prepare an) then (Inl (Odbc_err (an_prepare an) h ht_stmt 1), q1, c1)
        else
          let (pc, pf) = bind_loop k (an_bind_param an) (bind_param_call k stride h) 0 (sy_pd ty) in
          case pf of
            Some i \<Rightarrow> (Inl (Odbc_err (an_bind_param an i) h ht_stmt (i + 1)), q1, c1 @ pc)
          | None \<Rightarrow>
              let c2 = c1 @ pc
                @ (if has_p ty
                   then [SQLSetStmtAttr h (SQL_ATTR_PARAMSET_SIZE (db2_par_rows q)),
                         SQLSetStmtAttr h (SQL_ATTR_PARAMS_PROCESSED_PTR (dq_self q))]
                     @ (if db2_par_rows q > 1
                        then [SQLSetStmtAttr h SQL_ATTR_PARAM_STATUS_PTR, SQLSetStmtAttr h SQL_ATTR_PARAMOPT_ATOMIC_NO]
                        else [])
                   else []);
                  (rc, rf) = bind_loop k (an_bind_col an) (bind_col_call k stride h) 0 (sy_rd ty)
              in case rf of
                   Some i \<Rightarrow> (Inl (Odbc_err (an_bind_col an i) h ht_stmt (i + 1)), q1, c2 @ rc)
                 | None \<Rightarrow>
                     (Inr (), q1\<lparr>
                        dq_bound_par_layout := (if has_p ty then br_layout_generation (dq_par q) else dq_bound_par_layout q),
                        dq_bound_res_layout := (if has_r ty then br_layout_generation (dq_res q) else dq_bound_res_layout q)\<rparr>,
                      c2 @ rc @ (if has_r ty
                        then [SQLSetStmtAttr h (SQL_ATTR_ROW_ARRAY_SIZE (gen_buffer_size (br_storage (dq_res q)))),
                              SQLSetStmtAttr h (SQL_ATTR_ROWS_FETCHED_PTR (dq_self q))]
                        else [])))"

definition db2_check_layout :: "stmt_type \<Rightarrow> ('f, 'd) db2_query \<Rightarrow> stmt_error + unit" where
  "db2_check_layout ty q =
     (if has_p ty \<and> br_layout_generation (dq_par q) \<noteq> dq_bound_par_layout q
      then Inl (Client_err (''parameter buffer was resized after prepare(); ''
        @ ''call set_buffer_size() before prepare(), then prepare() again''))
      else if has_r ty \<and> br_layout_generation (dq_res q) \<noteq> dq_bound_res_layout q
      then Inl (Client_err (''result buffer was resized after prepare(); ''
        @ ''call set_buffer_size() before prepare(), then prepare() again''))
      else Inr ())"

subsection \<open>Executing and fetching\<close>

text \<open>What \<open>SQLExecute\<close> and \<open>SQLRowCount\<close> answer, and what the driver leaves in the parameter
  bookkeeping: the counter it was given the address of, and the status of each row.\<close>

record execute_answers =
  an_execute :: sqlreturn
  an_processed :: "nat option"
  an_row_status :: "u16 list"
  an_row_count :: sqlreturn
  an_affected :: i32

definition clear_row_status :: "('f, 'd) par_storage buffer_root \<Rightarrow> ('f, 'd) par_storage buffer_root" where
  "clear_row_status b = (let st = br_storage b in b\<lparr>br_storage := st\<lparr>ps_row_status := map (\<lambda>_. 0) (ps_row_status st)\<rparr>\<rparr>)"

text \<open>The warnings the batch leaves in the log come last.\<close>

definition db2_execute ::
  "odbc_consts \<Rightarrow> stmt_type \<Rightarrow> execute_answers \<Rightarrow> ('f, 'd) db2_query
     \<Rightarrow> (stmt_error + unit) \<times> ('f, 'd) db2_query \<times> odbc_call list \<times> string list" where
  "db2_execute k ty an q =
     (if \<not> db2_is_prepared q then (Inl (Odbc_err (sql_error k) 0 ht_stmt 1), q, [], [])
      else case db2_check_layout ty q of
        Inl e \<Rightarrow> (Inl e, q, [], [])
      | Inr _ \<Rightarrow>
          let st = br_storage (clear_row_status (dq_par q));
              batch = (has_p ty \<and> db2_par_rows q > 1);
              q1 = (if has_p ty
                    then q\<lparr>dq_par := (dq_par q)\<lparr>br_storage := st\<lparr>ps_row_status :=
                              (if batch then an_row_status an else ps_row_status st)\<rparr>\<rparr>,
                           dq_params_processed := (case an_processed an of Some n \<Rightarrow> n | None \<Rightarrow> dq_params_processed q)\<rparr>
                    else q)
          in if \<not> is_odbc_success k (an_execute an) \<and> an_execute an \<noteq> sql_no_data k
             then (Inl (Odbc_err (an_execute an) (dq_stmt q) ht_stmt 1), q1, [SQLExecute (dq_stmt q)], [])
             else
               let errors = length (filter (\<lambda>s. s = sql_param_error k) (ps_row_status (br_storage (dq_par q1)))) in
               (Inr (),
                q1\<lparr>dq_affected_rows := (if an_row_count an \<noteq> sql_success k then - 1 else an_affected an)\<rparr>,
                [SQLExecute (dq_stmt q), SQLRowCount (dq_stmt q)],
                if batch \<and> errors > 0
                then [''Batch execute completed with '' @ dec errors @ '' errors.''] else []))"

text \<open>What \<open>SQLFetchScroll\<close> answers: its return code, the count it left in \<open>rows_fetched_\<close> (if this
  object's counter is the one the driver was given), and the columns it wrote.\<close>

record ('f, 'd) fetch_answers =
  an_fetch :: sqlreturn
  an_count :: "nat option"
  an_cols :: "('f, 'd) column list"

definition overflow_message :: "nat \<Rightarrow> nat \<Rightarrow> string" where
  "overflow_message reported max_allowed =
     ''FATAL ODBC DRIVER ERROR: SQLFetchScroll reported '' @ dec reported @ '' rows, ''
     @ ''but the buffer holds only '' @ dec max_allowed @ ''. Buffer overflow detected. ''
     @ ''Data integrity compromised. Terminating application.''"

definition db2_fetch ::
  "odbc_consts \<Rightarrow> stmt_type \<Rightarrow> ('f, 'd) fetch_answers \<Rightarrow> ('f, 'd) db2_query
     \<Rightarrow> (stmt_error + bool) \<times> ('f, 'd) db2_query \<times> string list" where
  "db2_fetch k ty an q =
     (if \<not> db2_is_prepared q then (Inl (Odbc_err (sql_error k) 0 ht_stmt 1), q, [])
      else case db2_check_layout ty q of
        Inl e \<Rightarrow> (Inl e, q, [])
      | Inr _ \<Rightarrow>
          if \<not> has_r ty then (Inr False, q, [])
          else
            let q1 = q\<lparr>dq_rows_fetched := (case an_count an of Some n \<Rightarrow> n | None \<Rightarrow> 0),
                       dq_res := (dq_res q)\<lparr>br_storage := an_cols an\<rparr>\<rparr>;
                max_allowed = gen_buffer_size (br_storage (dq_res q));
                reported = dq_rows_fetched q1
            in if an_fetch an = sql_no_data k then (Inr False, q1\<lparr>dq_res := set_occupied 0 (dq_res q1)\<rparr>, [])
               else if \<not> is_odbc_success k (an_fetch an)
               then (Inl (Odbc_err (an_fetch an) (dq_stmt q) ht_stmt 1), q1, [])
               else if reported > max_allowed
               then (Inl (Odbc_err (sql_error k) 0 ht_stmt 1), q1, [overflow_message reported max_allowed])
               else (Inr (reported > 0), q1\<lparr>dq_res := set_occupied reported (dq_res q1)\<rparr>, []))"

definition db2_reset :: "stmt_type \<Rightarrow> ('f, 'd) db2_query \<Rightarrow> ('f, 'd) db2_query \<times> odbc_call list" where
  "db2_reset ty q =
     (let q1 = (if db2_is_prepared q
                then q\<lparr>dq_stmt := 0,
                       dq_params_processed := (if has_p ty then 0 else dq_params_processed q),
                       dq_rows_fetched := (if has_r ty then 0 else dq_rows_fetched q)\<rparr>
                else q)
      in (q1\<lparr>dq_par := (if has_p ty
               then (let st = br_storage (dq_par q) in
                 (dq_par q)\<lparr>br_storage := st\<lparr>ps_cols := reset_all_null (ps_cols st),
                    ps_row_status := map (\<lambda>_. 0) (ps_row_status st)\<rparr>\<rparr>)
               else dq_par q),
             dq_res := (if has_r ty then set_occupied 0 (dq_res q) else dq_res q)\<rparr>,
          db2_destroy_query q))"

text \<open>\<open>sent\<close> is the answer of \<open>SQLCancel\<close>.\<close>

definition db2_cancel :: "odbc_consts \<Rightarrow> sqlreturn \<Rightarrow> ('f, 'd) db2_query \<Rightarrow> bool \<times> odbc_call list" where
  "db2_cancel k sent q =
     (if dq_stmt q = 0 then (False, []) else (is_odbc_success k sent, [SQLCancel (dq_stmt q)]))"

subsection \<open>The life of a statement handle\<close>

text \<open>What a program may do with one statement: prepare it (again), move it, reset it.\<close>

datatype db2_op = Op_prepare prepare_answers | Op_move nat | Op_reset

fun run_op :: "odbc_consts \<Rightarrow> stmt_type \<Rightarrow> (buffer_dscr_const \<Rightarrow> nat) \<Rightarrow> db2_op \<Rightarrow> ('f, 'd) db2_query
    \<Rightarrow> ('f, 'd) db2_query \<times> odbc_call list" where
  "run_op k ty stride (Op_prepare an) q = (let (r, q', cs) = db2_prepare k ty stride an q in (q', cs))"
| "run_op k ty stride (Op_move self) q = (let (q', husk, cs) = db2_move_query ty self q in (q', cs @ db2_destroy_query husk))"
| "run_op k ty stride Op_reset q = db2_reset ty q"

fun run_ops :: "odbc_consts \<Rightarrow> stmt_type \<Rightarrow> (buffer_dscr_const \<Rightarrow> nat) \<Rightarrow> db2_op list \<Rightarrow> ('f, 'd) db2_query
    \<Rightarrow> ('f, 'd) db2_query \<times> odbc_call list" where
  "run_ops k ty stride [] q = (q, [])"
| "run_ops k ty stride (op # ops) q =
     (let (q', cs) = run_op k ty stride op q; (q'', cs') = run_ops k ty stride ops q' in (q'', cs @ cs'))"

primrec freed :: "odbc_call \<Rightarrow> nat list" where
  "freed SQLAllocHandle = []" | "freed (SQLFreeHandle h) = [h]" | "freed (SQLPrepare h s) = []"
| "freed (SQLBindParameter a b c d e f g) = []" | "freed (SQLBindCol a b c d) = []"
| "freed (SQLSetStmtAttr h a) = []" | "freed (SQLExecute h) = []" | "freed (SQLRowCount h) = []"
| "freed (SQLFetchScroll h) = []" | "freed (SQLCancel h) = []"

definition frees :: "odbc_call list \<Rightarrow> nat list" where
  "frees cs = concat (map freed cs)"

lemma frees_simps [simp]: "frees [] = []" "frees (c # cs) = freed c @ frees cs" "frees (cs @ ds) = frees cs @ frees ds"
  by (simp_all add: frees_def)

fun allocated :: "db2_op list \<Rightarrow> nat list" where
  "allocated [] = []"
| "allocated (Op_prepare an # ops) = an_handle an # allocated ops"
| "allocated (_ # ops) = allocated ops"

definition owned :: "('f, 'd) db2_query \<Rightarrow> nat list" where
  "owned q = (if dq_stmt q = 0 then [] else [dq_stmt q])"

text \<open>The driver gave a handle to every \<open>prepare\<close> of the run.\<close>

definition alloc_ok :: "odbc_consts \<Rightarrow> db2_op \<Rightarrow> bool" where
  "alloc_ok k op = (case op of Op_prepare an \<Rightarrow> is_odbc_success k (an_alloc an) \<and> an_handle an \<noteq> 0 | _ \<Rightarrow> True)"

lemma frees_bind_loop:
  "(\<And>i c. freed (call i c) = []) \<Longrightarrow> bind_loop k ans call i cs = (calls, f) \<Longrightarrow> frees calls = []"
  by (induction k ans call i cs arbitrary: calls f rule: bind_loop.induct)
     (auto split: if_splits prod.splits)

lemma prepare_handles:
  assumes "is_odbc_success k (an_alloc an)" "db2_prepare k ty stride an q = (r, q', cs)"
  shows "frees cs = owned q \<and> dq_stmt q' = an_handle an \<and> dq_self q' = dq_self q"
proof -
  have p: "frees calls = []" if "bind_loop k (an_bind_param an) (bind_param_call k stride h) 0 xs = (calls, f)" for h xs calls f
    using frees_bind_loop [OF _ that] by (simp add: bind_param_call_def)
  have c: "frees calls = []" if "bind_loop k (an_bind_col an) (bind_col_call k stride h) 0 xs = (calls, f)" for h xs calls f
    using frees_bind_loop [OF _ that] by (simp add: bind_col_call_def)
  from assms show ?thesis
    by (auto simp: db2_prepare_def Let_def owned_def db2_is_prepared_def split: if_splits prod.splits option.splits dest!: p c)
qed

lemma run_op_handles:
  assumes "alloc_ok k op" "run_op k ty stride op q = (q', cs)"
  shows "frees cs @ owned q' = owned q @ allocated [op]"
proof (cases op)
  case (Op_prepare an)
  obtain r q1 c1 where d: "db2_prepare k ty stride an q = (r, q1, c1)" by (cases "db2_prepare k ty stride an q") auto
  show ?thesis
    using prepare_handles [OF _ d] assms by (auto simp: Op_prepare d alloc_ok_def owned_def)
qed (use assms in \<open>auto simp: db2_move_query_def db2_destroy_query_def db2_reset_def owned_def Let_def
      db2_is_prepared_def split: if_splits\<close>)

lemma run_ops_handles:
  "list_all (alloc_ok k) ops \<Longrightarrow> run_ops k ty stride ops q = (q', cs) \<Longrightarrow> frees cs @ owned q' = owned q @ allocated ops"
proof (induction ops arbitrary: q q' cs)
  case (Cons op ops)
  obtain q1 c1 where o: "run_op k ty stride op q = (q1, c1)" by fastforce
  obtain q2 c2 where r: "run_ops k ty stride ops q1 = (q2, c2)" by fastforce
  have "allocated (op # ops) = allocated [op] @ allocated ops" by (cases op) simp_all
  with run_op_handles [OF _ o] Cons.IH [OF _ r] Cons.prems o r show ?case by auto
qed simp

text \<open>C26: statement handles are freed exactly once, in the order they were allocated: whatever run of
  prepares, moves and resets a program makes of a new statement object, as long as the driver
  grants the handles, the frees of the run followed by the destructor are exactly the handles
  that were allocated. A prepare that is refused a handle breaks this: the old handle was freed
  already, the object still names it, and the destructor frees it a second time.\<close>

theorem handles_freed_once:
  "(list_all (alloc_ok k) ops \<and> dq_stmt q = 0 \<longrightarrow>
      frees (snd (run_ops k ty stride ops q) @ db2_destroy_query (fst (run_ops k ty stride ops q))) = allocated ops)
   \<and> (\<not> is_odbc_success k (an_alloc an) \<and> dq_stmt q \<noteq> 0 \<longrightarrow>
      frees (snd (run_ops k ty stride [Op_prepare an] q) @ db2_destroy_query (fst (run_ops k ty stride [Op_prepare an] q)))
        = [dq_stmt q, dq_stmt q])"
proof (intro conjI impI)
  assume a: "list_all (alloc_ok k) ops \<and> dq_stmt q = 0"
  have "frees (snd (run_ops k ty stride ops q)) @ owned (fst (run_ops k ty stride ops q)) = owned q @ allocated ops"
    using run_ops_handles [of k ops ty stride q "fst (run_ops k ty stride ops q)" "snd (run_ops k ty stride ops q)"] a
    by simp
  with a show "frees (snd (run_ops k ty stride ops q) @ db2_destroy_query (fst (run_ops k ty stride ops q))) = allocated ops"
    by (auto simp: owned_def db2_destroy_query_def split: if_splits)
next
  assume "\<not> is_odbc_success k (an_alloc an) \<and> dq_stmt q \<noteq> 0"
  then show "frees (snd (run_ops k ty stride [Op_prepare an] q) @ db2_destroy_query (fst (run_ops k ty stride [Op_prepare an] q)))
        = [dq_stmt q, dq_stmt q]"
    by (simp add: db2_prepare_def db2_is_prepared_def db2_destroy_query_def Let_def)
qed

subsection \<open>The addresses the driver writes to\<close>

text \<open>The address the driver was given last for the row counter of a handle.\<close>

fun fetched_ptr :: "nat \<Rightarrow> odbc_call list \<Rightarrow> nat option" where
  "fetched_ptr h [] = None"
| "fetched_ptr h (c # cs) =
     (case fetched_ptr h cs of
        Some a \<Rightarrow> Some a
      | None \<Rightarrow> (case c of SQLSetStmtAttr h' (SQL_ATTR_ROWS_FETCHED_PTR a) \<Rightarrow> if h' = h then Some a else None | _ \<Rightarrow> None))"

lemma fetched_ptr_append:
  "fetched_ptr h (cs @ ds) = (case fetched_ptr h ds of Some a \<Rightarrow> Some a | None \<Rightarrow> fetched_ptr h cs)"
  by (induction cs) (auto split: option.splits)

definition db2_move_to :: "stmt_type \<Rightarrow> nat \<Rightarrow> ('f, 'd) db2_query \<times> odbc_call list \<Rightarrow> ('f, 'd) db2_query \<times> odbc_call list" where
  "db2_move_to ty self st = (let (q', husk, cs) = db2_move_query ty self (fst st) in (q', snd st @ cs))"

lemma move_to_ptr:
  assumes "has_r ty" "dq_stmt q \<noteq> 0" "fetched_ptr (dq_stmt q) cs = Some (dq_self q)"
  shows "let st = fold (db2_move_to ty) selfs (q, cs) in
      dq_stmt (fst st) = dq_stmt q \<and> fetched_ptr (dq_stmt q) (snd st) = Some (dq_self (fst st))"
  using assms
proof (induction selfs arbitrary: q cs)
  case (Cons a selfs)
  let ?q = "q\<lparr>dq_self := a\<rparr>" and ?cs = "snd (db2_move_to ty a (q, cs))"
  have f: "db2_move_to ty a (q, cs) = (?q, ?cs)" by (simp add: db2_move_to_def db2_move_query_def)
  have "fetched_ptr (dq_stmt ?q) ?cs = Some (dq_self ?q)"
    using Cons.prems by (simp add: db2_move_to_def db2_move_query_def fetched_ptr_append)
  with Cons.IH [of ?q ?cs] Cons.prems f show ?case by simp
qed simp

text \<open>the driver always writes the row count into the object that owns the statement: \<open>prepare\<close> gives
  it the address of the counter of the object at hand and every move gives it the new one, so
  after any chain of moves the last address given is that of the current owner.\<close>

theorem row_counter_follows_owner:
  assumes "has_r ty" "an_handle an \<noteq> 0" "db2_prepare k ty stride an q = (Inr (), q1, cs)"
  shows "let st = fold (db2_move_to ty) selfs (q1, cs) in
      dq_stmt (fst st) = an_handle an \<and> fetched_ptr (an_handle an) (snd st) = Some (dq_self (fst st))"
proof -
  have q1: "dq_stmt q1 = an_handle an \<and> dq_self q1 = dq_self q \<and> fetched_ptr (an_handle an) cs = Some (dq_self q)"
    using assms by (auto simp: db2_prepare_def Let_def fetched_ptr_append split: if_splits prod.splits option.splits)
  with move_to_ptr [OF assms(1), of q1 cs selfs] assms(2) show ?thesis by simp
qed

subsection \<open>The outcome of an execute\<close>

text \<open>an \<open>execute\<close> fails exactly when the object is not prepared, its buffers moved, or the driver
  refuses: a statement that matched no row (\<open>SQL_NO_DATA\<close>) is a success. A success reports the
  driver's row count, or -1 when it has none, and a batch with failed rows succeeds as well, with
  their number in one warning.\<close>

theorem db2_execute_outcome:
  assumes "db2_execute k ty an q = (r, q', calls, warnings)"
  shows "(r = Inr () \<longleftrightarrow> dq_stmt q \<noteq> 0 \<and> db2_check_layout ty q = Inr ()
            \<and> (is_odbc_success k (an_execute an) \<or> an_execute an = sql_no_data k))
    \<and> (r = Inr () \<longrightarrow>
        dq_affected_rows q' = (if an_row_count an = sql_success k then an_affected an else - 1)
      \<and> calls = [SQLExecute (dq_stmt q), SQLRowCount (dq_stmt q)]
      \<and> warnings = (let n = length (filter (\<lambda>s. s = sql_param_error k) (an_row_status an)) in
            if has_p ty \<and> db2_par_rows q > 1 \<and> n > 0
            then [''Batch execute completed with '' @ dec n @ '' errors.''] else []))
    \<and> (calls = [] \<longrightarrow> q' = q)"
  using assms
  by (auto simp: db2_execute_def db2_is_prepared_def Let_def split: if_splits sum.splits)

subsection \<open>Bind errors\<close>

lemma bind_loop_fails:
  assumes "\<not> is_odbc_success k (f m)" "\<forall>x. j \<le> x \<and> x < m \<longrightarrow> is_odbc_success k (f x)"
    and "j \<le> m" "m < j + length cs"
  shows "snd (bind_loop k f call j cs) = Some m"
  using assms
proof (induction k f call j cs rule: bind_loop.induct)
  case (2 k f call i c cs)
  show ?case
  proof (cases "i = m")
    case False
    then have "is_odbc_success k (f i)" "Suc i \<le> m" using 2 by auto
    with 2 show ?thesis by (simp add: split_beta Let_def)
  qed (use 2 in simp)
qed simp

text \<open>the failure to bind column \<open>i + 1\<close> asks the driver for its diagnostic record \<open>i + 1\<close>, not for the
  first: with a driver that has one record per failure the reason is lost for every column but
  the first, and the error says that no diagnostic could be retrieved.\<close>

theorem bind_error_message_lost:
  assumes "is_odbc_success k (an_alloc an)" "is_odbc_success k (an_prepare an)"
    and "\<not> has_p ty" "i < length (sy_rd ty)" "\<not> is_odbc_success k (an_bind_col an i)"
    and "list_all (\<lambda>j. is_odbc_success k (an_bind_col an j)) [0..<i]"
    and "list_all (\<lambda>rec. \<not> dr_succeeded (diag (an_handle an) ht_stmt rec)) [2..<n]" "i + 1 < n"
  shows "\<exists>e. fst (db2_prepare k ty stride an q) = Inl e
    \<and> e = Odbc_err (an_bind_col an i) (an_handle an) ht_stmt (i + 1)
    \<and> (0 < i \<longrightarrow> (\<exists>v. error_value k diag e = Ret v \<and> oe_message v = ''ODBC diagnostic retrieval failed''))"
proof -
  have l: "snd (bind_loop k (an_bind_col an) (bind_col_call k stride (an_handle an)) 0 (sy_rd ty)) = Some i"
    using assms(4-6) by (intro bind_loop_fails) (auto simp: list_all_iff)
  have e: "fst (db2_prepare k ty stride an q) = Inl (Odbc_err (an_bind_col an i) (an_handle an) ht_stmt (i + 1))"
    using l assms(1-3) by (auto simp: db2_prepare_def has_p_def Let_def split_beta)
  have "\<not> dr_succeeded (diag (an_handle an) ht_stmt (i + 1))" if "0 < i"
    using assms(7,8) that by (auto simp: list_all_iff)
  with e show ?thesis by (simp add: error_value_def make_odbc_error_def)
qed

subsection \<open>The result set as a cursor\<close>

text \<open>What ODBC documents of \<open>SQLFetchScroll(SQL_FETCH_NEXT)\<close> on a result set whose rows to come are
  \<open>pend\<close>, with \<open>n\<close> rows of buffer: \<open>SQL_NO_DATA\<close> when there are none, otherwise success and the
  number of rows written, as many as fit. The columns keep their shape.\<close>

definition delivers ::
  "odbc_consts \<Rightarrow> buffer_dscr_const list \<Rightarrow> ('row list \<Rightarrow> ('f, 'd) column list \<Rightarrow> ('f, 'd) fetch_answers)
     \<Rightarrow> 'row list \<Rightarrow> ('f, 'd) column list \<Rightarrow> bool" where
  "delivers k rd drv pend cols \<longleftrightarrow>
     (let an = drv pend cols in
      storage_ok rd (an_cols an) \<and> gen_buffer_size (an_cols an) = gen_buffer_size cols
    \<and> (if pend = [] then an_fetch an = sql_no_data k
       else an_fetch an \<noteq> sql_no_data k \<and> is_odbc_success k (an_fetch an)
          \<and> an_count an = Some (min (gen_buffer_size cols) (length pend))))"

definition driver_ok ::
  "odbc_consts \<Rightarrow> buffer_dscr_const list \<Rightarrow> ('row list \<Rightarrow> ('f, 'd) column list \<Rightarrow> ('f, 'd) fetch_answers) \<Rightarrow> bool" where
  "driver_ok k rd drv \<longleftrightarrow> (\<forall>pend cols. storage_ok rd cols \<longrightarrow> delivers k rd drv pend cols)"

text \<open>A statement together with the rows its cursor has still to deliver.\<close>

definition db2_fetch_page ::
  "odbc_consts \<Rightarrow> stmt_type \<Rightarrow> ('row list \<Rightarrow> ('f, 'd) column list \<Rightarrow> ('f, 'd) fetch_answers)
     \<Rightarrow> ('f, 'd) db2_query \<times> 'row list \<Rightarrow> 'row list \<times> ('f, 'd) db2_query \<times> 'row list" where
  "db2_fetch_page k ty drv st =
     (let (q, pend) = st; (ans, q', msgs) = db2_fetch k ty (drv pend (br_storage (dq_res q))) q in
      (case ans of Inr True \<Rightarrow> take (br_occupied (dq_res q')) pend | _ \<Rightarrow> [],
       (q', drop (gen_buffer_size (br_storage (dq_res q))) pend)))"

definition db2_page_rows :: "('f, 'd) db2_query \<times> 'row list \<Rightarrow> nat" where
  "db2_page_rows st = gen_buffer_size (br_storage (dq_res (fst st)))"

definition db2_cursor_ok ::
  "odbc_consts \<Rightarrow> stmt_type \<Rightarrow> ('row list \<Rightarrow> ('f, 'd) column list \<Rightarrow> ('f, 'd) fetch_answers)
     \<Rightarrow> ('f, 'd) db2_query \<times> 'row list \<Rightarrow> bool" where
  "db2_cursor_ok k ty drv st \<longleftrightarrow> driver_ok k (sy_rd ty) drv \<and> has_r ty \<and> dq_stmt (fst st) \<noteq> 0
     \<and> db2_check_layout ty (fst st) = Inr ()
     \<and> storage_ok (sy_rd ty) (br_storage (dq_res (fst st))) \<and> 0 < db2_page_rows st"

lemma check_layout_fetched:
  "db2_check_layout ty (q\<lparr>dq_rows_fetched := n, dq_res := set_occupied m ((dq_res q)\<lparr>br_storage := cols\<rparr>)\<rparr>)
     = db2_check_layout ty q"
  by (simp add: db2_check_layout_def set_occupied_def)

lemma db2_fetch_delivers:
  assumes "delivers k (sy_rd ty) drv pend (br_storage (dq_res q))" "has_r ty" "dq_stmt q \<noteq> 0"
    and "db2_check_layout ty q = Inr ()" "0 < gen_buffer_size (br_storage (dq_res q))"
  shows "\<exists>n. db2_fetch k ty (drv pend (br_storage (dq_res q))) q
      = (Inr (pend \<noteq> []), q\<lparr>dq_rows_fetched := n,
          dq_res := set_occupied (min (gen_buffer_size (br_storage (dq_res q))) (length pend))
            ((dq_res q)\<lparr>br_storage := an_cols (drv pend (br_storage (dq_res q)))\<rparr>)\<rparr>, [])"
proof (intro exI)
  let ?an = "drv pend (br_storage (dq_res q))"
  note base = assms(2-5)
  show "db2_fetch k ty ?an q
      = (Inr (pend \<noteq> []), q\<lparr>dq_rows_fetched := (case an_count ?an of Some n \<Rightarrow> n | None \<Rightarrow> 0),
          dq_res := set_occupied (min (gen_buffer_size (br_storage (dq_res q))) (length pend)) ((dq_res q)\<lparr>br_storage := an_cols ?an\<rparr>)\<rparr>, [])"
  proof (cases "pend = []")
    case True
    with assms(1) have "an_fetch ?an = sql_no_data k" by (simp add: delivers_def Let_def)
    with base True show ?thesis by (simp add: db2_fetch_def db2_is_prepared_def Let_def)
  next
    case False
    with assms(1) have "an_fetch ?an \<noteq> sql_no_data k" "is_odbc_success k (an_fetch ?an)"
      "an_count ?an = Some (min (gen_buffer_size (br_storage (dq_res q))) (length pend))"
      by (simp_all add: delivers_def Let_def)
    with base False show ?thesis by (simp add: db2_fetch_def db2_is_prepared_def Let_def)
  qed
qed

lemma db2_fetch_step:
  assumes "db2_cursor_ok k ty drv (q, pend)"
  shows "\<exists>cols n. db2_fetch k ty (drv pend (br_storage (dq_res q))) q
      = (Inr (pend \<noteq> []), q\<lparr>dq_rows_fetched := n,
          dq_res := set_occupied (min (db2_page_rows (q, pend)) (length pend)) ((dq_res q)\<lparr>br_storage := cols\<rparr>)\<rparr>, [])
    \<and> storage_ok (sy_rd ty) cols \<and> gen_buffer_size cols = db2_page_rows (q, pend)"
proof -
  have ok: "driver_ok k (sy_rd ty) drv" "storage_ok (sy_rd ty) (br_storage (dq_res q))"
    and base: "has_r ty" "dq_stmt q \<noteq> 0" "db2_check_layout ty q = Inr ()" "0 < gen_buffer_size (br_storage (dq_res q))"
    using assms by (simp_all add: db2_cursor_ok_def db2_page_rows_def)
  have d: "delivers k (sy_rd ty) drv pend (br_storage (dq_res q))" using ok by (simp add: driver_ok_def)
  show ?thesis using db2_fetch_delivers [OF d base] d
    by (auto simp: db2_page_rows_def delivers_def Let_def)
qed

interpretation db2_rows: row_cursor "db2_fetch_page k ty drv" snd db2_page_rows "db2_cursor_ok k ty drv"
  for k ty drv
proof
  fix st :: "('b, 'c) db2_query \<times> 'a list"
  assume ok: "db2_cursor_ok k ty drv st"
  obtain q pend where st: "st = (q, pend)" by (cases st) auto
  from db2_fetch_step [OF ok [unfolded st]] obtain cols n where f:
    "db2_fetch k ty (drv pend (br_storage (dq_res q))) q
      = (Inr (pend \<noteq> []), q\<lparr>dq_rows_fetched := n,
          dq_res := set_occupied (min (db2_page_rows st) (length pend)) ((dq_res q)\<lparr>br_storage := cols\<rparr>)\<rparr>, [])"
    "storage_ok (sy_rd ty) cols" "gen_buffer_size cols = db2_page_rows st"
    unfolding st by auto
  note page = db2_fetch_page_def st f(1) Let_def
  show "fst (db2_fetch_page k ty drv st) = take (db2_page_rows st) (snd st)"
  proof -
    have "fst (db2_fetch_page k ty drv st) = (if pend = [] then [] else take (min (db2_page_rows st) (length pend)) pend)"
      by (simp add: db2_fetch_page_def st f(1) [unfolded st] Let_def set_occupied_def)
    then show ?thesis by (auto simp: st min_def)
  qed
  show "snd (snd (db2_fetch_page k ty drv st)) = drop (db2_page_rows st) (snd st)"
    by (simp add: page db2_page_rows_def)
  show "db2_page_rows (snd (db2_fetch_page k ty drv st)) = db2_page_rows st"
    using f(3) by (simp add: page set_occupied_def) (simp add: db2_page_rows_def st)
  show "0 < db2_page_rows st" using ok by (simp add: db2_cursor_ok_def)
  show "db2_cursor_ok k ty drv (snd (db2_fetch_page k ty drv st))"
    using ok f(2,3) unfolding db2_cursor_ok_def
    by (simp add: page check_layout_fetched) (simp add: db2_page_rows_def set_occupied_def st)
qed

text \<open>C20: on DB2, too, the client loop over a result set ends and delivers every row exactly once and in
  order, in pages of at most the buffer size, given a driver that answers \<open>SQLFetchScroll\<close> as
  ODBC documents it. A driver that reports more rows than the buffer holds is caught: the fetch
  fails, the overflow is logged, and the number of rows offered to the caller is unchanged.\<close>

theorem db2_fetch_loop_delivers_all:
  assumes "driver_ok k (sy_rd ty) drv" "has_r ty" "dq_stmt q \<noteq> 0" "db2_check_layout ty q = Inr ()"
    and "storage_ok (sy_rd ty) (br_storage (dq_res q))" "0 < gen_buffer_size (br_storage (dq_res q))"
    and "length rows < n"
  shows "(let pages = row_cursor.drain_loop (db2_fetch_page k ty drv) n (q, rows) in
      snd pages \<and> concat (fst pages) = rows
    \<and> list_all (\<lambda>p. 0 < length p \<and> length p \<le> gen_buffer_size (br_storage (dq_res q))) (fst pages))
    \<and> (is_odbc_success k (an_fetch an) \<and> an_fetch an \<noteq> sql_no_data k
        \<and> an_count an = Some m \<and> gen_buffer_size (br_storage (dq_res q)) < m \<longrightarrow>
       (\<exists>e q'. db2_fetch k ty an q = (Inl e, q', [overflow_message m (gen_buffer_size (br_storage (dq_res q)))])
          \<and> br_occupied (dq_res q') = br_occupied (dq_res q)))"
proof
  have ok: "db2_cursor_ok k ty drv (q, rows)"
    using assms(1-6) by (simp add: db2_cursor_ok_def db2_page_rows_def)
  show "let pages = row_cursor.drain_loop (db2_fetch_page k ty drv) n (q, rows) in
      snd pages \<and> concat (fst pages) = rows
    \<and> list_all (\<lambda>p. 0 < length p \<and> length p \<le> gen_buffer_size (br_storage (dq_res q))) (fst pages)"
    using db2_rows.drain_ends [OF ok, of n] db2_rows.drain_delivers [OF ok, of n]
      db2_rows.drain_pages_bounded [OF ok, of n] assms(7)
    by (auto simp: list_all_iff Let_def db2_page_rows_def)
  show "is_odbc_success k (an_fetch an) \<and> an_fetch an \<noteq> sql_no_data k
        \<and> an_count an = Some m \<and> gen_buffer_size (br_storage (dq_res q)) < m \<longrightarrow>
       (\<exists>e q'. db2_fetch k ty an q = (Inl e, q', [overflow_message m (gen_buffer_size (br_storage (dq_res q)))])
          \<and> br_occupied (dq_res q') = br_occupied (dq_res q))"
    using assms(2-4) by (auto simp: db2_fetch_def db2_is_prepared_def Let_def)
qed

subsection \<open>A concrete statement\<close>

definition int_dscr :: buffer_dscr_const where
  "int_dscr = \<lparr>bd_name = ''id'', bd_category = cat_atomic, bd_base_type = ''int32_t'', bd_type = st_integer,
     bd_column_size = 4, bd_decimal_digits = 0\<rparr>"

definition db2_type0 :: stmt_type where
  "db2_type0 = \<lparr>sy_pd = [], sy_rd = [int_dscr, int_dscr]\<rparr>"

definition db2_query0 :: "(nat, nat) db2_query" where
  "db2_query0 = \<lparr>dq_self = 10, dq_db = True, dq_stmt = 0, dq_sql = ''select a, b from t'',
     dq_par = \<lparr>br_storage = \<lparr>ps_cols = [], ps_row_status = []\<rparr>, br_layout_generation = 0, br_occupied = 0\<rparr>,
     dq_res = \<lparr>br_storage = gen_resize_storage 0 0 [int_dscr, int_dscr] 2 [], br_layout_generation = 0, br_occupied = 0\<rparr>,
     dq_bound_par_layout = 0, dq_bound_res_layout = 0, dq_params_processed = 0, dq_rows_fetched = 0,
     dq_affected_rows = 0\<rparr>"

definition answers0 :: "nat \<Rightarrow> prepare_answers" where
  "answers0 h = \<lparr>an_alloc = 0, an_handle = h, an_prepare = 0, an_bind_param = \<lambda>_. 0, an_bind_col = \<lambda>_. 0\<rparr>"

definition driver0 :: "nat list \<Rightarrow> (nat, nat) column list \<Rightarrow> (nat, nat) fetch_answers" where
  "driver0 pend cols = \<lparr>an_fetch = (if pend = [] then 100 else 0),
     an_count = Some (min (gen_buffer_size cols) (length pend)), an_cols = cols\<rparr>"

lemma driver0_ok: "driver_ok odbc_consts0 rd driver0"
  by (simp add: driver_ok_def delivers_def driver0_def odbc_consts0_def is_odbc_success_def)

lemma success0: "is_odbc_success odbc_consts0 0" "\<not> is_odbc_success odbc_consts0 (- 1)"
  by (simp_all add: is_odbc_success_def odbc_consts0_def)

theorem handles_freed_once_witness:
  "frees (snd (run_ops odbc_consts0 db2_type0 (\<lambda>_. 4) [Op_prepare (answers0 7), Op_move 11, Op_prepare (answers0 8), Op_reset] db2_query0)
     @ db2_destroy_query (fst (run_ops odbc_consts0 db2_type0 (\<lambda>_. 4)
         [Op_prepare (answers0 7), Op_move 11, Op_prepare (answers0 8), Op_reset] db2_query0))) = [7, 8]"
  using handles_freed_once [of odbc_consts0 "[Op_prepare (answers0 7), Op_move 11, Op_prepare (answers0 8), Op_reset]" db2_query0]
  by (simp add: alloc_ok_def answers0_def success0 db2_query0_def)

lemma prepare0:
  "\<exists>q cs. db2_prepare odbc_consts0 db2_type0 (\<lambda>_. 4) (answers0 7) db2_query0 = (Inr (), q, cs)"
  by (simp add: db2_prepare_def answers0_def success0 db2_type0_def has_p_def Let_def)

theorem row_counter_follows_owner_witness:
  "\<exists>q cs. db2_prepare odbc_consts0 db2_type0 (\<lambda>_. 4) (answers0 7) db2_query0 = (Inr (), q, cs)
     \<and> (let st = fold (db2_move_to db2_type0) [11, 12] (q, cs) in fetched_ptr 7 (snd st) = Some (dq_self (fst st)))"
proof -
  obtain q cs where p: "db2_prepare odbc_consts0 db2_type0 (\<lambda>_. 4) (answers0 7) db2_query0 = (Inr (), q, cs)"
    using prepare0 by blast
  have "has_r db2_type0" by (simp add: has_r_def db2_type0_def)
  from row_counter_follows_owner [OF this _ p, of "[11, 12]"] p show ?thesis by (simp add: answers0_def Let_def)
qed

theorem db2_execute_outcome_witness:
  "fst (db2_execute odbc_consts0 db2_type0 \<lparr>an_execute = 100, an_processed = None, an_row_status = [], an_row_count = 0, an_affected = 0\<rparr>
     (db2_query0\<lparr>dq_stmt := 7\<rparr>)) = Inr ()"
proof -
  let ?an = "\<lparr>an_execute = 100, an_processed = None, an_row_status = [], an_row_count = 0, an_affected = 0\<rparr>"
  let ?x = "db2_execute odbc_consts0 db2_type0 ?an (db2_query0\<lparr>dq_stmt := 7\<rparr>)"
  have "?x = (fst ?x, fst (snd ?x), fst (snd (snd ?x)), snd (snd (snd ?x)))" by simp
  from db2_execute_outcome [OF this] show ?thesis
    by (simp add: db2_query0_def db2_check_layout_def odbc_consts0_def db2_type0_def)
qed

theorem bind_error_message_lost_witness:
  "\<exists>e v. fst (db2_prepare odbc_consts0 db2_type0 (\<lambda>_. 4)
        (answers0 7\<lparr>an_bind_col := (\<lambda>i. if i = 1 then - 1 else 0)\<rparr>) db2_query0) = Inl e
     \<and> error_value odbc_consts0 (\<lambda>h t rec. \<lparr>dr_succeeded = (rec = 1), dr_state = ''07006'', dr_native = 0,
         dr_msg = ''bad type'', dr_msg_len = 8\<rparr>) e = Ret v
     \<and> oe_message v = ''ODBC diagnostic retrieval failed''"
  using bind_error_message_lost [of odbc_consts0 "answers0 7\<lparr>an_bind_col := (\<lambda>i. if i = 1 then - 1 else 0)\<rparr>" db2_type0 1
      "\<lambda>h t rec. \<lparr>dr_succeeded = (rec = 1), dr_state = ''07006'', dr_native = 0, dr_msg = ''bad type'', dr_msg_len = 8\<rparr>" 3
      "\<lambda>_. 4" db2_query0]
  by (simp add: answers0_def success0 has_p_def db2_type0_def list_all_iff)

theorem db2_fetch_loop_delivers_all_witness:
  "let pages = row_cursor.drain_loop (db2_fetch_page odbc_consts0 db2_type0 driver0) 9 (db2_query0\<lparr>dq_stmt := 7\<rparr>, [3, 1, 4, 1, 5]) in
     snd pages \<and> concat (fst pages) = [3, 1, 4, 1, 5]"
proof -
  let ?q = "db2_query0\<lparr>dq_stmt := 7\<rparr>"
  have "storage_ok (sy_rd db2_type0) (br_storage (dq_res ?q))" "gen_buffer_size (br_storage (dq_res ?q)) = 2"
    by (simp_all add: db2_query0_def db2_type0_def gen_storage_ok_resize gen_rows_resize)
  moreover have "has_r db2_type0" "db2_check_layout db2_type0 ?q = Inr ()"
    by (simp_all add: has_r_def db2_type0_def db2_check_layout_def db2_query0_def has_p_def)
  ultimately show ?thesis
    using db2_fetch_loop_delivers_all [OF driver0_ok, of db2_type0 ?q "[3, 1, 4, 1, 5]" 9 undefined 0] by (simp add: Let_def)
qed

end
