(* ===== verification/Async_Tasks_Db2.thy ===== *)
theory Async_Tasks_Db2
  imports Async_Rows Db2_Query
begin

text \<open>
  The statements behind the asynchronous facade on the DB2 query class: the instance of
  \<open>detail::task\<close> (\<open>src/rtl/async_db.hpp\<close>) in a program that links \<open>src/rtl/db2/query.hpp\<close>. The
  ODBC driver is a parameter: what it answers to an execute and to a fetch, given the handle and
  the buffer that is bound to it, and the diagnostics it holds.
\<close>

subsection \<open>A statement and the driver\<close>

record ('f, 'd, 'drv) db2_driver =
  dd_execute :: "nat \<Rightarrow> ('f, 'd) column list \<Rightarrow> 'drv \<Rightarrow> execute_answers \<times> 'drv"
  dd_fetch :: "nat \<Rightarrow> ('f, 'd) column list \<Rightarrow> 'drv \<Rightarrow> ('f, 'd) fetch_answers \<times> 'drv"
  dd_diag :: "'drv \<Rightarrow> nat \<Rightarrow> handle_type_enum \<Rightarrow> nat \<Rightarrow> diag_rec"
  dd_commit :: "'drv \<Rightarrow> db_sts \<times> 'drv"
  dd_rollback :: "'drv \<Rightarrow> db_sts \<times> 'drv"

definition refuses :: "stmt_type \<Rightarrow> ('f, 'd) db2_query \<Rightarrow> bool" where
  "refuses ty q \<longleftrightarrow> \<not> db2_is_prepared q \<or> db2_check_layout ty q \<noteq> Inr ()"

text \<open>The driver reads the parameters out of the buffer that is bound.\<close>

definition bound_params :: "stmt_type \<Rightarrow> ('f, 'd) column list \<Rightarrow> ('f, 'd) column list" where
  "bound_params ty cols = (if has_p ty then cols else [])"

definition no_execute :: execute_answers where
  "no_execute = \<lparr>an_execute = 0, an_processed = None, an_row_status = [], an_row_count = 0, an_affected = 0\<rparr>"

definition no_fetch :: "('f, 'd) fetch_answers" where
  "no_fetch = \<lparr>an_fetch = 0, an_count = None, an_cols = []\<rparr>"

text \<open>\<open>execute\<close> and \<open>fetch\<close> with the call they make of the driver, if they come that far.\<close>

definition db2_run_execute ::
  "odbc_consts \<Rightarrow> ('f, 'd, 'drv) db2_driver \<Rightarrow> stmt_type \<Rightarrow> ('f, 'd) db2_query \<Rightarrow> 'drv
     \<Rightarrow> ((stmt_error + unit) \<times> ('f, 'd) db2_query) \<times> 'drv" where
  "db2_run_execute k dd ty q drv =
     (let (an, drv') = (if refuses ty q then (no_execute, drv)
                        else dd_execute dd (dq_stmt q) (bound_params ty (ps_cols (br_storage (dq_par q)))) drv);
          (r, q', calls, msgs) = db2_execute k ty an q
      in ((r, q'), drv'))"

definition db2_run_fetch ::
  "odbc_consts \<Rightarrow> ('f, 'd, 'drv) db2_driver \<Rightarrow> stmt_type \<Rightarrow> ('f, 'd) db2_query \<Rightarrow> 'drv
     \<Rightarrow> ((stmt_error + bool) \<times> ('f, 'd) db2_query) \<times> 'drv" where
  "db2_run_fetch k dd ty q drv =
     (let (an, drv') = (if refuses ty q \<or> \<not> has_r ty then (no_fetch, drv)
                        else dd_fetch dd (dq_stmt q) (br_storage (dq_res q)) drv);
          (r, q', msgs) = db2_fetch k ty an q
      in ((r, q'), drv'))"

subsection \<open>The task\<close>

record ('f, 'd) db2_task =
  t2_type :: stmt_type
  t2_query :: "('f, 'd) db2_query"

definition db2_set_params :: "('f, 'd) column list \<Rightarrow> ('f, 'd) db2_query \<Rightarrow> ('f, 'd) db2_query" where
  "db2_set_params cols q = q\<lparr>dq_par := (dq_par q)\<lparr>br_storage := (br_storage (dq_par q))\<lparr>ps_cols := cols\<rparr>\<rparr>\<rparr>"

definition db2_task_restore :: "('f, 'd) column list \<Rightarrow> ('f, 'd) db2_task \<Rightarrow> ('f, 'd) db2_task cpp" where
  "db2_task_restore snap t =
     (if has_p (t2_type t)
      then case restore_params snap (ps_cols (br_storage (dq_par (t2_query t)))) of
             Ret cols \<Rightarrow> Ret (t\<lparr>t2_query := db2_set_params cols (t2_query t)\<rparr>)
           | Throws what \<Rightarrow> Throws what
           | Assert_failed \<Rightarrow> Assert_failed
           | Undefined_behaviour \<Rightarrow> Undefined_behaviour
      else Ret t)"

text \<open>The error of a call as a \<open>db_error\<close>: reading the diagnostics may leave the defined behaviour.\<close>

definition task_error ::
  "odbc_consts \<Rightarrow> (nat \<Rightarrow> handle_type_enum \<Rightarrow> nat \<Rightarrow> diag_rec) \<Rightarrow> (stmt_error + 'a) \<Rightarrow> db_error option cpp" where
  "task_error k diag r =
     (case r of
        Inr _ \<Rightarrow> Ret None
      | Inl e \<Rightarrow>
          (case error_value k diag e of
             Ret v \<Rightarrow> Ret (Some (odbc_to_db_error v))
           | Throws what \<Rightarrow> Throws what
           | Assert_failed \<Rightarrow> Assert_failed
           | Undefined_behaviour \<Rightarrow> Undefined_behaviour))"

definition db2_task_execute ::
  "odbc_consts \<Rightarrow> ('f, 'd, 'drv) db2_driver \<Rightarrow> ('f, 'd) db2_task \<Rightarrow> 'drv
     \<Rightarrow> (db_error option cpp \<times> ('f, 'd) db2_task) \<times> 'drv" where
  "db2_task_execute k dd t drv =
     (let ((r, q), drv') = db2_run_execute k dd (t2_type t) (t2_query t) drv in
      ((task_error k (dd_diag dd drv') r, t\<lparr>t2_query := q\<rparr>), drv'))"

definition db2_task_fetch ::
  "odbc_consts \<Rightarrow> ('f, 'd, 'drv) db2_driver \<Rightarrow> ('f, 'd) db2_task \<Rightarrow> 'drv
     \<Rightarrow> ((db_error option cpp \<times> bool) \<times> ('f, 'd) db2_task) \<times> 'drv" where
  "db2_task_fetch k dd t drv =
     (let ((r, q), drv') = db2_run_fetch k dd (t2_type t) (t2_query t) drv in
      (((task_error k (dd_diag dd drv') r, case r of Inl _ \<Rightarrow> False | Inr got \<Rightarrow> got), t\<lparr>t2_query := q\<rparr>), drv'))"

subsection \<open>The worker's side\<close>

text \<open>The registered statements and the driver. \<open>w2_broken\<close> records that a job left the defined
  behaviour of the sources.\<close>

record ('f, 'd, 'drv) db2_side =
  w2_tasks :: "('f, 'd) db2_task list"
  w2_driver :: 'drv
  w2_broken :: bool

definition db2_worker_execute ::
  "odbc_consts \<Rightarrow> ('f, 'd, 'drv) db2_driver \<Rightarrow> nat \<Rightarrow> ('f, 'd) column list \<Rightarrow> ('f, 'd, 'drv) db2_side
     \<Rightarrow> db_error option \<times> ('f, 'd, 'drv) db2_side" where
  "db2_worker_execute k dd tid snap w =
     (if length (w2_tasks w) \<le> tid then (None, w\<lparr>w2_broken := True\<rparr>)
      else case db2_task_restore snap (w2_tasks w ! tid) of
        Ret t \<Rightarrow>
          (let ((e, t'), drv') = db2_task_execute k dd t (w2_driver w);
               w' = w\<lparr>w2_tasks := (w2_tasks w)[tid := t'], w2_driver := drv'\<rparr>
           in case e of Ret x \<Rightarrow> (x, w') | _ \<Rightarrow> (None, w'\<lparr>w2_broken := True\<rparr>))
      | _ \<Rightarrow> (None, w\<lparr>w2_broken := True\<rparr>))"

definition db2_worker_fetch ::
  "odbc_consts \<Rightarrow> ('f, 'd, 'drv) db2_driver \<Rightarrow> nat \<Rightarrow> ('f, 'd, 'drv) db2_side
     \<Rightarrow> (db_error option \<times> bool) \<times> ('f, 'd, 'drv) db2_side" where
  "db2_worker_fetch k dd tid w =
     (if length (w2_tasks w) \<le> tid then ((None, False), w\<lparr>w2_broken := True\<rparr>)
      else
        (let (((e, got), t), drv') = db2_task_fetch k dd (w2_tasks w ! tid) (w2_driver w);
             w' = w\<lparr>w2_tasks := (w2_tasks w)[tid := t], w2_driver := drv'\<rparr>
         in case e of Ret x \<Rightarrow> ((x, got), w') | _ \<Rightarrow> ((None, False), w'\<lparr>w2_broken := True\<rparr>)))"

definition db2_end_transaction ::
  "('drv \<Rightarrow> db_sts \<times> 'drv) \<Rightarrow> ('f, 'd, 'drv) db2_side \<Rightarrow> db_sts \<times> ('f, 'd, 'drv) db2_side" where
  "db2_end_transaction f w = (let (r, drv') = f (w2_driver w) in (r, w\<lparr>w2_driver := drv'\<rparr>))"

definition db2_backend ::
  "odbc_consts \<Rightarrow> ('f, 'd, 'drv) db2_driver \<Rightarrow> (('f, 'd, 'drv) db2_side, ('f, 'd) column list) backend" where
  "db2_backend k dd = \<lparr>be_execute = db2_worker_execute k dd, be_fetch = db2_worker_fetch k dd,
     be_commit = db2_end_transaction (dd_commit dd), be_rollback = db2_end_transaction (dd_rollback dd)\<rparr>"

subsection \<open>A registered statement as a paged result set\<close>

text \<open>A row of a buffer: the slot and the indicator of each column.\<close>

type_synonym ('f, 'd) buffer_row = "(('f, 'd) slot \<times> i32) list"

definition buffer_rows :: "nat \<Rightarrow> ('f, 'd) column list \<Rightarrow> ('f, 'd) buffer_row list" where
  "buffer_rows n cols = map (\<lambda>i. map (\<lambda>c. (co_values c ! i, co_ind c ! i)) cols) [0..<n]"

text \<open>What ODBC documents of the cursor of a handle, whose rows to come are \<open>rows_of\<close>: a fetch answers
  as \<open>delivers\<close> says, leaves the next rows in the buffer, and moves the cursor past them.\<close>

definition cursor_contract ::
  "odbc_consts \<Rightarrow> buffer_dscr_const list \<Rightarrow> ('f, 'd, 'drv) db2_driver \<Rightarrow> (nat \<Rightarrow> 'drv \<Rightarrow> ('f, 'd) buffer_row list) \<Rightarrow> bool" where
  "cursor_contract k rd dd rows_of \<longleftrightarrow>
     (\<forall>h cols drv. storage_ok rd cols \<longrightarrow>
        (let (an, drv') = dd_fetch dd h cols drv; pend = rows_of h drv; n = gen_buffer_size cols in
           delivers k rd (\<lambda>_ _. an) pend cols
         \<and> buffer_rows (min n (length pend)) (an_cols an) = take n pend
         \<and> rows_of h drv' = drop n pend))"

definition db2_query_of :: "nat \<Rightarrow> ('f, 'd, 'drv) db2_side \<Rightarrow> ('f, 'd) db2_query" where
  "db2_query_of tid w = t2_query (w2_tasks w ! tid)"

definition db2_seen :: "nat \<Rightarrow> ('f, 'd, 'drv) db2_side \<Rightarrow> ('f, 'd) buffer_row list" where
  "db2_seen tid w = (let q = db2_query_of tid w in buffer_rows (br_occupied (dq_res q)) (br_storage (dq_res q)))"

definition db2_pending :: "(nat \<Rightarrow> 'drv \<Rightarrow> ('f, 'd) buffer_row list) \<Rightarrow> nat \<Rightarrow> ('f, 'd, 'drv) db2_side \<Rightarrow> ('f, 'd) buffer_row list" where
  "db2_pending rows_of tid w = rows_of (dq_stmt (db2_query_of tid w)) (w2_driver w)"

definition db2_buffer_height :: "nat \<Rightarrow> ('f, 'd, 'drv) db2_side \<Rightarrow> nat" where
  "db2_buffer_height tid w = gen_buffer_size (br_storage (dq_res (db2_query_of tid w)))"

definition query_ready :: "stmt_type \<Rightarrow> ('f, 'd) db2_query \<Rightarrow> bool" where
  "query_ready ty q \<longleftrightarrow> has_r ty \<and> dq_stmt q \<noteq> 0 \<and> db2_check_layout ty q = Inr ()
     \<and> storage_ok (sy_rd ty) (br_storage (dq_res q)) \<and> 0 < gen_buffer_size (br_storage (dq_res q))"

definition db2_task_ok ::
  "odbc_consts \<Rightarrow> ('f, 'd, 'drv) db2_driver \<Rightarrow> (nat \<Rightarrow> 'drv \<Rightarrow> ('f, 'd) buffer_row list) \<Rightarrow> stmt_type \<Rightarrow> nat
     \<Rightarrow> ('f, 'd, 'drv) db2_side \<Rightarrow> bool" where
  "db2_task_ok k dd rows_of ty tid w \<longleftrightarrow> cursor_contract k (sy_rd ty) dd rows_of \<and> tid < length (w2_tasks w)
     \<and> t2_type (w2_tasks w ! tid) = ty \<and> query_ready ty (db2_query_of tid w)"

text \<open>A fetch of a registered statement: the query after it holds the rows the driver wrote.\<close>

lemma db2_worker_fetch_ok:
  assumes "db2_task_ok k dd rows_of ty tid w"
  obtains q' drv' where "db2_worker_fetch k dd tid w = ((None, db2_pending rows_of tid w \<noteq> []),
      w\<lparr>w2_tasks := (w2_tasks w)[tid := (w2_tasks w ! tid)\<lparr>t2_query := q'\<rparr>], w2_driver := drv'\<rparr>)"
    and "query_ready ty q'" "dq_stmt q' = dq_stmt (db2_query_of tid w)"
    and "gen_buffer_size (br_storage (dq_res q')) = db2_buffer_height tid w"
    and "buffer_rows (br_occupied (dq_res q')) (br_storage (dq_res q')) = take (db2_buffer_height tid w) (db2_pending rows_of tid w)"
    and "rows_of (dq_stmt q') drv' = drop (db2_buffer_height tid w) (db2_pending rows_of tid w)"
proof -
  let ?q = "db2_query_of tid w" and ?pend = "db2_pending rows_of tid w" and ?n = "db2_buffer_height tid w"
  let ?cols = "br_storage (dq_res ?q)"
  have tid: "tid < length (w2_tasks w)" and ty: "t2_type (w2_tasks w ! tid) = ty"
    and rdy: "has_r ty" "dq_stmt ?q \<noteq> 0" "db2_check_layout ty ?q = Inr ()" "storage_ok (sy_rd ty) ?cols" "0 < gen_buffer_size ?cols"
    and con: "cursor_contract k (sy_rd ty) dd rows_of"
    using assms by (simp_all add: db2_task_ok_def query_ready_def)
  obtain an drv' where a: "dd_fetch dd (dq_stmt ?q) ?cols (w2_driver w) = (an, drv')" by fastforce
  have d: "delivers k (sy_rd ty) (\<lambda>_ _. an) ?pend ?cols" "buffer_rows (min ?n (length ?pend)) (an_cols an) = take ?n ?pend"
    "rows_of (dq_stmt ?q) drv' = drop ?n ?pend"
    using con [unfolded cursor_contract_def, rule_format, OF rdy(4), of "dq_stmt ?q" "w2_driver w"] a
    by (simp_all add: db2_pending_def db2_buffer_height_def Let_def)
  obtain m where f: "db2_fetch k ty an ?q = (Inr (?pend \<noteq> []), ?q\<lparr>dq_rows_fetched := m,
      dq_res := set_occupied (min ?n (length ?pend)) ((dq_res ?q)\<lparr>br_storage := an_cols an\<rparr>)\<rparr>, [])"
    using db2_fetch_delivers [OF d(1) rdy(1-3,5)] unfolding db2_buffer_height_def by blast
  define q' where "q' = ?q\<lparr>dq_rows_fetched := m,
      dq_res := set_occupied (min ?n (length ?pend)) ((dq_res ?q)\<lparr>br_storage := an_cols an\<rparr>)\<rparr>"
  have q': "dq_stmt q' = dq_stmt ?q" "br_storage (dq_res q') = an_cols an" "br_occupied (dq_res q') = min ?n (length ?pend)"
    "db2_check_layout ty q' = db2_check_layout ty ?q"
    by (simp_all add: q'_def set_occupied_def db2_check_layout_def)
  have cols: "storage_ok (sy_rd ty) (an_cols an)" "gen_buffer_size (an_cols an) = ?n"
    using d(1) by (simp_all add: delivers_def Let_def db2_buffer_height_def)
  have "db2_run_fetch k dd ty ?q (w2_driver w) = ((Inr (?pend \<noteq> []), q'), drv')"
    using rdy(1-3) a f by (simp add: db2_run_fetch_def refuses_def db2_is_prepared_def q'_def)
  then have "db2_worker_fetch k dd tid w = ((None, ?pend \<noteq> []),
      w\<lparr>w2_tasks := (w2_tasks w)[tid := (w2_tasks w ! tid)\<lparr>t2_query := q'\<rparr>], w2_driver := drv'\<rparr>)"
    using tid ty by (simp add: db2_worker_fetch_def db2_task_fetch_def task_error_def db2_query_of_def)
  moreover have "query_ready ty q'" using rdy cols q' by (simp add: query_ready_def db2_buffer_height_def)
  ultimately show thesis using that q' cols(2) d(2,3) by simp
qed

interpretation db2_async_rows: row_task "db2_backend k dd" tid "db2_seen tid" "db2_pending rows_of tid" "db2_buffer_height tid"
    "db2_task_ok k dd rows_of ty tid"
  for k dd tid rows_of ty
proof
  fix w :: "('a, 'b, 'c) db2_side"
  let ?be = "db2_backend k dd"
  assume ok: "db2_task_ok k dd rows_of ty tid w"
  then have t: "tid < length (w2_tasks w)" "t2_type (w2_tasks w ! tid) = ty" "cursor_contract k (sy_rd ty) dd rows_of"
    "query_ready ty (db2_query_of tid w)"
    by (simp_all add: db2_task_ok_def)
  have be: "be_fetch ?be tid = db2_worker_fetch k dd tid" by (simp add: db2_backend_def)
  obtain q' drv' where f: "be_fetch ?be tid w = ((None, db2_pending rows_of tid w \<noteq> []),
      w\<lparr>w2_tasks := (w2_tasks w)[tid := (w2_tasks w ! tid)\<lparr>t2_query := q'\<rparr>], w2_driver := drv'\<rparr>)"
    and q': "query_ready ty q'" "dq_stmt q' = dq_stmt (db2_query_of tid w)"
      "gen_buffer_size (br_storage (dq_res q')) = db2_buffer_height tid w"
      "buffer_rows (br_occupied (dq_res q')) (br_storage (dq_res q')) = take (db2_buffer_height tid w) (db2_pending rows_of tid w)"
      "rows_of (dq_stmt q') drv' = drop (db2_buffer_height tid w) (db2_pending rows_of tid w)"
    unfolding be by (rule db2_worker_fetch_ok [OF ok])
  have q: "db2_query_of tid (snd (be_fetch ?be tid w)) = q'" and drv: "w2_driver (snd (be_fetch ?be tid w)) = drv'"
    using t(1) by (simp_all add: f db2_query_of_def)
  show "fst (be_fetch ?be tid w) = (None, db2_pending rows_of tid w \<noteq> [])" by (simp add: f)
  show "db2_seen tid (snd (be_fetch ?be tid w)) = take (db2_buffer_height tid w) (db2_pending rows_of tid w)"
    by (simp add: db2_seen_def q q'(4) Let_def)
  show "db2_pending rows_of tid (snd (be_fetch ?be tid w)) = drop (db2_buffer_height tid w) (db2_pending rows_of tid w)"
    by (simp add: db2_pending_def [of rows_of tid "snd _"] q drv q'(5))
  show "db2_buffer_height tid (snd (be_fetch ?be tid w)) = db2_buffer_height tid w"
    by (simp add: db2_buffer_height_def [of tid "snd _"] q q'(3))
  show "db2_task_ok k dd rows_of ty tid (snd (be_fetch ?be tid w))"
    using t q'(1) unfolding db2_task_ok_def q by (simp add: f)
  show "0 < db2_buffer_height tid w" using t(4) by (simp add: query_ready_def db2_buffer_height_def)
qed

subsection \<open>A query through the facade\<close>

text \<open>A registered statement with rows, prepared on buffers that kept their size; \<open>cols\<close> is the
  caller's own parameter buffer, of the height of the statement's, which may be a batch.\<close>

definition db2_select_ready :: "('f, 'd) db2_task \<Rightarrow> ('f, 'd) column list \<Rightarrow> bool" where
  "db2_select_ready t cols \<longleftrightarrow> (let ty = t2_type t; own = ps_cols (br_storage (dq_par (t2_query t))) in
     query_ready ty (t2_query t)
     \<and> (has_p ty \<longrightarrow> storage_ok (sy_pd ty) cols \<and> storage_ok (sy_pd ty) own \<and> gen_buffer_size cols = gen_buffer_size own))"

definition execute_accepted :: "odbc_consts \<Rightarrow> execute_answers \<Rightarrow> bool" where
  "execute_accepted k an \<longleftrightarrow> is_odbc_success k (an_execute an) \<or> an_execute an = sql_no_data k"

lemma db2_set_params_simps [simp]:
  "dq_stmt (db2_set_params cols q) = dq_stmt q" "dq_res (db2_set_params cols q) = dq_res q"
  "ps_cols (br_storage (dq_par (db2_set_params cols q))) = cols"
  "db2_check_layout ty (db2_set_params cols q) = db2_check_layout ty q"
  by (simp_all add: db2_set_params_def db2_check_layout_def)

lemma query_ready_set_params [simp]: "query_ready ty (db2_set_params cols q) = query_ready ty q"
  by (simp add: query_ready_def)

lemma db2_task_restore_ready:
  assumes "db2_select_ready t cols"
  shows "db2_task_restore (snapshot_params cols) t
    = Ret (t\<lparr>t2_query := if has_p (t2_type t) then db2_set_params cols (t2_query t) else t2_query t\<rparr>)"
  using assms snapshot_restored [of "sy_pd (t2_type t)" cols "ps_cols (br_storage (dq_par (t2_query t)))"]
  by (simp add: db2_task_restore_def db2_select_ready_def Let_def)

text \<open>What an execute of a ready statement answers; the result buffer and the handle stay.\<close>

lemma db2_execute_frame:
  "dq_stmt (fst (snd (db2_execute k ty an q))) = dq_stmt q" "dq_res (fst (snd (db2_execute k ty an q))) = dq_res q"
  "dq_bound_par_layout (fst (snd (db2_execute k ty an q))) = dq_bound_par_layout q"
  "dq_bound_res_layout (fst (snd (db2_execute k ty an q))) = dq_bound_res_layout q"
  "br_layout_generation (dq_par (fst (snd (db2_execute k ty an q)))) = br_layout_generation (dq_par q)"
  by (simp_all add: db2_execute_def clear_row_status_def Let_def split: sum.split)

lemma query_ready_executed: "query_ready ty (fst (snd (db2_execute k ty an q))) = query_ready ty q"
  by (simp add: query_ready_def db2_check_layout_def db2_execute_frame)

lemma db2_execute_ready:
  assumes "query_ready ty q"
  shows "fst (db2_execute k ty an q)
      = (if execute_accepted k an then Inr () else Inl (Odbc_err (an_execute an) (dq_stmt q) ht_stmt 1))"
  using assms by (simp add: query_ready_def db2_execute_def db2_is_prepared_def execute_accepted_def Let_def)

lemma db2_worker_execute_ready:
  assumes "tid < length (w2_tasks w)" "w2_tasks w ! tid = t" "db2_select_ready t cols"
    and "dd_execute dd (dq_stmt (t2_query t)) (bound_params (t2_type t) cols) (w2_driver w) = (an, drv')"
  obtains q' where "query_ready (t2_type t) q'" "dq_stmt q' = dq_stmt (t2_query t)" "dq_res q' = dq_res (t2_query t)"
    and "execute_accepted k an \<Longrightarrow> db2_worker_execute k dd tid (snapshot_params cols) w
      = (None, w\<lparr>w2_tasks := (w2_tasks w)[tid := t\<lparr>t2_query := q'\<rparr>], w2_driver := drv'\<rparr>)"
    and "\<not> execute_accepted k an \<Longrightarrow> make_odbc_error (an_execute an) (dd_diag dd drv' (dq_stmt (t2_query t)) ht_stmt 1) = Ret e
      \<Longrightarrow> db2_worker_execute k dd tid (snapshot_params cols) w
      = (Some (odbc_to_db_error e), w\<lparr>w2_tasks := (w2_tasks w)[tid := t\<lparr>t2_query := q'\<rparr>], w2_driver := drv'\<rparr>)"
proof -
  let ?ty = "t2_type t" and ?q = "t2_query t"
  let ?q1 = "if has_p ?ty then db2_set_params cols ?q else ?q"
  have rdy: "query_ready ?ty ?q1" "dq_stmt ?q1 = dq_stmt ?q" "dq_res ?q1 = dq_res ?q"
    "bound_params ?ty (ps_cols (br_storage (dq_par ?q1))) = bound_params ?ty cols"
    using assms(3) by (simp_all add: db2_select_ready_def bound_params_def Let_def)
  obtain q' where q': "fst (snd (db2_execute k ?ty an ?q1)) = q'" "query_ready ?ty q'" "dq_stmt q' = dq_stmt ?q1" "dq_res q' = dq_res ?q1"
    using rdy(1) query_ready_executed db2_execute_frame(1,2) by metis
  note r = db2_execute_ready [OF rdy(1), of k an]
  have "\<not> refuses ?ty ?q1" using rdy(1) by (simp add: refuses_def query_ready_def db2_is_prepared_def)
  then have x: "db2_run_execute k dd ?ty ?q1 (w2_driver w) = ((fst (db2_execute k ?ty an ?q1), q'), drv')"
    using assms(4) rdy(2,4) q'(1) by (simp add: db2_run_execute_def split_beta)
  note w = db2_worker_execute_def db2_task_execute_def db2_task_restore_ready [OF assms(3)] x r task_error_def error_value_def rdy(2)
  show thesis
  proof (rule that [of q'])
    show "query_ready ?ty q'" "dq_stmt q' = dq_stmt ?q" "dq_res q' = dq_res ?q" using q' rdy by simp_all
  qed (use assms(1,2) in \<open>simp_all add: w\<close>)
qed

text \<open>C5: on DB2, too, a query run through the asynchronous facade delivers the rows of its cursor: the
  driver is asked to execute with the parameters of the caller's own buffer, and after
  \<open>execute_sync\<close> and a loop of \<open>fetch_more\<close> every row the cursor had was in the result buffer
  exactly once, in order, value and indicator of every column, in pages no larger than the buffer.\<close>

theorem db2_async_select_delivers_all:
  assumes "idle s" "tid < length (w2_tasks (as_conn s))" "w2_tasks (as_conn s) ! tid = t"
    and "db2_select_ready t cols" "cursor_contract k (sy_rd (t2_type t)) dd rows_of"
    and "dd_execute dd (dq_stmt (t2_query t)) (bound_params (t2_type t) cols) (w2_driver (as_conn s)) = (an, drv')"
    and "execute_accepted k an" "length (rows_of (dq_stmt (t2_query t)) drv') < n"
    and "execute_sync (db2_backend k dd) (Some tid) (snapshot_params cols) True s = (ans, s1)"
    and "row_cursor.drain_loop (async_page (db2_backend k dd) (db2_seen tid) tid) n s1 = (pages, ended)"
  shows "ans = Inr (rows_of (dq_stmt (t2_query t)) drv' \<noteq> []) \<and> ended
    \<and> rows_after (db2_seen tid) (ans, s1) @ concat pages = rows_of (dq_stmt (t2_query t)) drv'
    \<and> list_all (\<lambda>p. length p \<le> gen_buffer_size (br_storage (dq_res (t2_query t)))) (rows_after (db2_seen tid) (ans, s1) # pages)"
proof -
  let ?w = "as_conn s" and ?be = "db2_backend k dd"
  obtain q' where q': "query_ready (t2_type t) q'" "dq_stmt q' = dq_stmt (t2_query t)" "dq_res q' = dq_res (t2_query t)"
    and e: "db2_worker_execute k dd tid (snapshot_params cols) ?w
      = (None, ?w\<lparr>w2_tasks := (w2_tasks ?w)[tid := t\<lparr>t2_query := q'\<rparr>], w2_driver := drv'\<rparr>)"
    using db2_worker_execute_ready [OF assms(2-4,6), of k] assms(7) by metis
  let ?w1 = "?w\<lparr>w2_tasks := (w2_tasks ?w)[tid := t\<lparr>t2_query := q'\<rparr>], w2_driver := drv'\<rparr>"
  have q: "db2_query_of tid ?w1 = q'" using assms(2) by (simp add: db2_query_of_def)
  have ok: "db2_task_ok k dd rows_of (t2_type t) tid ?w1"
    using assms(2,5) q'(1) by (simp add: db2_task_ok_def db2_query_of_def)
  have p: "db2_pending rows_of tid ?w1 = rows_of (dq_stmt (t2_query t)) drv'"
    "db2_buffer_height tid ?w1 = gen_buffer_size (br_storage (dq_res (t2_query t)))"
    unfolding db2_pending_def db2_buffer_height_def q by (simp_all add: q'(2,3))
  have be: "be_execute ?be tid (snapshot_params cols) ?w = (None, ?w1)" using e by (simp add: db2_backend_def)
  have n: "length (db2_pending rows_of tid ?w1) < n" using p(1) assms(8) by simp
  show ?thesis
    using db2_async_rows.select_delivers [OF assms(1) be ok n assms(9,10)] unfolding p by (simp add: list_all_iff)
qed

text \<open>A statement that the driver refuses: the caller gets the driver's own diagnostic as a \<open>db_error\<close>,
  nothing is fetched, and the facade holds the error.\<close>

theorem db2_async_statement_refused:
  assumes "idle s" "tid < length (w2_tasks (as_conn s))" "w2_tasks (as_conn s) ! tid = t"
    and "db2_select_ready t cols"
    and "dd_execute dd (dq_stmt (t2_query t)) (bound_params (t2_type t) cols) (w2_driver (as_conn s)) = (an, drv')"
    and "\<not> execute_accepted k an"
    and "make_odbc_error (an_execute an) (dd_diag dd drv' (dq_stmt (t2_query t)) ht_stmt 1) = Ret e"
    and "execute_sync (db2_backend k dd) (Some tid) (snapshot_params cols) rows s = (ans, s1)"
  shows "ans = Inl (odbc_to_db_error e) \<and> as_error s1 = Some (odbc_to_db_error e) \<and> w2_driver (as_conn s1) = drv'"
proof -
  obtain q' where x: "be_execute (db2_backend k dd) tid (snapshot_params cols) (as_conn s) = (Some (odbc_to_db_error e),
      (as_conn s)\<lparr>w2_tasks := (w2_tasks (as_conn s))[tid := t\<lparr>t2_query := q'\<rparr>], w2_driver := drv'\<rparr>)"
    using db2_worker_execute_ready [OF assms(2-5), of k e] assms(6,7) unfolding db2_backend_def by (metis backend.select_convs(1))
  show ?thesis using execute_sync_fails [OF assms(1) x, of rows] assms(8) by simp
qed

subsection \<open>A concrete driver\<close>

text \<open>A driver for statements with two integer columns: an execute opens a cursor on three rows, a
  fetch copies the rows into the bound columns. The statement is the one of \<open>Db2_Query\<close>, prepared.\<close>

definition int_column :: "nat \<Rightarrow> i32 list \<Rightarrow> (nat, nat) column" where
  "int_column n vs = \<lparr>co_values = map Sl_int32 (take n vs @ replicate (n - length vs) 0), co_ind = replicate n 0\<rparr>"

definition int_row :: "i32 \<Rightarrow> (nat, nat) buffer_row" where
  "int_row v = [(Sl_int32 v, 0), (Sl_int32 v, 0)]"

definition db2_driver0 :: "sqlreturn \<Rightarrow> (nat, nat, i32 list) db2_driver" where
  "db2_driver0 r = \<lparr>dd_execute = \<lambda>h cols rs. (\<lparr>an_execute = r, an_processed = None, an_row_status = [], an_row_count = 0, an_affected = 0\<rparr>, [3, 1, 4]),
     dd_fetch = \<lambda>h cols rs. let n = gen_buffer_size cols in
       (\<lparr>an_fetch = (if rs = [] then 100 else 0), an_count = Some (min n (length rs)), an_cols = [int_column n rs, int_column n rs]\<rparr>, drop n rs),
     dd_diag = \<lambda>rs h t rec. \<lparr>dr_succeeded = False, dr_state = [], dr_native = 0, dr_msg = [], dr_msg_len = 0\<rparr>,
     dd_commit = \<lambda>rs. (sts_success, []), dd_rollback = \<lambda>rs. (sts_success, [])\<rparr>"

lemma cursor_contract0: "cursor_contract odbc_consts0 (sy_rd db2_type0) (db2_driver0 r) (\<lambda>h. map int_row)"
proof -
  have "delivers odbc_consts0 (sy_rd db2_type0) (\<lambda>_ _. \<lparr>an_fetch = (if rs = [] then 100 else 0), an_count = Some (min n (length rs)),
      an_cols = [int_column n rs, int_column n rs]\<rparr>) (map int_row rs) cols"
    if "gen_buffer_size cols = n" for n rs and cols :: "(nat, nat) column list"
    using that by (auto simp: delivers_def Let_def storage_ok_def column_ok_def int_column_def db2_type0_def slot_ok_def int_dscr_def
        gen_buffer_size_def odbc_consts0_def is_odbc_success_def list_all_iff split: if_splits)
  moreover have "buffer_rows (min n (length rs)) [int_column n rs, int_column n rs] = take n (map int_row rs)" for n rs
    by (rule nth_equalityI) (simp_all add: buffer_rows_def int_column_def int_row_def nth_append)
  ultimately show ?thesis
    by (simp add: cursor_contract_def db2_driver0_def Let_def drop_map)
qed

definition db2_facade0 :: "((nat, nat, i32 list) db2_side, (nat, nat) column list) async_db" where
  "db2_facade0 = create_async \<lparr>w2_tasks = [\<lparr>t2_type = db2_type0, t2_query = db2_query0\<lparr>dq_stmt := 7\<rparr>\<rparr>], w2_driver = [], w2_broken = False\<rparr>"

lemma db2_facade0_ready:
  "idle db2_facade0" "0 < length (w2_tasks (as_conn db2_facade0))"
  "w2_tasks (as_conn db2_facade0) ! 0 = \<lparr>t2_type = db2_type0, t2_query = db2_query0\<lparr>dq_stmt := 7\<rparr>\<rparr>"
  "db2_select_ready \<lparr>t2_type = db2_type0, t2_query = db2_query0\<lparr>dq_stmt := 7\<rparr>\<rparr> []"
proof -
  have "storage_ok (sy_rd db2_type0) (br_storage (dq_res db2_query0))" "gen_buffer_size (br_storage (dq_res db2_query0)) = 2"
    by (simp_all add: db2_query0_def db2_type0_def gen_storage_ok_resize gen_rows_resize)
  moreover have "has_r db2_type0" "\<not> has_p db2_type0" "db2_check_layout db2_type0 (db2_query0\<lparr>dq_stmt := 7\<rparr>) = Inr ()"
    by (simp_all add: has_r_def db2_type0_def db2_check_layout_def db2_query0_def has_p_def)
  ultimately show "db2_select_ready \<lparr>t2_type = db2_type0, t2_query = db2_query0\<lparr>dq_stmt := 7\<rparr>\<rparr> []"
    by (simp add: db2_select_ready_def query_ready_def)
qed (simp_all add: db2_facade0_def create_async_def idle_def drained_def)

theorem db2_async_select_delivers_all_witness:
  "let (ans, s1) = execute_sync (db2_backend odbc_consts0 (db2_driver0 0)) (Some 0) (snapshot_params []) True db2_facade0;
       (pages, ended) = row_cursor.drain_loop (async_page (db2_backend odbc_consts0 (db2_driver0 0)) (db2_seen 0) 0) 5 s1
   in ans = Inr True \<and> ended \<and> rows_after (db2_seen 0) (ans, s1) @ concat pages = [int_row 3, int_row 1, int_row 4]"
proof -
  let ?t = "\<lparr>t2_type = db2_type0, t2_query = db2_query0\<lparr>dq_stmt := 7\<rparr>\<rparr>"
  let ?an = "\<lparr>an_execute = 0, an_processed = None, an_row_status = [], an_row_count = 0, an_affected = 0\<rparr>"
  have x: "dd_execute (db2_driver0 0) (dq_stmt (t2_query ?t)) (bound_params (t2_type ?t) []) (w2_driver (as_conn db2_facade0)) = (?an, [3, 1, 4])"
    by (simp add: db2_driver0_def)
  have c: "cursor_contract odbc_consts0 (sy_rd (t2_type ?t)) (db2_driver0 0) (\<lambda>h. map int_row)" using cursor_contract0 by simp
  have a: "execute_accepted odbc_consts0 ?an" by (simp add: execute_accepted_def success0)
  obtain ans s1 where e: "execute_sync (db2_backend odbc_consts0 (db2_driver0 0)) (Some 0) (snapshot_params []) True db2_facade0 = (ans, s1)"
    by fastforce
  obtain pages ended where l: "row_cursor.drain_loop (async_page (db2_backend odbc_consts0 (db2_driver0 0)) (db2_seen 0) 0) 5 s1 = (pages, ended)"
    by fastforce
  show ?thesis
    using db2_async_select_delivers_all [OF db2_facade0_ready c x a _ e l] by (auto simp: e l)
qed

theorem db2_async_statement_refused_witness:
  "\<exists>e. fst (execute_sync (db2_backend odbc_consts0 (db2_driver0 (- 1))) (Some 0) (snapshot_params []) True db2_facade0)
     = Inl (odbc_to_db_error e) \<and> oe_ret e = - 1"
proof -
  let ?t = "\<lparr>t2_type = db2_type0, t2_query = db2_query0\<lparr>dq_stmt := 7\<rparr>\<rparr>"
  let ?an = "\<lparr>an_execute = - 1, an_processed = None, an_row_status = [], an_row_count = 0, an_affected = 0\<rparr>"
  let ?x = "execute_sync (db2_backend odbc_consts0 (db2_driver0 (- 1))) (Some 0) (snapshot_params []) True db2_facade0"
  have x: "dd_execute (db2_driver0 (- 1)) (dq_stmt (t2_query ?t)) (bound_params (t2_type ?t) []) (w2_driver (as_conn db2_facade0)) = (?an, [3, 1, 4])"
    by (simp add: db2_driver0_def)
  have a: "\<not> execute_accepted odbc_consts0 ?an" using success0(2) by (simp add: execute_accepted_def odbc_consts0_def)
  obtain e where e: "make_odbc_error (an_execute ?an) (dd_diag (db2_driver0 (- 1)) [3, 1, 4] (dq_stmt (t2_query ?t)) ht_stmt 1) = Ret e" "oe_ret e = - 1"
    by (simp add: make_odbc_error_def db2_driver0_def)
  have "?x = (fst ?x, snd ?x)" by simp
  from db2_async_statement_refused [OF db2_facade0_ready x a e(1) this] e(2) show ?thesis by auto
qed

end
