(* ===== verification/Json.thy ===== *)
theory Json
  imports Prelude
begin

text \<open>
  JSON values as nlohmann's library keeps them, for the generator (\<open>src/dbgen4/gen\<close>) and for the
  template engine (\<open>src/inja/inja.hpp\<close>). An object is the list of its members: in the order they were
  put (\<open>ordered_json\<close>, which the generator uses) or sorted by key (\<open>json\<close>, which the engine uses).
  Floating point numbers are kept as text, and what is computed of them is a parameter.
\<close>

subsection \<open>Values and objects\<close>

datatype json =
    J_null | J_bool bool | J_int int | J_float string | J_string string
  | J_array "json list" | J_object "(string \<times> json) list"

text \<open>\<open>j[key] = v\<close> on an ordered object: the place of an existing key, else the end; null becomes an object.\<close>

definition put_key :: "string \<Rightarrow> json \<Rightarrow> (string \<times> json) list \<Rightarrow> (string \<times> json) list" where
  "put_key k v kvs =
     (if k \<in> fst ` set kvs then map (\<lambda>(k', v'). (k', if k' = k then v else v')) kvs else kvs @ [(k, v)])"

fun put :: "json \<Rightarrow> string \<times> json \<Rightarrow> json" where
  "put (J_object kvs) (k, v) = J_object (put_key k v kvs)"
| "put j (k, v) = J_object [(k, v)]"

definition put_all :: "json \<Rightarrow> (string \<times> json) list \<Rightarrow> json" where
  "put_all j kvs = foldl put j kvs"

fun field :: "json \<Rightarrow> string \<Rightarrow> json option" where
  "field (J_object kvs) k = map_of kvs k"
| "field j k = None"

record json_lib =
  jl_dump :: "json \<Rightarrow> string"
  jl_float_to_int :: "string \<Rightarrow> int"
  jl_type_error :: "json \<Rightarrow> string"

subsection \<open>Sorted objects\<close>

text \<open>The objects of the engine are sorted by key, by the bytes of the keys.\<close>

fun put_sorted :: "string \<Rightarrow> json \<Rightarrow> (string \<times> json) list \<Rightarrow> (string \<times> json) list" where
  "put_sorted k v [] = [(k, v)]"
| "put_sorted k v ((k', v') # kvs) =
     (if k = k' then (k, v) # kvs else if k < k' then (k, v) # (k', v') # kvs else (k', v') # put_sorted k v kvs)"

text \<open>The conversion of an ordered value.\<close>

fun to_sorted :: "json \<Rightarrow> json" where
  "to_sorted (J_object kvs) = J_object (foldl (\<lambda>acc (k, v). put_sorted k v acc) [] (map (\<lambda>(k, v). (k, to_sorted v)) kvs))"
| "to_sorted (J_array vs) = J_array (map to_sorted vs)"
| "to_sorted j = j"

text \<open>\<open>j[key] = v\<close> on a sorted object or null; on another value the library throws.\<close>

definition set_member :: "string \<Rightarrow> json \<Rightarrow> json \<Rightarrow> json option" where
  "set_member k v j =
     (case j of J_null \<Rightarrow> Some (J_object [(k, v)]) | J_object kvs \<Rightarrow> Some (J_object (put_sorted k v kvs)) | _ \<Rightarrow> None)"

lemma put_sorted_lookup: "map_of (put_sorted k v kvs) = (map_of kvs)(k \<mapsto> v)"
  by (induction k v kvs rule: put_sorted.induct) (auto simp: fun_eq_iff)

lemma put_sorted_keys: "sorted_wrt (<) (map fst kvs) \<Longrightarrow> sorted_wrt (<) (map fst (put_sorted k v kvs))"
proof (induction k v kvs rule: put_sorted.induct)
  case (2 k v k' v' kvs)
  have keys: "fst ` set (put_sorted k v kvs) = insert k (fst ` set kvs)"
    by (induction k v kvs rule: put_sorted.induct) auto
  have "x \<in> insert k (fst ` set kvs) \<Longrightarrow> k' < x" if "k' < k" for x using 2(2) that by auto
  then show ?case using 2 keys by (auto simp: not_less_iff_gr_or_eq dest: order.strict_trans)
qed simp

subsection \<open>Pointers\<close>

text \<open>A JSON pointer is the list of its tokens; \<open>None\<close> is the exception of a text that is not one. In a
  token \<open>~1\<close> stands for a slash and \<open>~0\<close> for a tilde.\<close>

type_synonym json_pointer = "string list"

fun unescape_token :: "string \<Rightarrow> string option" where
  "unescape_token [] = Some []"
| "unescape_token (c # r) =
     (if c \<noteq> CHR ''~'' then map_option ((#) c) (unescape_token r)
      else case r of
        d # r' \<Rightarrow>
          if d = CHR ''0'' then map_option ((#) (CHR ''~'')) (unescape_token r')
          else if d = CHR ''1'' then map_option ((#) (CHR ''/'')) (unescape_token r')
          else None
      | [] \<Rightarrow> None)"

text \<open>The pieces between the slashes.\<close>

fun pieces :: "string \<Rightarrow> string list" where
  "pieces [] = [[]]"
| "pieces (c # r) =
     (if c = CHR ''/'' then [] # pieces r else case pieces r of p # ps \<Rightarrow> (c # p) # ps | [] \<Rightarrow> [[c]])"

definition json_pointer :: "string \<Rightarrow> json_pointer option" where
  "json_pointer s =
     (case s of
        [] \<Rightarrow> Some []
      | c # r \<Rightarrow> if c \<noteq> CHR ''/'' then None else those (map unescape_token (pieces r)))"

text \<open>A token that names an element of an array: a decimal number without a leading zero.\<close>

definition array_index :: "string \<Rightarrow> nat option" where
  "array_index t =
     (if t \<noteq> [] \<and> list_all is_digit t \<and> (length t = 1 \<or> hd t \<noteq> CHR ''0'')
      then Some (foldl (\<lambda>n c. n * 10 + digit_val c) 0 t) else None)"

fun at_pointer :: "json \<Rightarrow> json_pointer \<Rightarrow> json option" where
  "at_pointer j [] = Some j"
| "at_pointer j (t # ts) =
     (case j of
        J_object kvs \<Rightarrow> (case map_of kvs t of Some v \<Rightarrow> at_pointer v ts | None \<Rightarrow> None)
      | J_array vs \<Rightarrow> (case array_index t of Some i \<Rightarrow> (if i < length vs then at_pointer (vs ! i) ts else None) | None \<Rightarrow> None)
      | _ \<Rightarrow> None)"

text \<open>Assigning through a pointer: what is missing on the way is made, an array behind null when the
  token is a number or \<open>-\<close>, an object otherwise; a way through another value is an exception.\<close>

definition extend :: "nat \<Rightarrow> json list \<Rightarrow> json list" where
  "extend i vs = vs @ replicate (Suc i - length vs) J_null"

fun set_pointer :: "json \<Rightarrow> json_pointer \<Rightarrow> json \<Rightarrow> json option" where
  "set_pointer j [] v = Some v"
| "set_pointer j (t # ts) v =
     (case (if j = J_null then (if list_all is_digit t \<or> t = ''-'' then J_array [] else J_object []) else j) of
        J_object kvs \<Rightarrow>
          map_option (\<lambda>x. J_object (put_sorted t x kvs))
            (set_pointer (case map_of kvs t of Some x \<Rightarrow> x | None \<Rightarrow> J_null) ts v)
      | J_array vs \<Rightarrow>
          (case (if t = ''-'' then Some (length vs) else array_index t) of
             None \<Rightarrow> None
           | Some i \<Rightarrow> map_option (\<lambda>x. J_array ((extend i vs)[i := x])) (set_pointer (extend i vs ! i) ts v))
      | _ \<Rightarrow> None)"

text \<open>What was assigned to an object is what is found there.\<close>

lemma at_set_pointer: "set_pointer (J_object kvs) [t] v = Some j' \<Longrightarrow> at_pointer j' [t] = Some v"
  by (auto simp: put_sorted_lookup)

subsection \<open>Kinds\<close>

definition is_number :: "json \<Rightarrow> bool" where
  "is_number j = (case j of J_int _ \<Rightarrow> True | J_float _ \<Rightarrow> True | _ \<Rightarrow> False)"

text \<open>\<open>size\<close> and \<open>empty\<close>: null has no element, a scalar is one.\<close>

definition json_size :: "json \<Rightarrow> nat" where
  "json_size j = (case j of J_null \<Rightarrow> 0 | J_array vs \<Rightarrow> length vs | J_object kvs \<Rightarrow> length kvs | _ \<Rightarrow> 1)"

text \<open>\<open>clear\<close>: the value of its kind that is empty or zero.\<close>

definition json_clear :: "string \<Rightarrow> json \<Rightarrow> json" where
  "json_clear zero j = (case j of J_null \<Rightarrow> J_null | J_bool _ \<Rightarrow> J_bool False | J_int _ \<Rightarrow> J_int 0 | J_float _ \<Rightarrow> J_float zero
     | J_string _ \<Rightarrow> J_string [] | J_array _ \<Rightarrow> J_array [] | J_object _ \<Rightarrow> J_object [])"

end
