(* ===== verification/Inja_Lexer.thy ===== *)
theory Inja_Lexer
  imports Prelude
begin

text \<open>
  The text functions, the configuration and the lexer of the template engine
  (\<open>src/inja/inja.hpp\<close>: \<open>utils.hpp\<close>, \<open>config.hpp\<close>, \<open>token.hpp\<close>, \<open>lexer.hpp\<close>). A view is the text it
  shows; a token also keeps the offset of its text in the template, which the parser computes
  from pointers. The characters are those of the C locale: \<open>isalpha\<close> holds of no byte above 127.
\<close>

subsection \<open>Texts\<close>

definition slice :: "string \<Rightarrow> nat \<Rightarrow> nat \<Rightarrow> string" where
  "slice view start end =
     (let start = min start (length view); end = min (max start end) (length view)
      in take (end - start) (drop start view))"

definition split_at :: "string \<Rightarrow> char \<Rightarrow> string \<times> string" where
  "split_at view sep =
     (let idx = length (takeWhile (\<lambda>c. c \<noteq> sep) view) in
      if idx = length view then (view, []) else (take idx view, drop (idx + 1) view))"

definition starts_with :: "string \<Rightarrow> string \<Rightarrow> bool" where
  "starts_with view prefix \<longleftrightarrow> length prefix \<le> length view \<and> take (length prefix) view = prefix"

text \<open>\<open>find\<close> of a text, and of one of the characters of a set.\<close>

fun find_text :: "string \<Rightarrow> string \<Rightarrow> nat option" where
  "find_text view f =
     (if starts_with view f then Some 0
      else case view of [] \<Rightarrow> None | c # r \<Rightarrow> map_option Suc (find_text r f))"

declare find_text.simps [simp del]

definition find_first_of :: "string \<Rightarrow> string \<Rightarrow> nat option" where
  "find_first_of view cs =
     (let k = length (takeWhile (\<lambda>c. c \<notin> set cs) view) in if k < length view then Some k else None)"

record source_location =
  sl_line :: nat
  sl_column :: nat

text \<open>The loop that counts the newlines: each round searches the next one and goes on behind it.\<close>

function count_lines :: "string \<Rightarrow> nat" where
  "count_lines s = (case dropWhile (\<lambda>c. c \<noteq> CHR 0x0A) s of [] \<Rightarrow> 0 | c # rest \<Rightarrow> Suc (count_lines rest))"
  by pat_completeness auto
termination
proof (relation "measure length")
  fix s :: string and c rest
  assume "dropWhile (\<lambda>c. c \<noteq> CHR 0x0A) s = c # rest"
  then show "(rest, s) \<in> measure length"
    using length_dropWhile_le [of "\<lambda>c. c \<noteq> CHR 0x0A" s] by simp
qed simp

declare count_lines.simps [simp del]

definition get_source_location :: "string \<Rightarrow> nat \<Rightarrow> source_location" where
  "get_source_location content pos =
     (let sliced = slice content 0 pos; after_last = length (takeWhile (\<lambda>c. c \<noteq> CHR 0x0A) (rev sliced)) in
      if after_last = length sliced then \<lparr>sl_line = 1, sl_column = length sliced + 1\<rparr>
      else \<lparr>sl_line = count_lines sliced + 1, sl_column = length sliced - (length sliced - 1 - after_last)\<rparr>)"

lemma starts_with_append: "starts_with view p \<longleftrightarrow> (\<exists>r. view = p @ r)"
  by (auto simp: starts_with_def) (metis append_take_drop_id)

lemma find_text_Some: "find_text s f = Some p \<Longrightarrow> p + length f \<le> length s \<and> starts_with (drop p s) f"
proof (induction s arbitrary: p)
  case Nil
  then show ?case by (simp add: find_text.simps [of "[]"] starts_with_def split: if_splits)
next
  case (Cons c r)
  show ?case
  proof (cases "starts_with (c # r) f")
    case True
    then show ?thesis using Cons.prems by (simp add: find_text.simps [of "c # r"] starts_with_def)
  next
    case False
    then obtain q where "find_text r f = Some q" "p = Suc q"
      using Cons.prems by (auto simp: find_text.simps [of "c # r"])
    with Cons.IH show ?thesis by simp
  qed
qed

text \<open>Every occurrence is replaced, and the search goes on behind the text that was put in.\<close>

function replace_loop :: "string \<Rightarrow> string \<Rightarrow> string \<Rightarrow> string" where
  "replace_loop s f t =
     (if f = [] then s
      else case find_text s f of
        None \<Rightarrow> s
      | Some pos \<Rightarrow> take pos s @ t @ replace_loop (drop (pos + length f) s) f t)"
  by pat_completeness auto
termination
proof (relation "measure (\<lambda>(s, _, _). length s)")
  fix s f t :: string and pos
  assume "f \<noteq> []" "find_text s f = Some pos"
  with find_text_Some [of s f pos] have "0 < length f" "pos + length f \<le> length s" by auto
  then have "length s - (pos + length f) < length s" by linarith
  then show "((drop (pos + length f) s, f, t), (s, f, t)) \<in> measure (\<lambda>(s, _, _). length s)" by simp
qed simp

declare replace_loop.simps [simp del]

definition replace_substring :: "string \<Rightarrow> string \<Rightarrow> string \<Rightarrow> string" where
  "replace_substring s f t = (if f = [] then s else replace_loop s f t)"

subsection \<open>The configuration\<close>

record lexer_config =
  lc_statement_open :: string
  lc_statement_open_no_lstrip :: string
  lc_statement_open_force_lstrip :: string
  lc_statement_close :: string
  lc_statement_close_force_rstrip :: string
  lc_line_statement :: string
  lc_expression_open :: string
  lc_expression_open_force_lstrip :: string
  lc_expression_close :: string
  lc_expression_close_force_rstrip :: string
  lc_comment_open :: string
  lc_comment_open_force_lstrip :: string
  lc_comment_close :: string
  lc_comment_close_force_rstrip :: string
  lc_open_chars :: string
  lc_trim_blocks :: bool
  lc_lstrip_blocks :: bool

definition default_lexer_config :: lexer_config where
  "default_lexer_config = \<lparr>lc_statement_open = ''{%'', lc_statement_open_no_lstrip = ''{%+'',
     lc_statement_open_force_lstrip = ''{%-'', lc_statement_close = ''%}'', lc_statement_close_force_rstrip = ''-%}'',
     lc_line_statement = ''##'', lc_expression_open = ''{{'', lc_expression_open_force_lstrip = ''{{-'',
     lc_expression_close = ''}}'', lc_expression_close_force_rstrip = ''-}}'', lc_comment_open = ''{#'',
     lc_comment_open_force_lstrip = ''{#-'', lc_comment_close = ''#}'', lc_comment_close_force_rstrip = ''-#}'',
     lc_open_chars = ''#{'', lc_trim_blocks = False, lc_lstrip_blocks = False\<rparr>"

text \<open>The first character of a string, which for the empty one is the terminator.\<close>

definition first_char :: "string \<Rightarrow> char" where
  "first_char s = (case s of [] \<Rightarrow> CHR 0x00 | c # _ \<Rightarrow> c)"

definition add_open_char :: "string \<Rightarrow> string \<Rightarrow> string" where
  "add_open_char open_seq open_chars =
     (if first_char open_seq \<in> set open_chars then open_chars else open_chars @ [first_char open_seq])"

definition update_open_chars :: "lexer_config \<Rightarrow> lexer_config" where
  "update_open_chars c = c\<lparr>lc_open_chars :=
     fold add_open_char [lc_line_statement c, lc_statement_open c, lc_statement_open_no_lstrip c, lc_statement_open_force_lstrip c,
       lc_expression_open c, lc_expression_open_force_lstrip c, lc_comment_open c, lc_comment_open_force_lstrip c] []\<rparr>"

definition set_statement :: "string \<Rightarrow> string \<Rightarrow> lexer_config \<Rightarrow> lexer_config" where
  "set_statement open_seq closing c = update_open_chars (c\<lparr>lc_statement_open := open_seq,
     lc_statement_open_no_lstrip := open_seq @ ''+'', lc_statement_open_force_lstrip := open_seq @ ''-'',
     lc_statement_close := closing, lc_statement_close_force_rstrip := ''-'' @ closing\<rparr>)"

definition set_line_statement :: "string \<Rightarrow> lexer_config \<Rightarrow> lexer_config" where
  "set_line_statement open_seq c = update_open_chars (c\<lparr>lc_line_statement := open_seq\<rparr>)"

definition set_expression :: "string \<Rightarrow> string \<Rightarrow> lexer_config \<Rightarrow> lexer_config" where
  "set_expression open_seq closing c = update_open_chars (c\<lparr>lc_expression_open := open_seq,
     lc_expression_open_force_lstrip := open_seq @ ''-'', lc_expression_close := closing,
     lc_expression_close_force_rstrip := ''-'' @ closing\<rparr>)"

definition set_comment :: "string \<Rightarrow> string \<Rightarrow> lexer_config \<Rightarrow> lexer_config" where
  "set_comment open_seq closing c = update_open_chars (c\<lparr>lc_comment_open := open_seq,
     lc_comment_open_force_lstrip := open_seq @ ''-'', lc_comment_close := closing,
     lc_comment_close_force_rstrip := ''-'' @ closing\<rparr>)"

definition set_trim_blocks :: "bool \<Rightarrow> lexer_config \<Rightarrow> lexer_config" where
  "set_trim_blocks b c = c\<lparr>lc_trim_blocks := b\<rparr>"

definition set_lstrip_blocks :: "bool \<Rightarrow> lexer_config \<Rightarrow> lexer_config" where
  "set_lstrip_blocks b c = c\<lparr>lc_lstrip_blocks := b\<rparr>"

subsection \<open>Tokens\<close>

datatype token_kind =
    Tk_Text | Tk_ExpressionOpen | Tk_ExpressionClose | Tk_LineStatementOpen | Tk_LineStatementClose
  | Tk_StatementOpen | Tk_StatementClose | Tk_CommentOpen | Tk_CommentClose | Tk_Id | Tk_Number | Tk_String
  | Tk_Plus | Tk_Minus | Tk_Times | Tk_Slash | Tk_Percent | Tk_Power | Tk_Comma | Tk_Dot | Tk_Colon
  | Tk_LeftParen | Tk_RightParen | Tk_LeftBracket | Tk_RightBracket | Tk_LeftBrace | Tk_RightBrace
  | Tk_Equal | Tk_NotEqual | Tk_GreaterThan | Tk_GreaterEqual | Tk_LessThan | Tk_LessEqual | Tk_Pipe | Tk_Unknown | Tk_Eof

record token =
  tok_kind :: token_kind
  tok_text :: string
  tok_off :: nat

definition describe :: "token \<Rightarrow> string" where
  "describe t = (case tok_kind t of Tk_Text \<Rightarrow> ''<text>'' | Tk_LineStatementClose \<Rightarrow> ''<eol>'' | Tk_Eof \<Rightarrow> ''<eof>'' | _ \<Rightarrow> tok_text t)"

subsection \<open>The lexer\<close>

datatype lexer_state =
    Ls_Text | Ls_ExpressionStart | Ls_ExpressionStartForceLstrip | Ls_ExpressionBody | Ls_LineStart | Ls_LineBody
  | Ls_StatementStart | Ls_StatementStartNoLstrip | Ls_StatementStartForceLstrip | Ls_StatementBody
  | Ls_CommentStart | Ls_CommentStartForceLstrip | Ls_CommentBody

datatype minus_state = Ms_Operator | Ms_Number

text \<open>\<open>lx_base\<close> is the offset of the input in the template: 3 behind a byte order mark.\<close>

record lexer =
  lx_state :: lexer_state
  lx_minus :: minus_state
  lx_in :: string
  lx_base :: nat
  lx_tok_start :: nat
  lx_pos :: nat

definition byte_order_mark :: string where
  "byte_order_mark = [CHR 0xEF, CHR 0xBB, CHR 0xBF]"

definition lexer_start :: "string \<Rightarrow> lexer" where
  "lexer_start input =
     (let bom = starts_with input byte_order_mark in
      \<lparr>lx_state = Ls_Text, lx_minus = Ms_Number, lx_in = (if bom then drop 3 input else input),
       lx_base = (if bom then 3 else 0), lx_tok_start = 0, lx_pos = 0\<rparr>)"

definition current_position :: "lexer \<Rightarrow> source_location" where
  "current_position lx = get_source_location (lx_in lx) (lx_tok_start lx)"

definition make_token :: "token_kind \<Rightarrow> lexer \<Rightarrow> token" where
  "make_token kind lx = \<lparr>tok_kind = kind, tok_text = slice (lx_in lx) (lx_tok_start lx) (lx_pos lx),
     tok_off = lx_base lx + min (lx_tok_start lx) (length (lx_in lx))\<rparr>"

text \<open>What is left of the input at \<open>pos\<close>.\<close>

definition ahead :: "lexer \<Rightarrow> string" where
  "ahead lx = drop (lx_pos lx) (lx_in lx)"

definition advance :: "nat \<Rightarrow> lexer \<Rightarrow> lexer" where
  "advance n lx = lx\<lparr>lx_pos := lx_pos lx + n\<rparr>"

definition is_blank :: "char \<Rightarrow> bool" where
  "is_blank c \<longleftrightarrow> c = CHR '' '' \<or> c = CHR 0x09"

definition skip_whitespaces_and_newlines :: "lexer \<Rightarrow> lexer" where
  "skip_whitespaces_and_newlines lx =
     advance (length (takeWhile (\<lambda>c. is_blank c \<or> c = CHR 0x0A \<or> c = CHR 0x0D) (ahead lx))) lx"

definition skip_whitespaces_and_first_newline :: "lexer \<Rightarrow> lexer" where
  "skip_whitespaces_and_first_newline lx =
     (let lx1 = advance (length (takeWhile is_blank (ahead lx))) lx in
      case ahead lx1 of
        [] \<Rightarrow> lx1
      | c # r \<Rightarrow>
          if c = CHR 0x0A then advance 1 lx1
          else if c = CHR 0x0D then (if starts_with r [CHR 0x0A] then advance 2 lx1 else advance 1 lx1)
          else lx1)"

definition clear_final_line_if_whitespace :: "string \<Rightarrow> string" where
  "clear_final_line_if_whitespace text =
     (let result = rev (dropWhile is_blank (rev text)) in
      if result = [] \<or> last result = CHR 0x0A \<or> last result = CHR 0x0D then result else text)"

definition is_alpha :: "char \<Rightarrow> bool" where
  "is_alpha c \<longleftrightarrow> (let n = (of_char c :: nat) in (65 \<le> n \<and> n \<le> 90) \<or> (97 \<le> n \<and> n \<le> 122))"

definition id_char :: "char \<Rightarrow> bool" where
  "id_char c \<longleftrightarrow> is_alpha c \<or> is_digit c \<or> c = CHR ''.'' \<or> c = CHR ''/'' \<or> c = CHR ''_'' \<or> c = CHR ''-''"

definition scan_id :: "lexer \<Rightarrow> token \<times> lexer" where
  "scan_id lx = (let lx1 = advance (length (takeWhile id_char (ahead lx))) lx in (make_token Tk_Id lx1, lx1))"

text \<open>The characters a number takes; \<open>prev\<close> is the one before.\<close>

fun number_len :: "char \<Rightarrow> string \<Rightarrow> nat" where
  "number_len prev [] = 0"
| "number_len prev (c # r) =
     (let exponent = (prev = CHR ''e'' \<or> prev = CHR ''E'') in
      if is_digit c \<or> c = CHR ''.'' \<or> c = CHR ''e'' \<or> c = CHR ''E'' \<or> (c = CHR ''+'' \<and> exponent) \<or> (c = CHR ''-'' \<and> exponent)
      then Suc (number_len c r) else 0)"

definition scan_number :: "lexer \<Rightarrow> token \<times> lexer" where
  "scan_number lx = (let lx1 = advance (number_len (lx_in lx ! (lx_pos lx - 1)) (ahead lx)) lx in (make_token Tk_Number lx1, lx1))"

text \<open>The characters of a string up to and with the closing quote.\<close>

fun string_len :: "char \<Rightarrow> bool \<Rightarrow> string \<Rightarrow> nat" where
  "string_len quote escape [] = 0"
| "string_len quote escape (c # r) =
     (if c = CHR 0x5C then Suc (string_len quote (\<not> escape) r)
      else if \<not> escape \<and> c = quote then 1
      else Suc (string_len quote False r))"

definition scan_string :: "lexer \<Rightarrow> token \<times> lexer" where
  "scan_string lx = (let lx1 = advance (string_len (lx_in lx ! lx_tok_start lx) False (ahead lx)) lx in (make_token Tk_String lx1, lx1))"

definition emit :: "token_kind \<Rightarrow> lexer \<Rightarrow> token \<times> lexer" where
  "emit kind lx = (make_token kind lx, lx)"

text \<open>A character that may be followed by \<open>=\<close>.\<close>

definition emit_equal :: "token_kind \<Rightarrow> token_kind \<Rightarrow> lexer \<Rightarrow> token \<times> lexer" where
  "emit_equal with_equal alone lx = (if starts_with (ahead lx) ''='' then emit with_equal (advance 1 lx) else emit alone lx)"

text \<open>The switch on the first character of a token, with \<open>pos\<close> behind it.\<close>

definition scan_symbol :: "char \<Rightarrow> lexer \<Rightarrow> token \<times> lexer" where
  "scan_symbol ch lx0 =
     (let current_minus_state = lx_minus lx0;
          lx = (if lx_minus lx0 = Ms_Operator then lx0\<lparr>lx_minus := Ms_Number\<rparr> else lx0);
          operator = lx\<lparr>lx_minus := Ms_Operator\<rparr>
      in if ch = CHR ''+'' then emit Tk_Plus lx
         else if ch = CHR ''-'' then (if current_minus_state = Ms_Operator then emit Tk_Minus lx else scan_number lx)
         else if ch = CHR ''*'' then emit Tk_Times lx
         else if ch = CHR ''/'' then emit Tk_Slash lx
         else if ch = CHR ''^'' then emit Tk_Power lx
         else if ch = CHR ''%'' then emit Tk_Percent lx
         else if ch = CHR ''.'' then emit Tk_Dot lx
         else if ch = CHR '','' then emit Tk_Comma lx
         else if ch = CHR '':'' then emit Tk_Colon lx
         else if ch = CHR ''|'' then emit Tk_Pipe lx
         else if ch = CHR ''('' then emit Tk_LeftParen lx
         else if ch = CHR '')'' then emit Tk_RightParen operator
         else if ch = CHR ''['' then emit Tk_LeftBracket lx
         else if ch = CHR '']'' then emit Tk_RightBracket operator
         else if ch = CHR ''{'' then emit Tk_LeftBrace lx
         else if ch = CHR ''}'' then emit Tk_RightBrace operator
         else if ch = CHR ''>'' then emit_equal Tk_GreaterEqual Tk_GreaterThan lx
         else if ch = CHR ''<'' then emit_equal Tk_LessEqual Tk_LessThan lx
         else if ch = CHR ''='' then emit_equal Tk_Equal Tk_Unknown lx
         else if ch = CHR ''!'' then emit_equal Tk_NotEqual Tk_Unknown lx
         else if ch = CHR 0x22 then scan_string lx
         else if is_digit ch then scan_number operator
         else if ch = CHR ''_'' \<or> ch = CHR ''@'' \<or> ch = CHR ''$'' then scan_id operator
         else emit Tk_Unknown lx)"

definition scan_token :: "char \<Rightarrow> lexer \<Rightarrow> token \<times> lexer" where
  "scan_token ch lx = (if is_alpha ch then scan_id (lx\<lparr>lx_minus := Ms_Operator\<rparr>) else scan_symbol ch lx)"

text \<open>The end of a body: back to text, with \<open>pos\<close> behind the closing sequence.\<close>

definition close_body :: "string \<Rightarrow> lexer \<Rightarrow> lexer" where
  "close_body closing lx = lx\<lparr>lx_state := Ls_Text, lx_pos := lx_tok_start lx + length closing\<rparr>"

function scan_body :: "string \<Rightarrow> token_kind \<Rightarrow> string \<Rightarrow> bool \<Rightarrow> lexer \<Rightarrow> token \<times> lexer" where
  "scan_body closing close_kind close_trim trim lx =
     (if length (lx_in lx) \<le> lx_tok_start lx then emit Tk_Eof lx
      else
        let ch = lx_in lx ! lx_tok_start lx; rest = drop (lx_tok_start lx) (lx_in lx); next = lx\<lparr>lx_tok_start := lx_tok_start lx + 1\<rparr> in
        if is_blank ch \<or> ch = CHR 0x0D then scan_body closing close_kind close_trim trim next
        else if close_trim \<noteq> [] \<and> starts_with rest close_trim
        then (let lx1 = close_body close_trim lx in (make_token close_kind lx1, skip_whitespaces_and_newlines lx1))
        else if starts_with rest closing
        then (let lx1 = close_body closing lx in (make_token close_kind lx1, if trim then skip_whitespaces_and_first_newline lx1 else lx1))
        else if ch = CHR 0x0A then scan_body closing close_kind close_trim trim next
        else scan_token ch (lx\<lparr>lx_pos := lx_tok_start lx + 1\<rparr>))"
  by pat_completeness auto
termination
  by (relation "measure (\<lambda>(_, _, _, _, lx). length (lx_in lx) - lx_tok_start lx)") auto

declare scan_body.simps [simp del]

text \<open>The opening sequence at a position, if there is one: the state it leads to and whether the text
  before it loses the blanks of its last line.\<close>

definition opening_at :: "lexer_config \<Rightarrow> string \<Rightarrow> nat \<Rightarrow> (lexer_state \<times> bool) option" where
  "opening_at c input pos =
     (let open_str = drop pos input in
      if starts_with open_str (lc_expression_open c)
      then (if starts_with open_str (lc_expression_open_force_lstrip c) then Some (Ls_ExpressionStartForceLstrip, True)
            else Some (Ls_ExpressionStart, False))
      else if starts_with open_str (lc_statement_open c)
      then (if starts_with open_str (lc_statement_open_no_lstrip c) then Some (Ls_StatementStartNoLstrip, False)
            else if starts_with open_str (lc_statement_open_force_lstrip c) then Some (Ls_StatementStartForceLstrip, True)
            else Some (Ls_StatementStart, lc_lstrip_blocks c))
      else if starts_with open_str (lc_comment_open c)
      then (if starts_with open_str (lc_comment_open_force_lstrip c) then Some (Ls_CommentStartForceLstrip, True)
            else Some (Ls_CommentStart, lc_lstrip_blocks c))
      else if (pos = 0 \<or> input ! (pos - 1) = CHR 0x0A) \<and> starts_with open_str (lc_line_statement c)
      then Some (Ls_LineStart, False)
      else None)"

text \<open>The scan for the first opening sequence from \<open>pos\<close> on: from one candidate character to the next.\<close>

function find_open :: "lexer_config \<Rightarrow> string \<Rightarrow> nat \<Rightarrow> (nat \<times> lexer_state \<times> bool) option" where
  "find_open c input pos =
     (case find_first_of (drop pos input) (lc_open_chars c) of
        None \<Rightarrow> None
      | Some open_start \<Rightarrow>
          let p = pos + open_start in
          case opening_at c input p of Some r \<Rightarrow> Some (p, r) | None \<Rightarrow> find_open c input (p + 1))"
  by pat_completeness auto
termination
  by (relation "measure (\<lambda>(_, input, pos). length input - pos)") (auto simp: find_first_of_def Let_def split: if_splits)

declare find_open.simps [simp del]

text \<open>The states behind an opening sequence.\<close>

definition open_token :: "token_kind \<Rightarrow> lexer_state \<Rightarrow> string \<Rightarrow> lexer \<Rightarrow> token \<times> lexer" where
  "open_token kind body open_seq lx = emit kind (advance (length open_seq) (lx\<lparr>lx_state := body\<rparr>))"

text \<open>The body of a comment: the whole of it is the token that closes it. The search for the trim pattern
  starts one character before the end, which is inside the input as no opening sequence is empty.\<close>

definition scan_comment :: "lexer_config \<Rightarrow> lexer \<Rightarrow> token \<times> lexer" where
  "scan_comment c lx =
     (case find_text (ahead lx) (lc_comment_close c) of
        None \<Rightarrow> emit Tk_Eof (lx\<lparr>lx_pos := length (lx_in lx)\<rparr>)
      | Some e \<Rightarrow>
          let must_rstrip = starts_with (drop (lx_pos lx + e - 1) (lx_in lx)) (lc_comment_close_force_rstrip c);
              lx1 = advance (e + length (lc_comment_close c)) (lx\<lparr>lx_state := Ls_Text\<rparr>)
          in (make_token Tk_CommentClose lx1,
              if must_rstrip \<or> lc_trim_blocks c then skip_whitespaces_and_first_newline lx1 else lx1))"

definition scan_tag :: "lexer_config \<Rightarrow> lexer \<Rightarrow> token \<times> lexer" where
  "scan_tag c lx =
     (case lx_state lx of
        Ls_Text \<Rightarrow> emit Tk_Eof lx
      | Ls_ExpressionStart \<Rightarrow> open_token Tk_ExpressionOpen Ls_ExpressionBody (lc_expression_open c) lx
      | Ls_ExpressionStartForceLstrip \<Rightarrow> open_token Tk_ExpressionOpen Ls_ExpressionBody (lc_expression_open_force_lstrip c) lx
      | Ls_LineStart \<Rightarrow> open_token Tk_LineStatementOpen Ls_LineBody (lc_line_statement c) lx
      | Ls_StatementStart \<Rightarrow> open_token Tk_StatementOpen Ls_StatementBody (lc_statement_open c) lx
      | Ls_StatementStartNoLstrip \<Rightarrow> open_token Tk_StatementOpen Ls_StatementBody (lc_statement_open_no_lstrip c) lx
      | Ls_StatementStartForceLstrip \<Rightarrow> open_token Tk_StatementOpen Ls_StatementBody (lc_statement_open_force_lstrip c) lx
      | Ls_CommentStart \<Rightarrow> open_token Tk_CommentOpen Ls_CommentBody (lc_comment_open c) lx
      | Ls_CommentStartForceLstrip \<Rightarrow> open_token Tk_CommentOpen Ls_CommentBody (lc_comment_open_force_lstrip c) lx
      | Ls_ExpressionBody \<Rightarrow> scan_body (lc_expression_close c) Tk_ExpressionClose (lc_expression_close_force_rstrip c) False lx
      | Ls_LineBody \<Rightarrow> scan_body [CHR 0x0A] Tk_LineStatementClose [] False lx
      | Ls_StatementBody \<Rightarrow>
          scan_body (lc_statement_close c) Tk_StatementClose (lc_statement_close_force_rstrip c) (lc_trim_blocks c) lx
      | Ls_CommentBody \<Rightarrow> scan_comment c lx)"

text \<open>Text: all of it up to the first opening sequence. No token is made of an empty text, the tag that
  follows is scanned at once (its token then starts where the text started).\<close>

definition scan_text :: "lexer_config \<Rightarrow> lexer \<Rightarrow> token \<times> lexer" where
  "scan_text c lx =
     (case find_open c (lx_in lx) (lx_pos lx) of
        None \<Rightarrow> emit Tk_Text (lx\<lparr>lx_pos := length (lx_in lx)\<rparr>)
      | Some (p, st, must_lstrip) \<Rightarrow>
          let lx1 = lx\<lparr>lx_state := st, lx_pos := p\<rparr>;
              whole = slice (lx_in lx) (lx_tok_start lx) p;
              text = (if must_lstrip then clear_final_line_if_whitespace whole else whole)
          in if text = [] then scan_tag c lx1
             else (\<lparr>tok_kind = Tk_Text, tok_text = text, tok_off = lx_base lx + lx_tok_start lx\<rparr>, lx1))"

definition scan :: "lexer_config \<Rightarrow> lexer \<Rightarrow> token \<times> lexer" where
  "scan c lx0 =
     (let lx = lx0\<lparr>lx_tok_start := lx_pos lx0\<rparr> in
      if length (lx_in lx) \<le> lx_tok_start lx then emit Tk_Eof lx
      else if lx_state lx = Ls_Text then scan_text c lx
      else scan_tag c lx)"

subsection \<open>What a scan takes\<close>

text \<open>A configuration whose sequences are not empty, as all that the program makes are.\<close>

definition config_ok :: "lexer_config \<Rightarrow> bool" where
  "config_ok c \<longleftrightarrow> lc_statement_open c \<noteq> [] \<and> lc_statement_open_no_lstrip c \<noteq> [] \<and> lc_statement_open_force_lstrip c \<noteq> []
     \<and> lc_statement_close c \<noteq> [] \<and> lc_line_statement c \<noteq> [] \<and> lc_expression_open c \<noteq> [] \<and> lc_expression_open_force_lstrip c \<noteq> []
     \<and> lc_expression_close c \<noteq> [] \<and> lc_comment_open c \<noteq> [] \<and> lc_comment_open_force_lstrip c \<noteq> [] \<and> lc_comment_close c \<noteq> []"

lemma config_ok_default: "config_ok default_lexer_config"
  by (simp add: config_ok_def default_lexer_config_def)

lemma config_ok_setters:
  "config_ok c \<Longrightarrow> a \<noteq> [] \<Longrightarrow> b \<noteq> [] \<Longrightarrow> config_ok (set_expression a b c)"
  "config_ok c \<Longrightarrow> a \<noteq> [] \<Longrightarrow> b \<noteq> [] \<Longrightarrow> config_ok (set_statement a b c)"
  "config_ok c \<Longrightarrow> a \<noteq> [] \<Longrightarrow> b \<noteq> [] \<Longrightarrow> config_ok (set_comment a b c)"
  "config_ok c \<Longrightarrow> a \<noteq> [] \<Longrightarrow> config_ok (set_line_statement a c)"
  by (simp_all add: config_ok_def set_expression_def set_statement_def set_comment_def set_line_statement_def update_open_chars_def)

text \<open>\<open>taken\<close> is what a scan from \<open>lo\<close> on gives: the text of the token is a part of the input that starts
  at \<open>lo\<close> or later and ends before the new position, which is beyond \<open>lo\<close>.\<close>

definition taken :: "string \<Rightarrow> nat \<Rightarrow> nat \<Rightarrow> token \<times> lexer \<Rightarrow> bool" where
  "taken input base lo r \<longleftrightarrow> lx_in (snd r) = input \<and> lx_base (snd r) = base \<and> lo < lx_pos (snd r) \<and> lx_pos (snd r) \<le> length input
     \<and> (\<exists>st. lo \<le> st \<and> tok_off (fst r) = base + st \<and> st + length (tok_text (fst r)) \<le> lx_pos (snd r)
          \<and> tok_text (fst r) = take (length (tok_text (fst r))) (drop st input))"

definition ended :: "string \<Rightarrow> nat \<Rightarrow> nat \<Rightarrow> token \<times> lexer \<Rightarrow> bool" where
  "ended input base lo r \<longleftrightarrow> tok_kind (fst r) = Tk_Eof \<and> lx_in (snd r) = input \<and> lx_base (snd r) = base
     \<and> lo \<le> lx_pos (snd r) \<and> lx_pos (snd r) \<le> length input"

lemma slice_part: "st \<le> e \<Longrightarrow> e \<le> length v \<Longrightarrow> slice v st e = take (e - st) (drop st v)"
  by (simp add: slice_def Let_def)

lemma length_slice: "st \<le> e \<Longrightarrow> e \<le> length v \<Longrightarrow> length (slice v st e) = e - st"
  by (simp add: slice_part)

lemma advance_simps [simp]:
  "lx_in (advance n lx) = lx_in lx" "lx_base (advance n lx) = lx_base lx" "lx_tok_start (advance n lx) = lx_tok_start lx"
  "lx_pos (advance n lx) = lx_pos lx + n" "lx_state (advance n lx) = lx_state lx"
  by (simp_all add: advance_def)

lemma make_token_kind [simp]: "tok_kind (make_token k lx) = k"
  by (simp add: make_token_def)

lemma make_token_taken:
  assumes "lo \<le> lx_tok_start lx" "lx_tok_start lx \<le> lx_pos lx" "lo < lx_pos lx'" "lx_pos lx \<le> lx_pos lx'" "lx_pos lx' \<le> length (lx_in lx)"
    and "lx_in lx' = lx_in lx" "lx_base lx' = lx_base lx"
  shows "taken (lx_in lx) (lx_base lx) lo (make_token k lx, lx')"
proof -
  have e: "lx_pos lx \<le> length (lx_in lx)" using assms(4,5) by simp
  show ?thesis
    unfolding taken_def fst_conv snd_conv
    using assms by (intro conjI exI [of _ "lx_tok_start lx"]) (simp_all add: make_token_def slice_part [OF assms(2) e])
qed

lemma emit_taken:
  "lo \<le> lx_tok_start lx \<Longrightarrow> lx_tok_start lx \<le> lx_pos lx \<Longrightarrow> lo < lx_pos lx \<Longrightarrow> lx_pos lx \<le> length (lx_in lx) \<Longrightarrow>
    taken (lx_in lx) (lx_base lx) lo (emit k lx)"
  unfolding emit_def by (rule make_token_taken) simp_all

lemma length_ahead [simp]: "length (ahead lx) = length (lx_in lx) - lx_pos lx"
  by (simp add: ahead_def)

lemma while_ahead: "lx_pos lx \<le> length (lx_in lx) \<Longrightarrow> lx_pos lx + length (takeWhile P (ahead lx)) \<le> length (lx_in lx)"
  using length_takeWhile_le [of P "ahead lx"] by simp

lemma skip_newlines_frame:
  assumes "lx_pos lx \<le> length (lx_in lx)"
  shows "lx_in (skip_whitespaces_and_newlines lx) = lx_in lx" "lx_base (skip_whitespaces_and_newlines lx) = lx_base lx"
    "lx_pos lx \<le> lx_pos (skip_whitespaces_and_newlines lx)" "lx_pos (skip_whitespaces_and_newlines lx) \<le> length (lx_in lx)"
  using while_ahead [OF assms] by (simp_all add: skip_whitespaces_and_newlines_def)

lemma skip_first_newline_frame:
  assumes "lx_pos lx \<le> length (lx_in lx)"
  shows "lx_in (skip_whitespaces_and_first_newline lx) = lx_in lx" "lx_base (skip_whitespaces_and_first_newline lx) = lx_base lx"
    "lx_pos lx \<le> lx_pos (skip_whitespaces_and_first_newline lx)" "lx_pos (skip_whitespaces_and_first_newline lx) \<le> length (lx_in lx)"
proof -
  let ?lx1 = "advance (length (takeWhile is_blank (ahead lx))) lx"
  have p: "lx_pos lx \<le> lx_pos ?lx1" "lx_pos ?lx1 \<le> length (lx_in lx)" using while_ahead [OF assms] by simp_all
  show "lx_in (skip_whitespaces_and_first_newline lx) = lx_in lx" "lx_base (skip_whitespaces_and_first_newline lx) = lx_base lx"
    "lx_pos lx \<le> lx_pos (skip_whitespaces_and_first_newline lx)"
    by (simp_all add: skip_whitespaces_and_first_newline_def Let_def split: list.split)
  show "lx_pos (skip_whitespaces_and_first_newline lx) \<le> length (lx_in lx)"
  proof (cases "ahead ?lx1")
    case Nil
    then show ?thesis using p by (simp add: skip_whitespaces_and_first_newline_def)
  next
    case (Cons c r)
    then have "length (lx_in lx) - lx_pos ?lx1 = Suc (length r)" using length_ahead [of ?lx1] by simp
    then show ?thesis using Cons p
      by (cases r) (auto simp: skip_whitespaces_and_first_newline_def Let_def starts_with_def)
  qed
qed

lemma number_len_le: "number_len p cs \<le> length cs"
  by (induction p cs rule: number_len.induct) (auto simp: Let_def)

lemma string_len_le: "string_len q e cs \<le> length cs"
  by (induction q e cs rule: string_len.induct) auto

text \<open>A lexer in front of a token of at least one character.\<close>

definition at_token :: "nat \<Rightarrow> lexer \<Rightarrow> bool" where
  "at_token lo lx \<longleftrightarrow> lo \<le> lx_tok_start lx \<and> lx_pos lx = lx_tok_start lx + 1 \<and> lx_pos lx \<le> length (lx_in lx)"

lemma at_token_minus [simp]: "at_token lo (lx\<lparr>lx_minus := m\<rparr>) = at_token lo lx"
  by (simp add: at_token_def)

lemma emit_advance_taken:
  assumes "at_token lo lx" "n \<le> length (ahead lx)"
  shows "taken (lx_in lx) (lx_base lx) lo (emit k (advance n lx))"
proof -
  have "lx_pos (advance n lx) \<le> length (lx_in lx)" using assms(2) assms(1) unfolding at_token_def length_ahead advance_simps by linarith
  then show ?thesis using assms(1) emit_taken [of lo "advance n lx" k] by (simp add: at_token_def)
qed

lemma emit_at_token: "at_token lo lx \<Longrightarrow> taken (lx_in lx) (lx_base lx) lo (emit k lx)"
  using emit_taken [of lo lx k] by (simp add: at_token_def)

lemma scan_id_taken: "at_token lo lx \<Longrightarrow> taken (lx_in lx) (lx_base lx) lo (scan_id lx)"
  using emit_advance_taken [OF _ length_takeWhile_le] by (simp add: scan_id_def emit_def Let_def)

lemma scan_number_taken: "at_token lo lx \<Longrightarrow> taken (lx_in lx) (lx_base lx) lo (scan_number lx)"
  using emit_advance_taken [OF _ number_len_le] by (simp add: scan_number_def emit_def Let_def)

lemma scan_string_taken: "at_token lo lx \<Longrightarrow> taken (lx_in lx) (lx_base lx) lo (scan_string lx)"
  using emit_advance_taken [OF _ string_len_le] by (simp add: scan_string_def emit_def Let_def)

lemma emit_equal_taken: "at_token lo lx \<Longrightarrow> taken (lx_in lx) (lx_base lx) lo (emit_equal a b lx)"
  using emit_advance_taken [of lo lx 1 a] emit_at_token [of lo lx b] by (auto simp: emit_equal_def starts_with_def)

lemmas token_taken = emit_at_token scan_id_taken scan_number_taken scan_string_taken emit_equal_taken

lemma token_taken_minus:
  assumes "at_token lo lx"
  shows "taken (lx_in lx) (lx_base lx) lo (emit k (lx\<lparr>lx_minus := m\<rparr>))"
    "taken (lx_in lx) (lx_base lx) lo (scan_id (lx\<lparr>lx_minus := m\<rparr>))"
    "taken (lx_in lx) (lx_base lx) lo (scan_number (lx\<lparr>lx_minus := m\<rparr>))"
    "taken (lx_in lx) (lx_base lx) lo (scan_string (lx\<lparr>lx_minus := m\<rparr>))"
    "taken (lx_in lx) (lx_base lx) lo (emit_equal a b (lx\<lparr>lx_minus := m\<rparr>))"
  using token_taken [of lo "lx\<lparr>lx_minus := m\<rparr>"] assms by simp_all

lemma scan_token_taken:
  assumes "at_token lo lx"
  shows "taken (lx_in lx) (lx_base lx) lo (scan_token ch lx)"
  unfolding scan_token_def scan_symbol_def Let_def
  by (simp add: token_taken [OF assms] token_taken_minus [OF assms])

lemma close_body_taken:
  assumes "starts_with (drop (lx_tok_start lx) (lx_in lx)) closing" "closing \<noteq> []" "lo \<le> lx_tok_start lx" "lx_tok_start lx < length (lx_in lx)"
    and "f = id \<or> f = skip_whitespaces_and_newlines \<or> f = skip_whitespaces_and_first_newline"
  shows "taken (lx_in lx) (lx_base lx) lo (make_token k (close_body closing lx), f (close_body closing lx))"
proof -
  let ?lx1 = "close_body closing lx"
  have len: "0 < length closing" "length closing \<le> length (lx_in lx) - lx_tok_start lx"
    using assms(1,2) by (auto simp: starts_with_def)
  have c: "lx_in ?lx1 = lx_in lx" "lx_base ?lx1 = lx_base lx" "lx_tok_start ?lx1 = lx_tok_start lx"
    "lx_pos ?lx1 = lx_tok_start lx + length closing"
    by (simp_all add: close_body_def)
  have p: "lx_pos ?lx1 \<le> length (lx_in ?lx1)" unfolding c using len assms(4) by linarith
  have f: "lx_in (f ?lx1) = lx_in ?lx1" "lx_base (f ?lx1) = lx_base ?lx1" "lx_pos ?lx1 \<le> lx_pos (f ?lx1)"
    "lx_pos (f ?lx1) \<le> length (lx_in ?lx1)"
    using assms(5) skip_newlines_frame [OF p] skip_first_newline_frame [OF p] p by auto
  have "taken (lx_in ?lx1) (lx_base ?lx1) lo (make_token k ?lx1, f ?lx1)"
    using make_token_taken [of lo ?lx1 "f ?lx1" k] f p c len assms(3) by linarith
  then show ?thesis by (simp add: c)
qed

lemma scan_body_taken:
  assumes "lo \<le> lx_tok_start lx" "lx_pos lx = lo" "lo \<le> length (lx_in lx)" "closing \<noteq> []"
  shows "taken (lx_in lx) (lx_base lx) lo (scan_body closing k close_trim trim lx)
    \<or> ended (lx_in lx) (lx_base lx) lo (scan_body closing k close_trim trim lx)"
  using assms
proof (induction closing k close_trim trim lx rule: scan_body.induct)
  case (1 closing k close_trim trim lx)
  let ?ch = "lx_in lx ! lx_tok_start lx" and ?rest = "drop (lx_tok_start lx) (lx_in lx)"
  let ?next = "lx\<lparr>lx_tok_start := lx_tok_start lx + 1\<rparr>" and ?r = "scan_body closing k close_trim trim lx"
  show ?case
  proof (cases "length (lx_in lx) \<le> lx_tok_start lx")
    case True
    then show ?thesis using 1(4,5) by (simp add: scan_body.simps [of closing k close_trim trim lx] ended_def emit_def)
  next
    case inside: False
    have step: "?r = scan_body closing k close_trim trim ?next \<Longrightarrow>
        taken (lx_in ?next) (lx_base ?next) lo (scan_body closing k close_trim trim ?next)
          \<or> ended (lx_in ?next) (lx_base ?next) lo (scan_body closing k close_trim trim ?next) \<Longrightarrow> ?thesis" by simp
    consider (blank) "is_blank ?ch \<or> ?ch = CHR 0x0D"
      | (trim) "\<not> (is_blank ?ch \<or> ?ch = CHR 0x0D)" "close_trim \<noteq> []" "starts_with ?rest close_trim"
      | (close) "\<not> (is_blank ?ch \<or> ?ch = CHR 0x0D)" "\<not> (close_trim \<noteq> [] \<and> starts_with ?rest close_trim)" "starts_with ?rest closing"
      | (newline) "\<not> (is_blank ?ch \<or> ?ch = CHR 0x0D)" "\<not> (close_trim \<noteq> [] \<and> starts_with ?rest close_trim)"
          "\<not> starts_with ?rest closing" "?ch = CHR 0x0A"
      | (token) "\<not> (is_blank ?ch \<or> ?ch = CHR 0x0D)" "\<not> (close_trim \<noteq> [] \<and> starts_with ?rest close_trim)"
          "\<not> starts_with ?rest closing" "?ch \<noteq> CHR 0x0A"
      by blast
    then show ?thesis
    proof cases
      case blank
      then have "?r = scan_body closing k close_trim trim ?next"
        using inside by (subst scan_body.simps) (auto simp: Let_def)
      then show ?thesis using 1(1) [OF inside refl refl refl blank] 1(3-6) by simp
    next
      case trim
      then have "?r = (make_token k (close_body close_trim lx), skip_whitespaces_and_newlines (close_body close_trim lx))"
        using inside by (subst scan_body.simps) (auto simp: Let_def)
      then show ?thesis using close_body_taken [OF trim(3,2) 1(3)] inside by simp
    next
      case close
      then have "?r = (make_token k (close_body closing lx), (if trim then skip_whitespaces_and_first_newline else id) (close_body closing lx))"
        using inside by (subst scan_body.simps) (auto simp: Let_def)
      then show ?thesis using close_body_taken [OF close(3) 1(6,3)] inside by simp
    next
      case newline
      then have "?r = scan_body closing k close_trim trim ?next"
        using inside by (subst scan_body.simps) (auto simp: Let_def)
      then show ?thesis using 1(2) [OF inside refl refl refl newline] 1(3-6) by simp
    next
      case token
      then have "?r = scan_token ?ch (lx\<lparr>lx_pos := lx_tok_start lx + 1\<rparr>)"
        using inside by (subst scan_body.simps) (auto simp: Let_def)
      moreover have "at_token lo (lx\<lparr>lx_pos := lx_tok_start lx + 1\<rparr>)" using inside 1(3) by (simp add: at_token_def)
      ultimately show ?thesis using scan_token_taken [of lo "lx\<lparr>lx_pos := lx_tok_start lx + 1\<rparr>" ?ch] by simp
    qed
  qed
qed

text \<open>The invariant of the lexer: the position is inside the input, and a state that was reached by an
  opening sequence stands in front of it.\<close>

definition opening_of :: "lexer_config \<Rightarrow> lexer_state \<Rightarrow> string option" where
  "opening_of c st = (case st of
       Ls_ExpressionStart \<Rightarrow> Some (lc_expression_open c)
     | Ls_ExpressionStartForceLstrip \<Rightarrow> Some (lc_expression_open_force_lstrip c)
     | Ls_LineStart \<Rightarrow> Some (lc_line_statement c)
     | Ls_StatementStart \<Rightarrow> Some (lc_statement_open c)
     | Ls_StatementStartNoLstrip \<Rightarrow> Some (lc_statement_open_no_lstrip c)
     | Ls_StatementStartForceLstrip \<Rightarrow> Some (lc_statement_open_force_lstrip c)
     | Ls_CommentStart \<Rightarrow> Some (lc_comment_open c)
     | Ls_CommentStartForceLstrip \<Rightarrow> Some (lc_comment_open_force_lstrip c)
     | _ \<Rightarrow> None)"

definition lexer_ok :: "lexer_config \<Rightarrow> lexer \<Rightarrow> bool" where
  "lexer_ok c lx \<longleftrightarrow> lx_pos lx \<le> length (lx_in lx)
     \<and> (\<forall>open_seq. opening_of c (lx_state lx) = Some open_seq \<longrightarrow> starts_with (ahead lx) open_seq)"

lemma opening_at_found:
  "opening_at c input p = Some (st, l) \<Longrightarrow> (\<exists>open_seq. opening_of c st = Some open_seq \<and> starts_with (drop p input) open_seq)"
  by (auto simp: opening_at_def opening_of_def Let_def split: if_splits)

lemma find_open_found:
  "find_open c input pos = Some (p, st, l) \<Longrightarrow> pos \<le> length input \<Longrightarrow>
    pos \<le> p \<and> p < length input \<and> opening_at c input p = Some (st, l)"
proof (induction c input pos rule: find_open.induct)
  case (1 c input pos)
  obtain k where k: "find_first_of (drop pos input) (lc_open_chars c) = Some k"
    using 1(2) by (subst (asm) find_open.simps) (auto split: option.splits)
  then have kl: "pos + k < length input" by (auto simp: find_first_of_def Let_def split: if_splits)
  show ?case
  proof (cases "opening_at c input (pos + k)")
    case None
    then have "find_open c input (pos + k + 1) = Some (p, st, l)" using 1(2) k by (subst (asm) find_open.simps) simp
    then show ?thesis using 1(1) [OF k refl None] kl by simp
  next
    case (Some r)
    then show ?thesis using 1(2) k kl by (subst (asm) find_open.simps) simp
  qed
qed

lemma skip_state [simp]:
  "lx_state (skip_whitespaces_and_newlines lx) = lx_state lx"
  "lx_state (skip_whitespaces_and_first_newline lx) = lx_state lx"
  by (simp_all add: skip_whitespaces_and_newlines_def skip_whitespaces_and_first_newline_def Let_def split: list.split)

lemma scan_token_state [simp]: "lx_state (snd (scan_token ch lx)) = lx_state lx"
  by (simp add: scan_token_def scan_symbol_def scan_id_def scan_number_def scan_string_def emit_def emit_equal_def Let_def)

lemma scan_body_state: "lx_state (snd (scan_body closing k close_trim trim lx)) \<in> {lx_state lx, Ls_Text}"
proof (induction closing k close_trim trim lx rule: scan_body.induct)
  case (1 closing k close_trim trim lx)
  show ?case
    using 1 by (subst scan_body.simps) (auto simp: Let_def emit_def close_body_def)
qed

lemma scan_comment_taken:
  assumes "config_ok c" "lo \<le> lx_tok_start lx" "lx_tok_start lx \<le> lx_pos lx" "lx_pos lx \<le> length (lx_in lx)"
  shows "taken (lx_in lx) (lx_base lx) lo (scan_comment c lx) \<or> ended (lx_in lx) (lx_base lx) lo (scan_comment c lx)"
proof (cases "find_text (ahead lx) (lc_comment_close c)")
  case None
  then show ?thesis using assms by (simp add: scan_comment_def ended_def emit_def)
next
  case (Some e)
  let ?lx1 = "advance (e + length (lc_comment_close c)) (lx\<lparr>lx_state := Ls_Text\<rparr>)"
  have len: "0 < length (lc_comment_close c)" "e + length (lc_comment_close c) \<le> length (lx_in lx) - lx_pos lx"
    using assms(1) find_text_Some [OF Some] by (auto simp: config_ok_def)
  then have p: "lx_pos lx < lx_pos ?lx1" "lx_pos ?lx1 \<le> length (lx_in ?lx1)" using assms(4) by simp_all
  define lx2 where "lx2 = snd (scan_comment c lx)"
  have "lx2 = ?lx1 \<or> lx2 = skip_whitespaces_and_first_newline ?lx1" by (auto simp: lx2_def scan_comment_def Some Let_def)
  then have f: "lx_in lx2 = lx_in ?lx1" "lx_base lx2 = lx_base ?lx1" "lx_pos ?lx1 \<le> lx_pos lx2" "lx_pos lx2 \<le> length (lx_in ?lx1)"
    using skip_first_newline_frame [OF p(2)] p(2) by auto
  have "scan_comment c lx = (make_token Tk_CommentClose ?lx1, lx2)" by (simp add: lx2_def scan_comment_def Some Let_def)
  then show ?thesis using make_token_taken [of lo ?lx1 lx2 Tk_CommentClose] f p assms(2,3) by simp
qed

lemma open_token_taken:
  assumes "starts_with (ahead lx) open_seq" "open_seq \<noteq> []" "lo \<le> lx_tok_start lx" "lx_tok_start lx \<le> lx_pos lx" "lx_pos lx \<le> length (lx_in lx)"
  shows "taken (lx_in lx) (lx_base lx) lo (open_token k body open_seq lx)"
proof -
  let ?lx1 = "advance (length open_seq) (lx\<lparr>lx_state := body\<rparr>)"
  have "0 < length open_seq" "length open_seq \<le> length (lx_in lx) - lx_pos lx" using assms(1,2) by (auto simp: starts_with_def)
  then have "lx_pos lx < lx_pos ?lx1" "lx_pos ?lx1 \<le> length (lx_in ?lx1)" using assms(5) by simp_all
  moreover have "lo < lx_pos ?lx1" using assms(3,4) calculation(1) by linarith
  moreover have "lo \<le> lx_tok_start ?lx1" "lx_tok_start ?lx1 \<le> lx_pos ?lx1" using assms(3,4) by simp_all
  ultimately show ?thesis using emit_taken [of lo ?lx1 k] by (simp add: open_token_def)
qed

lemma scan_tag_taken:
  assumes "config_ok c" "lexer_ok c lx" "lx_tok_start lx \<le> lx_pos lx" "lo = lx_tok_start lx"
    and "opening_of c (lx_state lx) = None \<Longrightarrow> lx_pos lx = lo"
  shows "taken (lx_in lx) (lx_base lx) lo (scan_tag c lx) \<or> ended (lx_in lx) (lx_base lx) lo (scan_tag c lx)"
proof -
  have p: "lx_pos lx \<le> length (lx_in lx)" and o: "opening_of c (lx_state lx) = Some open_seq \<Longrightarrow> starts_with (ahead lx) open_seq" for open_seq
    using assms(2) by (simp_all add: lexer_ok_def)
  have ne: "opening_of c (lx_state lx) = Some open_seq \<Longrightarrow> open_seq \<noteq> []" for open_seq
    using assms(1) by (auto simp: opening_of_def config_ok_def split: lexer_state.splits)
  have open_case: "taken (lx_in lx) (lx_base lx) lo (open_token k body open_seq lx)" if "opening_of c (lx_state lx) = Some open_seq" for k body open_seq
    using open_token_taken [OF o [OF that] ne [OF that]] assms(3,4) p by simp
  have body: "taken (lx_in lx) (lx_base lx) lo (scan_body closing k ct tr lx) \<or> ended (lx_in lx) (lx_base lx) lo (scan_body closing k ct tr lx)"
    if "opening_of c (lx_state lx) = None" "closing \<noteq> []" for closing k ct tr
    using scan_body_taken [of lo lx closing k ct tr] assms(4) assms(5) [OF that(1)] that(2) p by simp
  have close_ne: "lc_expression_close c \<noteq> []" "lc_statement_close c \<noteq> []" using assms(1) by (simp_all add: config_ok_def)
  note d = scan_tag_def opening_of_def
  show ?thesis
  proof (cases "lx_state lx")
    case Ls_Text
    then show ?thesis using assms(3,4) p by (simp add: scan_tag_def ended_def emit_def)
  next
    case Ls_CommentBody
    then show ?thesis using scan_comment_taken [OF assms(1) _ assms(3) p] assms(4) by (simp add: scan_tag_def)
  qed (use open_case body close_ne in \<open>simp_all add: d\<close>)
qed

lemma scan_tag_state: "opening_of c (lx_state (snd (scan_tag c lx))) = None"
proof -
  have "lx_state (snd (scan_tag c lx)) \<in> {Ls_Text, Ls_ExpressionBody, Ls_LineBody, Ls_StatementBody, Ls_CommentBody}"
    using scan_body_state [of "lc_expression_close c" Tk_ExpressionClose "lc_expression_close_force_rstrip c" False lx]
      scan_body_state [of "[CHR 0x0A]" Tk_LineStatementClose "[]" False lx]
      scan_body_state [of "lc_statement_close c" Tk_StatementClose "lc_statement_close_force_rstrip c" "lc_trim_blocks c" lx]
    by (cases "lx_state lx") (auto simp: scan_tag_def open_token_def emit_def scan_comment_def Let_def split: option.split)
  then show ?thesis by (auto simp: opening_of_def)
qed

lemma clear_final_is_prefix:
  "\<exists>n \<le> length t. clear_final_line_if_whitespace t = take n t"
proof -
  have "rev t = takeWhile is_blank (rev t) @ dropWhile is_blank (rev t)" by simp
  then have "t = rev (dropWhile is_blank (rev t)) @ rev (takeWhile is_blank (rev t))" by (metis rev_append rev_rev_ident)
  then have "rev (dropWhile is_blank (rev t)) = take (length (rev (dropWhile is_blank (rev t)))) t" by (metis append_eq_conv_conj)
  moreover have "length (rev (dropWhile is_blank (rev t))) \<le> length t" using length_dropWhile_le [of is_blank "rev t"] by simp
  ultimately show ?thesis unfolding clear_final_line_if_whitespace_def Let_def by (metis order_refl take_all)
qed

lemma scan_text_taken:
  assumes "config_ok c" "lx_state lx = Ls_Text" "lx_pos lx = lx_tok_start lx" "lx_tok_start lx < length (lx_in lx)"
  shows "(taken (lx_in lx) (lx_base lx) (lx_pos lx) (scan_text c lx) \<or> ended (lx_in lx) (lx_base lx) (lx_pos lx) (scan_text c lx))
    \<and> lexer_ok c (snd (scan_text c lx))"
proof (cases "find_open c (lx_in lx) (lx_pos lx)")
  case None
  let ?lx1 = "lx\<lparr>lx_pos := length (lx_in lx)\<rparr>"
  have "taken (lx_in ?lx1) (lx_base ?lx1) (lx_pos lx) (emit Tk_Text ?lx1)" using assms by (intro emit_taken) simp_all
  then show ?thesis using assms(2) by (simp add: scan_text_def None lexer_ok_def opening_of_def emit_def)
next
  case (Some r)
  obtain p st l where r: "r = (p, st, l)" by (cases r) auto
  have f: "lx_pos lx \<le> p" "p < length (lx_in lx)" "opening_at c (lx_in lx) p = Some (st, l)"
    using find_open_found [OF Some [unfolded r]] assms(3,4) by simp_all
  let ?lx1 = "lx\<lparr>lx_state := st, lx_pos := p\<rparr>" and ?whole = "slice (lx_in lx) (lx_tok_start lx) p"
  let ?text = "if l then clear_final_line_if_whitespace ?whole else ?whole"
  obtain open_seq where o: "opening_of c st = Some open_seq" "starts_with (drop p (lx_in lx)) open_seq"
    using opening_at_found [OF f(3)] by blast
  have ok1: "lexer_ok c ?lx1" using f o by (simp add: lexer_ok_def ahead_def)
  show ?thesis
  proof (cases "?text = []")
    case True
    then have e: "scan_text c lx = scan_tag c ?lx1" by (simp add: scan_text_def Some r Let_def)
    have t: "taken (lx_in ?lx1) (lx_base ?lx1) (lx_tok_start lx) (scan_tag c ?lx1) \<or> ended (lx_in ?lx1) (lx_base ?lx1) (lx_tok_start lx) (scan_tag c ?lx1)"
      using scan_tag_taken [OF assms(1) ok1] f(1) assms(3) o(1) by simp
    then have "lx_pos (snd (scan_tag c ?lx1)) \<le> length (lx_in (snd (scan_tag c ?lx1)))" by (auto simp: taken_def ended_def)
    then show ?thesis using t scan_tag_state [of c ?lx1] assms(3) by (simp add: e lexer_ok_def)
  next
    case False
    then have e: "scan_text c lx = (\<lparr>tok_kind = Tk_Text, tok_text = ?text, tok_off = lx_base lx + lx_tok_start lx\<rparr>, ?lx1)"
      by (simp add: scan_text_def Some r Let_def)
    have w: "?whole = take (p - lx_tok_start lx) (drop (lx_tok_start lx) (lx_in lx))" "length ?whole = p - lx_tok_start lx"
      using f assms(3) slice_part [of "lx_tok_start lx" p "lx_in lx"] length_slice [of "lx_tok_start lx" p "lx_in lx"] by simp_all
    obtain n where n: "n \<le> p - lx_tok_start lx" "?text = take n (drop (lx_tok_start lx) (lx_in lx))"
      using clear_final_is_prefix [of ?whole] w by (metis min.absorb1 order_refl take_take)
    have len: "length ?text = n" using n f(2) by simp
    then have "0 < n" using False by auto
    then have "taken (lx_in lx) (lx_base lx) (lx_pos lx) (scan_text c lx)"
      unfolding e taken_def using n len f(2) assms(3) by (intro conjI exI [of _ "lx_tok_start lx"]) (simp_all del: if_split)
    then show ?thesis using ok1 by (simp add: e)
  qed
qed

lemma scan_step:
  assumes "config_ok c" "lexer_ok c lx"
  shows "taken (lx_in lx) (lx_base lx) (lx_pos lx) (scan c lx) \<or> ended (lx_in lx) (lx_base lx) (lx_pos lx) (scan c lx)"
    and "lexer_ok c (snd (scan c lx))"
proof -
  let ?lx = "lx\<lparr>lx_tok_start := lx_pos lx\<rparr>"
  have ok: "lexer_ok c ?lx" using assms(2) by (simp add: lexer_ok_def ahead_def)
  have "(taken (lx_in lx) (lx_base lx) (lx_pos lx) (scan c lx) \<or> ended (lx_in lx) (lx_base lx) (lx_pos lx) (scan c lx))
    \<and> lexer_ok c (snd (scan c lx))"
  proof (cases "length (lx_in lx) \<le> lx_pos lx")
    case True
    then have "scan c lx = (make_token Tk_Eof ?lx, ?lx)" by (simp add: scan_def emit_def Let_def)
    then show ?thesis using assms(2) ok by (simp add: ended_def lexer_ok_def)
  next
    case inside: False
    show ?thesis
    proof (cases "lx_state lx = Ls_Text")
      case True
      then show ?thesis using scan_text_taken [OF assms(1), of ?lx] inside by (simp add: scan_def)
    next
      case False
      then have "scan c lx = scan_tag c ?lx" using inside by (simp add: scan_def)
      moreover have t: "taken (lx_in ?lx) (lx_base ?lx) (lx_pos lx) (scan_tag c ?lx) \<or> ended (lx_in ?lx) (lx_base ?lx) (lx_pos lx) (scan_tag c ?lx)"
        using scan_tag_taken [OF assms(1) ok] by simp
      moreover have "lx_pos (snd (scan_tag c ?lx)) \<le> length (lx_in (snd (scan_tag c ?lx)))" using t by (auto simp: taken_def ended_def)
      ultimately show ?thesis using scan_tag_state [of c ?lx] by (simp add: lexer_ok_def)
    qed
  qed
  then show "taken (lx_in lx) (lx_base lx) (lx_pos lx) (scan c lx) \<or> ended (lx_in lx) (lx_base lx) (lx_pos lx) (scan c lx)"
    and "lexer_ok c (snd (scan c lx))" by blast+
qed

subsection \<open>A source of tokens\<close>

text \<open>The tokens of a source up to the end, with a bound on their number, and whether the end was seen.\<close>

fun tokens :: "('l \<Rightarrow> token \<times> 'l) \<Rightarrow> nat \<Rightarrow> 'l \<Rightarrow> token list \<times> bool" where
  "tokens next_token 0 l = ([], False)"
| "tokens next_token (Suc n) l =
     (let (t, l') = next_token l in
      if tok_kind t = Tk_Eof then ([], True) else let (ts, e) = tokens next_token n l' in (t # ts, e))"

text \<open>What the parser relies on: a source that is asked for tokens comes to its end.\<close>

locale token_source =
  fixes next_token :: "'l \<Rightarrow> token \<times> 'l"
    and left :: "'l \<Rightarrow> nat"
    and invar :: "'l \<Rightarrow> bool"
  assumes invar_kept: "invar l \<Longrightarrow> invar (snd (next_token l))"
    and progress: "invar l \<Longrightarrow> tok_kind (fst (next_token l)) \<noteq> Tk_Eof \<Longrightarrow> left (snd (next_token l)) < left l"
    and left_mono: "invar l \<Longrightarrow> left (snd (next_token l)) \<le> left l"
begin

lemma tokens_end: "invar l \<Longrightarrow> left l < n \<Longrightarrow> snd (tokens next_token n l) \<and> length (fst (tokens next_token n l)) \<le> left l"
proof (induction n arbitrary: l)
  case (Suc n)
  show ?case
  proof (cases "tok_kind (fst (next_token l)) = Tk_Eof")
    case False
    have "left (snd (next_token l)) < left l" using progress [OF Suc.prems(1) False] .
    then show ?thesis using Suc.IH [OF invar_kept [OF Suc.prems(1)]] Suc.prems(2) False
      by (auto simp: split_beta Let_def)
  qed (simp add: split_beta Let_def)
qed simp

end

interpretation inja: token_source "scan c" "\<lambda>lx. length (lx_in lx) - lx_pos lx" "\<lambda>lx. config_ok c \<and> lexer_ok c lx" for c
proof
  fix lx
  assume ok: "config_ok c \<and> lexer_ok c lx"
  note s = scan_step [OF conjunct1 [OF ok] conjunct2 [OF ok]]
  show "config_ok c \<and> lexer_ok c (snd (scan c lx))" using ok s(2) by simp
  show "length (lx_in (snd (scan c lx))) - lx_pos (snd (scan c lx)) < length (lx_in lx) - lx_pos lx"
    if "tok_kind (fst (scan c lx)) \<noteq> Tk_Eof"
    using s(1) that by (auto simp: taken_def ended_def)
  show "length (lx_in (snd (scan c lx))) - lx_pos (snd (scan c lx)) \<le> length (lx_in lx) - lx_pos lx"
    using s(1) by (auto simp: taken_def ended_def)
qed

subsection \<open>The tokens of a template\<close>

text \<open>Tokens that are parts of a template, one behind the other, from \<open>lo\<close> on.\<close>

fun parts_from :: "string \<Rightarrow> nat \<Rightarrow> token list \<Rightarrow> bool" where
  "parts_from template lo [] \<longleftrightarrow> True"
| "parts_from template lo (t # ts) \<longleftrightarrow> lo \<le> tok_off t \<and> tok_off t + length (tok_text t) \<le> length template
     \<and> tok_text t = take (length (tok_text t)) (drop (tok_off t) template)
     \<and> parts_from template (tok_off t + length (tok_text t)) ts"

lemma parts_from_weaken: "parts_from template lo ts \<Longrightarrow> lo' \<le> lo \<Longrightarrow> parts_from template lo' ts"
  by (cases ts) auto

lemma tokens_are_parts:
  assumes "config_ok c" "lexer_ok c lx" "lx_in lx = drop (lx_base lx) template" "lx_base lx \<le> length template"
  shows "parts_from template (lx_base lx + lx_pos lx) (fst (tokens (scan c) n lx))"
  using assms(2-4)
proof (induction n arbitrary: lx)
  case (Suc n)
  let ?r = "scan c lx"
  note s = scan_step [OF assms(1) Suc.prems(1)]
  show ?case
  proof (cases "tok_kind (fst ?r) = Tk_Eof")
    case False
    then have tk: "taken (lx_in lx) (lx_base lx) (lx_pos lx) ?r" using s(1) by (auto simp: ended_def)
    then obtain st where st: "lx_pos lx \<le> st" "tok_off (fst ?r) = lx_base lx + st" "st + length (tok_text (fst ?r)) \<le> lx_pos (snd ?r)"
      "tok_text (fst ?r) = take (length (tok_text (fst ?r))) (drop st (lx_in lx))"
      and f: "lx_in (snd ?r) = lx_in lx" "lx_base (snd ?r) = lx_base lx" "lx_pos (snd ?r) \<le> length (lx_in lx)"
      by (auto simp: taken_def)
    have "parts_from template (lx_base lx + lx_pos (snd ?r)) (fst (tokens (scan c) n (snd ?r)))"
      using Suc.IH [OF s(2)] f Suc.prems(2,3) by simp
    then have "parts_from template (tok_off (fst ?r) + length (tok_text (fst ?r))) (fst (tokens (scan c) n (snd ?r)))"
      by (rule parts_from_weaken) (use st in simp)
    moreover have "tok_off (fst ?r) + length (tok_text (fst ?r)) \<le> length template" using st f(3) Suc.prems(2,3) by simp
    moreover have "tok_text (fst ?r) = take (length (tok_text (fst ?r))) (drop (tok_off (fst ?r)) template)"
      using st(2,4) Suc.prems(2) by (simp add: drop_drop add.commute)
    ultimately show ?thesis using False st(1,2) by (simp add: split_beta Let_def)
  qed (simp add: split_beta Let_def)
qed simp

lemma lexer_start_ok: "lexer_ok c (lexer_start t)" "lx_in (lexer_start t) = drop (lx_base (lexer_start t)) t"
  "lx_base (lexer_start t) \<le> length t" "lx_pos (lexer_start t) = 0"
  by (auto simp: lexer_start_def lexer_ok_def opening_of_def Let_def byte_order_mark_def starts_with_def)

text \<open>C24: a template is lexed to its end, whatever it holds: there are no more tokens than characters, each
  token is the part of the template its offset names, and they follow one another.\<close>

theorem template_lexed:
  assumes "config_ok c" "length template < n"
  shows "let (ts, at_end) = tokens (scan c) n (lexer_start template) in
     at_end \<and> length ts \<le> length template \<and> parts_from template 0 ts"
proof -
  let ?lx = "lexer_start template"
  note ok = lexer_start_ok(1) [of c template] lexer_start_ok(2,3,4) [of template]
  have "snd (tokens (scan c) n ?lx) \<and> length (fst (tokens (scan c) n ?lx)) \<le> length (lx_in ?lx) - lx_pos ?lx"
    by (rule inja.tokens_end) (use assms ok in simp_all)
  moreover have "parts_from template 0 (fst (tokens (scan c) n ?lx))"
    using tokens_are_parts [OF assms(1) ok(1-3), of n] by (rule parts_from_weaken) simp
  ultimately show ?thesis using ok by (auto simp: split_beta Let_def)
qed

theorem template_lexed_witness:
  "map tok_kind (fst (tokens (scan (set_expression ''<<'' ''>>'' default_lexer_config)) 9 (lexer_start ''a<<b>>'')))
     = [Tk_Text, Tk_ExpressionOpen, Tk_Id, Tk_ExpressionClose]
   \<and> parts_from ''a<<b>>'' 0 (fst (tokens (scan (set_expression ''<<'' ''>>'' default_lexer_config)) 9 (lexer_start ''a<<b>>'')))"
proof -
  let ?c = "set_expression ''<<'' ''>>'' default_lexer_config"
  have ok: "config_ok ?c" by (rule config_ok_setters(1) [OF config_ok_default]) simp_all
  have "map tok_kind (fst (tokens (scan ?c) 9 (lexer_start ''a<<b>>''))) = [Tk_Text, Tk_ExpressionOpen, Tk_Id, Tk_ExpressionClose]"
    by code_simp
  moreover have "parts_from ''a<<b>>'' 0 (fst (tokens (scan ?c) 9 (lexer_start ''a<<b>>'')))"
    using template_lexed [OF ok, of "''a<<b>>''" 9] by (simp add: split_beta)
  ultimately show ?thesis by blast
qed

text \<open>A text in which no tag opens is one token, unchanged.\<close>

lemma plain_text_token:
  assumes "find_open c t 0 = None" "\<not> starts_with t byte_order_mark" "t \<noteq> []"
  shows "scan c (lexer_start t) = (\<lparr>tok_kind = Tk_Text, tok_text = t, tok_off = 0\<rparr>, (lexer_start t)\<lparr>lx_pos := length t\<rparr>)"
  using assms by (simp add: scan_def scan_text_def lexer_start_def emit_def make_token_def slice_def Let_def)

end
