(* ===== verification/Inja_Ast.thy ===== *)
theory Inja_Ast
  imports Json Inja_Lexer
begin

text \<open>
  The exceptions, the function table and the syntax tree of the template engine (\<open>src/inja/inja.hpp\<close>:
  \<open>exceptions.hpp\<close>, \<open>function_storage.hpp\<close>, \<open>node.hpp\<close>, \<open>statistics.hpp\<close>, \<open>template.hpp\<close>). The parser
  grows a tree through pointers to its blocks and expression lists: a template holds both in tables, and a
  pointer is an index into them. A callback is named by the number its owner knows it under.
\<close>

subsection \<open>Exceptions\<close>

text \<open>The classes a handler can tell apart; the last is an exception of the JSON or the standard library.\<close>

datatype inja_class = Inja_render | Inja_parser | Inja_file | Inja_data | Inja_other | Not_inja

record inja_error =
  ie_class :: inja_class
  ie_what :: string
  ie_line :: nat
  ie_column :: nat

definition error_type :: "inja_class \<Rightarrow> string" where
  "error_type c = (case c of Inja_parser \<Rightarrow> ''parser_error'' | Inja_render \<Rightarrow> ''render_error'' | Inja_file \<Rightarrow> ''file_error''
     | Inja_data \<Rightarrow> ''data_error'' | _ \<Rightarrow> [])"

definition plain_error :: "inja_class \<Rightarrow> string \<Rightarrow> inja_error" where
  "plain_error c message = \<lparr>ie_class = c, ie_what = ''[inja.exception.'' @ error_type c @ ''] '' @ message, ie_line = 0, ie_column = 0\<rparr>"

definition located_error :: "inja_class \<Rightarrow> string \<Rightarrow> source_location \<Rightarrow> inja_error" where
  "located_error c message loc = \<lparr>ie_class = c,
     ie_what = ''[inja.exception.'' @ error_type c @ ''] (at '' @ dec (sl_line loc) @ '':'' @ dec (sl_column loc) @ '') '' @ message,
     ie_line = sl_line loc, ie_column = sl_column loc\<rparr>"

text \<open>What a run of the engine comes to: a value, an exception, undefined behaviour, or no result within
  the fuel of the model.\<close>

datatype 'a run = R_done 'a | R_raised inja_error | R_undefined | R_fuel

primrec bind_run :: "'a run \<Rightarrow> ('a \<Rightarrow> 'b run) \<Rightarrow> 'b run" where
  "bind_run (R_done a) f = f a"
| "bind_run (R_raised e) f = R_raised e"
| "bind_run R_undefined f = R_undefined"
| "bind_run R_fuel f = R_fuel"

text \<open>What a run ends with: it comes to an end, and a value it returns is as stated.\<close>

primrec returns :: "('a \<Rightarrow> bool) \<Rightarrow> 'a run \<Rightarrow> bool" where
  "returns Q (R_done a) = Q a"
| "returns Q (R_raised e) = True"
| "returns Q R_undefined = True"
| "returns Q R_fuel = False"

lemma returns_bind [simp]: "returns Q (bind_run m f) = returns (\<lambda>a. returns Q (f a)) m"
  by (cases m) auto

lemma returns_mono: "returns P m \<Longrightarrow> (\<And>a. P a \<Longrightarrow> Q a) \<Longrightarrow> returns Q m"
  by (cases m) auto

lemma returns_bindI: "returns P m \<Longrightarrow> (\<And>a. P a \<Longrightarrow> returns Q (f a)) \<Longrightarrow> returns Q (bind_run m f)"
  by (simp add: returns_mono)

lemma returns_True: "returns (\<lambda>_. True) m \<longleftrightarrow> m \<noteq> R_fuel"
  by (cases m) auto

lemma returns_if [simp]: "returns Q (if b then m else m') = (if b then returns Q m else returns Q m')"
  by simp

lemma returns_done: "returns Q m \<Longrightarrow> m = R_done a \<Longrightarrow> Q a"
  by simp

subsection \<open>The libraries under the engine\<close>

text \<open>Floating point numbers are texts; \<open>il_to_int\<close> is the conversion of one to an integer, undefined when
  it does not fit. \<open>il_compare\<close> is the order \<open>operator<=>\<close> of values, which may leave two unordered.\<close>

datatype json_fault = Jf_parse string | Jf_pointer string | Jf_type json | Jf_missing json | Jf_std string

datatype float_op = F_add | F_sub | F_mul | F_div | F_pow

datatype json_order = O_less | O_equal | O_greater

record inja_lib =
  il_parse :: "string \<Rightarrow> json option"
  il_dump :: "json \<Rightarrow> string option"
  il_eq :: "json \<Rightarrow> json \<Rightarrow> bool"
  il_compare :: "json \<Rightarrow> json \<Rightarrow> json_order option"
  il_of_int :: "int \<Rightarrow> string"
  il_to_int :: "string \<Rightarrow> int option"
  il_is_zero :: "string \<Rightarrow> bool"
  il_zero :: string
  il_arith :: "float_op \<Rightarrow> string \<Rightarrow> string \<Rightarrow> string"
  il_round :: "string \<Rightarrow> int \<Rightarrow> string"
  il_stod :: "string \<Rightarrow> string option"
  il_message :: "json_fault \<Rightarrow> string"

definition raise_fault :: "inja_lib \<Rightarrow> json_fault \<Rightarrow> 'a run" where
  "raise_fault L f = R_raised \<lparr>ie_class = Not_inja, ie_what = il_message L f, ie_line = 0, ie_column = 0\<rparr>"

lemma returns_raise_fault [simp]: "returns Q (raise_fault L f)"
  by (simp add: raise_fault_def)

text \<open>A library for the examples: numbers, words and plain strings are literals, and numbers are not broken.\<close>

definition small_parse :: "string \<Rightarrow> json option" where
  "small_parse s =
     (if s = ''true'' then Some (J_bool True) else if s = ''false'' then Some (J_bool False) else if s = ''null'' then Some J_null
      else if 2 \<le> length s \<and> hd s = CHR 0x22 \<and> last s = CHR 0x22 then Some (J_string (butlast (tl s)))
      else if s \<noteq> [] \<and> list_all is_digit s then Some (J_int (int (digits_value s))) else None)"

definition small_lib :: inja_lib where
  "small_lib = \<lparr>il_parse = small_parse,
     il_dump = (\<lambda>j. case j of J_bool b \<Rightarrow> Some (if b then ''true'' else ''false'') | J_int i \<Rightarrow> Some (dec_int i) | _ \<Rightarrow> None),
     il_eq = (=),
     il_compare = (\<lambda>a b. case (a, b) of
       (J_int x, J_int y) \<Rightarrow> Some (if x < y then O_less else if x = y then O_equal else O_greater) | _ \<Rightarrow> None),
     il_of_int = dec_int, il_to_int = (\<lambda>s. if list_all is_digit s then Some (int (digits_value s)) else None),
     il_is_zero = (\<lambda>t. t = ''0''), il_zero = ''0'', il_arith = (\<lambda>_ x _. x), il_round = (\<lambda>x _. x), il_stod = Some,
     il_message = (\<lambda>_. ''json'')\<rparr>"

subsection \<open>Functions\<close>

datatype operation =
    Op_Not | Op_And | Op_Or | Op_In | Op_Equal | Op_NotEqual | Op_Greater | Op_GreaterEqual | Op_Less | Op_LessEqual
  | Op_Add | Op_Subtract | Op_Multiplication | Op_Division | Op_Power | Op_Modulo | Op_AtId | Op_At | Op_Capitalize
  | Op_Default | Op_DivisibleBy | Op_Even | Op_Exists | Op_ExistsInObject | Op_First | Op_Float | Op_Int | Op_IsArray
  | Op_IsBoolean | Op_IsFloat | Op_IsInteger | Op_IsNumber | Op_IsObject | Op_IsString | Op_Last | Op_Length | Op_Lower
  | Op_Max | Op_Min | Op_Odd | Op_Range | Op_Replace | Op_Round | Op_Sort | Op_Upper | Op_Super | Op_Join | Op_Callback | Op_None

type_synonym callback = nat

record function_data =
  fd_operation :: operation
  fd_callback :: "callback option"

type_synonym function_storage = "string \<times> int \<Rightarrow> function_data option"

definition builtin :: "operation \<Rightarrow> function_data" where
  "builtin op = \<lparr>fd_operation = op, fd_callback = None\<rparr>"

definition variadic :: int where
  "variadic = - 1"

definition builtin_functions :: function_storage where
  "builtin_functions = map_of
     [((''at'', 2), builtin Op_At),
      ((''capitalize'', 1), builtin Op_Capitalize),
      ((''default'', 2), builtin Op_Default),
      ((''divisibleBy'', 2), builtin Op_DivisibleBy),
      ((''even'', 1), builtin Op_Even),
      ((''exists'', 1), builtin Op_Exists),
      ((''existsIn'', 2), builtin Op_ExistsInObject),
      ((''first'', 1), builtin Op_First),
      ((''float'', 1), builtin Op_Float),
      ((''int'', 1), builtin Op_Int),
      ((''isArray'', 1), builtin Op_IsArray),
      ((''isBoolean'', 1), builtin Op_IsBoolean),
      ((''isFloat'', 1), builtin Op_IsFloat),
      ((''isInteger'', 1), builtin Op_IsInteger),
      ((''isNumber'', 1), builtin Op_IsNumber),
      ((''isObject'', 1), builtin Op_IsObject),
      ((''isString'', 1), builtin Op_IsString),
      ((''last'', 1), builtin Op_Last),
      ((''length'', 1), builtin Op_Length),
      ((''lower'', 1), builtin Op_Lower),
      ((''max'', 1), builtin Op_Max),
      ((''min'', 1), builtin Op_Min),
      ((''odd'', 1), builtin Op_Odd),
      ((''range'', 1), builtin Op_Range),
      ((''replace'', 3), builtin Op_Replace),
      ((''round'', 2), builtin Op_Round),
      ((''sort'', 1), builtin Op_Sort),
      ((''upper'', 1), builtin Op_Upper),
      ((''super'', 0), builtin Op_Super),
      ((''super'', 1), builtin Op_Super),
      ((''join'', 2), builtin Op_Join)]"

text \<open>\<open>emplace\<close> keeps an entry that is there.\<close>

definition emplace_function :: "string \<times> int \<Rightarrow> function_data \<Rightarrow> function_storage \<Rightarrow> function_storage" where
  "emplace_function key fd fs = (if fs key = None then fs(key \<mapsto> fd) else fs)"

definition add_builtin :: "string \<Rightarrow> int \<Rightarrow> operation \<Rightarrow> function_storage \<Rightarrow> function_storage" where
  "add_builtin name num_args op = emplace_function (name, num_args) (builtin op)"

definition storage_add_callback :: "string \<Rightarrow> int \<Rightarrow> callback \<Rightarrow> function_storage \<Rightarrow> function_storage" where
  "storage_add_callback name num_args cb =
     emplace_function (name, num_args) \<lparr>fd_operation = Op_Callback, fd_callback = Some cb\<rparr>"

definition find_function :: "function_storage \<Rightarrow> string \<Rightarrow> int \<Rightarrow> function_data" where
  "find_function fs name num_args =
     (case fs (name, num_args) of
        Some fd \<Rightarrow> fd
      | None \<Rightarrow>
          if 0 < num_args then (case fs (name, variadic) of Some fd \<Rightarrow> fd | None \<Rightarrow> builtin Op_None)
          else builtin Op_None)"

text \<open>A name that is taken keeps its meaning: registering a callback over a built-in function is ignored.\<close>

lemma add_callback_keeps: "fs (name, n) \<noteq> None \<Longrightarrow> find_function (storage_add_callback name n cb fs) m k = find_function fs m k"
  by (auto simp: storage_add_callback_def emplace_function_def)

lemma add_callback_found:
  "fs (name, n) = None \<Longrightarrow> find_function (storage_add_callback name n cb fs) name n = \<lparr>fd_operation = Op_Callback, fd_callback = Some cb\<rparr>"
  by (simp add: find_function_def storage_add_callback_def emplace_function_def)

subsection \<open>Expressions\<close>

datatype expr =
    X_literal json nat
  | X_data string json_pointer nat
  | X_function operation string "expr list" "callback option" nat

function convert_dot_to_ptr :: "string \<Rightarrow> string" where
  "convert_dot_to_ptr ptr_name =
     (let (part, rest) = split_at ptr_name (CHR ''.'') in
      CHR ''/'' # part @ (if rest = [] then [] else convert_dot_to_ptr rest))"
  by pat_completeness auto
termination
  by (relation "measure length") (auto simp: split_at_def Let_def split: if_splits)

declare convert_dot_to_ptr.simps [simp del]

definition data_node :: "inja_lib \<Rightarrow> string \<Rightarrow> nat \<Rightarrow> expr run" where
  "data_node L ptr_name pos =
     (case json_pointer (convert_dot_to_ptr ptr_name) of
        Some ptr \<Rightarrow> R_done (X_data ptr_name ptr pos)
      | None \<Rightarrow> raise_fault L (Jf_pointer (convert_dot_to_ptr ptr_name)))"

definition literal_node :: "inja_lib \<Rightarrow> string \<Rightarrow> nat \<Rightarrow> expr run" where
  "literal_node L data_text pos =
     (case il_parse L data_text of Some v \<Rightarrow> R_done (X_literal v pos) | None \<Rightarrow> raise_fault L (Jf_parse data_text))"

lemma returns_node [simp]: "returns (\<lambda>_. True) (data_node L name pos)" "returns (\<lambda>_. True) (literal_node L t pos)"
  by (simp_all add: data_node_def literal_node_def split: option.split)

text \<open>The constructor of an operator: how many arguments it takes, and how it binds.\<close>

datatype associativity = Assoc_Left | Assoc_Right

record binding_data =
  od_number_args :: nat
  od_precedence :: nat
  od_associativity :: associativity

definition operator_data :: "operation \<Rightarrow> binding_data" where
  "operator_data op =
     (let left = (\<lambda>n p. \<lparr>od_number_args = n, od_precedence = p, od_associativity = Assoc_Left\<rparr>) in
      case op of
        Op_Not \<Rightarrow> left 1 4
      | Op_And \<Rightarrow> left 2 1
      | Op_Or \<Rightarrow> left 2 1
      | Op_In \<Rightarrow> left 2 2
      | Op_Equal \<Rightarrow> left 2 2
      | Op_NotEqual \<Rightarrow> left 2 2
      | Op_Greater \<Rightarrow> left 2 2
      | Op_GreaterEqual \<Rightarrow> left 2 2
      | Op_Less \<Rightarrow> left 2 2
      | Op_LessEqual \<Rightarrow> left 2 2
      | Op_Add \<Rightarrow> left 2 3
      | Op_Subtract \<Rightarrow> left 2 3
      | Op_Multiplication \<Rightarrow> left 2 4
      | Op_Division \<Rightarrow> left 2 4
      | Op_Power \<Rightarrow> \<lparr>od_number_args = 2, od_precedence = 5, od_associativity = Assoc_Right\<rparr>
      | Op_Modulo \<Rightarrow> left 2 4
      | Op_AtId \<Rightarrow> left 2 8
      | _ \<Rightarrow> left 1 1)"

subsection \<open>Statements and templates\<close>

text \<open>The numbers are, in this order: the index of the expression list, those of the blocks, and the position.\<close>

datatype node =
    N_text nat nat
  | N_expression nat nat
  | N_for_array string nat nat nat
  | N_for_object string string nat nat nat
  | N_if nat nat nat nat
  | N_include string nat
  | N_extends string nat
  | N_block string nat nat
  | N_set string nat nat

text \<open>\<open>tp_has_false\<close> lists the second blocks of the \<open>if\<close> statements for which an \<open>else\<close> was met.\<close>

record template =
  tp_content :: string
  tp_blocks :: "node list list"
  tp_exprs :: "expr option list"
  tp_has_false :: "nat list"
  tp_block_storage :: "string \<Rightarrow> nat option"

type_synonym template_storage = "string \<Rightarrow> template option"

definition new_template :: "string \<Rightarrow> template" where
  "new_template content = \<lparr>tp_content = content, tp_blocks = [[]], tp_exprs = [], tp_has_false = [], tp_block_storage = Map.empty\<rparr>"

definition add_node :: "nat \<Rightarrow> node \<Rightarrow> template \<Rightarrow> template" where
  "add_node b nd t = t\<lparr>tp_blocks := (tp_blocks t)[b := tp_blocks t ! b @ [nd]]\<rparr>"

definition new_block :: "template \<Rightarrow> template" where
  "new_block t = t\<lparr>tp_blocks := tp_blocks t @ [[]]\<rparr>"

definition new_expr :: "template \<Rightarrow> template" where
  "new_expr t = t\<lparr>tp_exprs := tp_exprs t @ [None]\<rparr>"

definition set_root :: "nat \<Rightarrow> expr option \<Rightarrow> template \<Rightarrow> template" where
  "set_root i e t = t\<lparr>tp_exprs := (tp_exprs t)[i := e]\<rparr>"

text \<open>The number of variables: of the blocks that are nested at most \<open>n\<close> deep. A list without an expression
  is a null pointer that is followed.\<close>

fun count_expr :: "expr \<Rightarrow> nat" where
  "count_expr (X_data _ _ _) = 1"
| "count_expr (X_function _ _ args _ _) = sum_list (map count_expr args)"
| "count_expr (X_literal _ _) = 0"

definition count_list :: "template \<Rightarrow> nat \<Rightarrow> nat run" where
  "count_list t i = (case tp_exprs t ! i of Some e \<Rightarrow> R_done (count_expr e) | None \<Rightarrow> R_undefined)"

fun sum_runs :: "nat run list \<Rightarrow> nat run" where
  "sum_runs [] = R_done 0"
| "sum_runs (m # ms) = bind_run m (\<lambda>a. bind_run (sum_runs ms) (\<lambda>b. R_done (a + b)))"

fun count_block :: "template \<Rightarrow> nat \<Rightarrow> nat \<Rightarrow> nat run" where
  "count_block t 0 b = R_fuel"
| "count_block t (Suc n) b = sum_runs (map (\<lambda>nd. case nd of
      N_expression i _ \<Rightarrow> count_list t i
    | N_for_array _ i body _ \<Rightarrow> sum_runs [count_list t i, count_block t n body]
    | N_for_object _ _ i body _ \<Rightarrow> sum_runs [count_list t i, count_block t n body]
    | N_if i tb fb _ \<Rightarrow> sum_runs [count_list t i, count_block t n tb, count_block t n fb]
    | N_block _ bb _ \<Rightarrow> count_block t n bb
    | _ \<Rightarrow> R_done 0) (tp_blocks t ! b))"

definition count_variables :: "template \<Rightarrow> nat run" where
  "count_variables t = count_block t (length (tp_blocks t)) 0"

end
