(* ===== verification/Inja_Parser.thy ===== *)
theory Inja_Parser
  imports Inja_Ast
begin

text \<open>
  The parser of the template engine (\<open>src/inja/inja.hpp\<close>: \<open>parser.hpp\<close>): expressions with their stack of
  operators, statements with the stacks of what they open, and the templates they include. Files and the
  include callback are fields of the environment. The stack of arguments is kept with its back first.
\<close>

subsection \<open>The state\<close>

record parser_env =
  pe_lib :: inja_lib
  pe_functions :: function_storage
  pe_lexer_config :: lexer_config
  pe_search_files :: bool
  pe_include_callback :: "(string \<Rightarrow> string \<Rightarrow> inja_error + template) option"
  pe_open :: "string \<Rightarrow> string option"

text \<open>What the stacks keep of an \<open>if\<close> statement; of a loop and of a block they keep the parent.\<close>

record open_if =
  if_false :: nat
  if_parent :: nat
  if_nested :: bool

record parse_state =
  ps_lexer :: lexer
  ps_tok :: token
  ps_peek :: "token option"
  ps_literal_start :: nat
  ps_tmpl :: template
  ps_block :: nat
  ps_list :: nat
  ps_ifs :: "open_if list"
  ps_fors :: "nat list"
  ps_open_blocks :: "nat list"
  ps_storage :: template_storage

definition parser_error :: "string \<Rightarrow> parse_state \<Rightarrow> 'a run" where
  "parser_error message st = R_raised (located_error Inja_parser message (current_position (ps_lexer st)))"

definition unexpected :: "string \<Rightarrow> parse_state \<Rightarrow> 'a run" where
  "unexpected expected st = parser_error (expected @ '', got '' @ CHR 0x27 # describe (ps_tok st) @ [CHR 0x27]) st"

definition get_next_token :: "parser_env \<Rightarrow> parse_state \<Rightarrow> parse_state" where
  "get_next_token E st =
     (case ps_peek st of
        Some t \<Rightarrow> st\<lparr>ps_tok := t, ps_peek := None\<rparr>
      | None \<Rightarrow> let (t, lx) = scan (pe_lexer_config E) (ps_lexer st) in st\<lparr>ps_tok := t, ps_lexer := lx\<rparr>)"

definition get_peek_token :: "parser_env \<Rightarrow> parse_state \<Rightarrow> parse_state" where
  "get_peek_token E st =
     (case ps_peek st of
        Some t \<Rightarrow> st
      | None \<Rightarrow> let (t, lx) = scan (pe_lexer_config E) (ps_lexer st) in st\<lparr>ps_peek := Some t, ps_lexer := lx\<rparr>)"

abbreviation kind :: "parse_state \<Rightarrow> token_kind" where
  "kind st \<equiv> tok_kind (ps_tok st)"

abbreviation text_of :: "parse_state \<Rightarrow> string" where
  "text_of st \<equiv> tok_text (ps_tok st)"

abbreviation pos_of :: "parse_state \<Rightarrow> nat" where
  "pos_of st \<equiv> tok_off (ps_tok st)"

definition peek_is :: "token_kind \<Rightarrow> parse_state \<Rightarrow> bool" where
  "peek_is k st \<longleftrightarrow> (case ps_peek st of Some t \<Rightarrow> tok_kind t = k | None \<Rightarrow> False)"

subsection \<open>Expressions\<close>

text \<open>The local variables of the loop over an expression.\<close>

record expr_state =
  xs_bracket :: nat
  xs_brace :: nat
  xs_arguments :: "expr list"
  xs_operators :: "(operation \<times> nat) list"

definition expr_start :: expr_state where
  "expr_start = \<lparr>xs_bracket = 0, xs_brace = 0, xs_arguments = [], xs_operators = []\<rparr>"

definition outside :: "expr_state \<Rightarrow> bool" where
  "outside xs \<longleftrightarrow> xs_brace xs = 0 \<and> xs_bracket xs = 0"

definition push_argument :: "expr \<Rightarrow> expr_state \<Rightarrow> expr_state" where
  "push_argument e xs = xs\<lparr>xs_arguments := e # xs_arguments xs\<rparr>"

text \<open>The text of a literal goes from where it started to the end of the token.\<close>

definition add_literal :: "parser_env \<Rightarrow> expr_state \<Rightarrow> parse_state \<Rightarrow> expr_state run" where
  "add_literal E xs st =
     bind_run (literal_node (pe_lib E)
         (take (pos_of st + length (text_of st) - ps_literal_start st) (drop (ps_literal_start st) (tp_content (ps_tmpl st))))
         (ps_literal_start st))
       (\<lambda>e. R_done (push_argument e xs))"

definition start_literal :: "expr_state \<Rightarrow> parse_state \<Rightarrow> parse_state" where
  "start_literal xs st = (if outside xs then st\<lparr>ps_literal_start := pos_of st\<rparr> else st)"

definition whole_literal :: "parser_env \<Rightarrow> expr_state \<Rightarrow> parse_state \<Rightarrow> (expr_state \<times> parse_state) run" where
  "whole_literal E xs st =
     (if outside xs then (let st1 = start_literal xs st in bind_run (add_literal E xs st1) (\<lambda>xs1. R_done (xs1, st1)))
      else R_done (xs, st))"

definition end_literal :: "parser_env \<Rightarrow> expr_state \<Rightarrow> parse_state \<Rightarrow> (expr_state \<times> parse_state) run" where
  "end_literal E xs st =
     (if outside xs then bind_run (add_literal E xs st) (\<lambda>xs1. R_done (xs1, st)) else R_done (xs, st))"

text \<open>The operators on top of the stack that are applied first.\<close>

fun add_operators ::
  "parse_state \<Rightarrow> (operation \<Rightarrow> bool) \<Rightarrow> expr list \<Rightarrow> (operation \<times> nat) list \<Rightarrow> (expr list \<times> (operation \<times> nat) list) run" where
  "add_operators st first args [] = R_done (args, [])"
| "add_operators st first args ((op, pos) # ops) =
     (if \<not> first op then R_done (args, (op, pos) # ops)
      else let n = od_number_args (operator_data op) in
        if length args < n then parser_error ''too few arguments'' st
        else add_operators st first (X_function op [] (rev (take n args)) None pos # drop n args) ops)"

definition token_operation :: "token \<Rightarrow> operation option" where
  "token_operation t =
     (case tok_kind t of
        Tk_Id \<Rightarrow>
          (if tok_text t = ''and'' then Some Op_And else if tok_text t = ''or'' then Some Op_Or
           else if tok_text t = ''in'' then Some Op_In else if tok_text t = ''not'' then Some Op_Not else None)
      | Tk_Equal \<Rightarrow> Some Op_Equal
      | Tk_NotEqual \<Rightarrow> Some Op_NotEqual
      | Tk_GreaterThan \<Rightarrow> Some Op_Greater
      | Tk_GreaterEqual \<Rightarrow> Some Op_GreaterEqual
      | Tk_LessThan \<Rightarrow> Some Op_Less
      | Tk_LessEqual \<Rightarrow> Some Op_LessEqual
      | Tk_Plus \<Rightarrow> Some Op_Add
      | Tk_Minus \<Rightarrow> Some Op_Subtract
      | Tk_Times \<Rightarrow> Some Op_Multiplication
      | Tk_Slash \<Rightarrow> Some Op_Division
      | Tk_Power \<Rightarrow> Some Op_Power
      | Tk_Percent \<Rightarrow> Some Op_Modulo
      | Tk_Dot \<Rightarrow> Some Op_AtId
      | _ \<Rightarrow> None)"

definition binds_first :: "operation \<Rightarrow> operation \<Rightarrow> bool" where
  "binds_first op on_top \<longleftrightarrow> od_precedence (operator_data op) < od_precedence (operator_data on_top)
     \<or> (od_precedence (operator_data on_top) = od_precedence (operator_data op) \<and> od_associativity (operator_data op) = Assoc_Left)"

definition push_operator :: "operation \<Rightarrow> expr_state \<Rightarrow> parse_state \<Rightarrow> (expr_state \<times> parse_state) run" where
  "push_operator op xs st =
     bind_run (add_operators st (binds_first op) (xs_arguments xs) (xs_operators xs))
       (\<lambda>(args, ops). R_done (xs\<lparr>xs_arguments := args, xs_operators := (op, pos_of st) # ops\<rparr>, st))"

definition finish_expr :: "expr_state \<Rightarrow> parse_state \<Rightarrow> (expr option \<times> parse_state) run" where
  "finish_expr xs st =
     bind_run (add_operators st (\<lambda>_. True) (xs_arguments xs) (xs_operators xs))
       (\<lambda>(args, _). case args of
          [] \<Rightarrow> R_done (None, st)
        | [e] \<Rightarrow> R_done (Some e, st)
        | _ \<Rightarrow> parser_error ''malformed expression'' st)"

definition expect_right_paren :: "parse_state \<Rightarrow> unit run" where
  "expect_right_paren st = (if kind st = Tk_RightParen then R_done () else unexpected ''expected right parenthesis'' st)"

definition is_word_operator :: "token \<Rightarrow> bool" where
  "is_word_operator t \<longleftrightarrow> tok_text t = ''and'' \<or> tok_text t = ''or'' \<or> tok_text t = ''in'' \<or> tok_text t = ''not''"

definition is_word_literal :: "token \<Rightarrow> bool" where
  "is_word_literal t \<longleftrightarrow> tok_text t = ''true'' \<or> tok_text t = ''false'' \<or> tok_text t = ''null''"

text \<open>The call of a function with its arguments.\<close>

definition make_call :: "parser_env \<Rightarrow> string \<Rightarrow> nat \<Rightarrow> expr list \<Rightarrow> parse_state \<Rightarrow> expr run" where
  "make_call E name pos args st =
     (let fd = find_function (pe_functions E) name (int (length args)) in
      if fd_operation fd = Op_None then parser_error (''unknown function '' @ name) st
      else R_done (X_function (fd_operation fd) name args (if fd_operation fd = Op_Callback then fd_callback fd else None) pos))"

text \<open>The tokens that need no further token but the one that is peeked; \<open>None\<close> leaves the loop.\<close>

definition token_step :: "parser_env \<Rightarrow> expr_state \<Rightarrow> parse_state \<Rightarrow> (expr_state \<times> parse_state) option run" where
  "token_step E xs st =
     (let go = (\<lambda>m. bind_run m (\<lambda>r. R_done (Some r))) in
      case kind st of
        Tk_String \<Rightarrow> go (whole_literal E xs st)
      | Tk_Number \<Rightarrow> go (whole_literal E xs st)
      | Tk_LeftBracket \<Rightarrow> R_done (Some (xs\<lparr>xs_bracket := xs_bracket xs + 1\<rparr>, start_literal xs st))
      | Tk_LeftBrace \<Rightarrow> R_done (Some (xs\<lparr>xs_brace := xs_brace xs + 1\<rparr>, start_literal xs st))
      | Tk_RightBracket \<Rightarrow>
          if xs_bracket xs = 0 then parser_error (''unexpected '' @ [CHR 0x27, CHR '']'', CHR 0x27]) st
          else go (end_literal E (xs\<lparr>xs_bracket := xs_bracket xs - 1\<rparr>) st)
      | Tk_RightBrace \<Rightarrow>
          if xs_brace xs = 0 then parser_error (''unexpected '' @ [CHR 0x27, CHR ''}'', CHR 0x27]) st
          else go (end_literal E (xs\<lparr>xs_brace := xs_brace xs - 1\<rparr>) st)
      | Tk_Id \<Rightarrow>
          if is_word_literal (ps_tok st) then go (whole_literal E xs st)
          else if is_word_operator (ps_tok st) then
            (case token_operation (ps_tok st) of
               Some op \<Rightarrow> go (push_operator op xs st)
             | None \<Rightarrow> parser_error ''unknown operator in parser.'' st)
          else go (bind_run (data_node (pe_lib E) (text_of st) (pos_of st)) (\<lambda>e. R_done (push_argument e xs, st)))
      | Tk_Comma \<Rightarrow> R_done (if outside xs then None else Some (xs, st))
      | Tk_Colon \<Rightarrow>
          if outside xs then parser_error (''unexpected '' @ [CHR 0x27, CHR '':'', CHR 0x27]) st else R_done (Some (xs, st))
      | _ \<Rightarrow> (case token_operation (ps_tok st) of Some op \<Rightarrow> go (push_operator op xs st) | None \<Rightarrow> R_done None))"

text \<open>The loop, the arguments of a call, and an expression, which is \<open>None\<close> when there is none. The pipe
  takes the last argument, and there is no check that there is one.\<close>

fun parse_loop :: "nat \<Rightarrow> parser_env \<Rightarrow> expr_state \<Rightarrow> parse_state \<Rightarrow> (expr_state \<times> parse_state) run"
  and parse_args :: "nat \<Rightarrow> parser_env \<Rightarrow> expr list \<Rightarrow> parse_state \<Rightarrow> (expr list \<times> parse_state) run"
  and parse_expression :: "nat \<Rightarrow> parser_env \<Rightarrow> parse_state \<Rightarrow> (expr option \<times> parse_state) run" where
  "parse_loop 0 E xs st = R_fuel"
| "parse_loop (Suc n) E xs st =
     (if kind st = Tk_Eof then R_done (xs, st)
      else if kind st = Tk_LeftParen then
        bind_run (parse_expression n E (get_next_token E st)) (\<lambda>(e, st1).
          bind_run (expect_right_paren st1) (\<lambda>_.
            case e of
              None \<Rightarrow> parser_error ''empty expression in parentheses'' st1
            | Some x \<Rightarrow> parse_loop n E (push_argument x xs) (get_next_token E st1)))
      else if kind st = Tk_Pipe then
        (let st1 = get_next_token E st in
         if kind st1 \<noteq> Tk_Id then unexpected ''expected function name'' st1
         else case xs_arguments xs of
           [] \<Rightarrow> R_undefined
         | x # rest \<Rightarrow>
             let xs1 = xs\<lparr>xs_arguments := rest\<rparr>; st2 = get_peek_token E st1 in
             bind_run (if peek_is Tk_LeftParen st2
                       then bind_run (parse_args n E [x] (get_next_token E st2)) (\<lambda>(args, st3).
                              bind_run (expect_right_paren st3) (\<lambda>_. R_done (args, st3)))
                       else R_done ([x], st2))
               (\<lambda>(args, st3).
                  bind_run (make_call E (text_of st1) (pos_of st1) args st3) (\<lambda>f.
                    parse_loop n E (push_argument f xs1) (get_next_token E st3))))
      else
        let st1 = (if kind st = Tk_Id then get_peek_token E st else st) in
        if kind st = Tk_Id \<and> \<not> is_word_literal (ps_tok st) \<and> \<not> is_word_operator (ps_tok st) \<and> peek_is Tk_LeftParen st1 then
          bind_run (parse_args n E [] (get_next_token E st1)) (\<lambda>(args, st2).
            bind_run (expect_right_paren st2) (\<lambda>_.
              bind_run (make_call E (text_of st) (pos_of st) args st2) (\<lambda>f.
                parse_loop n E (push_argument f xs) (get_next_token E st2))))
        else
          bind_run (token_step E xs st1) (\<lambda>r.
            case r of None \<Rightarrow> R_done (xs, st1) | Some (xs1, st2) \<Rightarrow> parse_loop n E xs1 (get_next_token E st2)))"
| "parse_args 0 E args st = R_fuel"
| "parse_args (Suc n) E args st =
     bind_run (parse_expression n E (get_next_token E st)) (\<lambda>(e, st1).
       case e of
         None \<Rightarrow> R_done (args, st1)
       | Some x \<Rightarrow> if kind st1 = Tk_Comma then parse_args n E (args @ [x]) st1 else R_done (args @ [x], st1))"
| "parse_expression 0 E st = R_fuel"
| "parse_expression (Suc n) E st = bind_run (parse_loop n E expr_start st) (\<lambda>(xs, st1). finish_expr xs st1)"

text \<open>Fuel for every expression of a template: two units for each token.\<close>

definition expr_fuel :: "parse_state \<Rightarrow> nat" where
  "expr_fuel st = 2 * length (tp_content (ps_tmpl st)) + 6"

text \<open>The expression becomes the root of the current list; the result is whether it ends as it should.\<close>

definition parse_root :: "parser_env \<Rightarrow> token_kind \<Rightarrow> parse_state \<Rightarrow> (bool \<times> parse_state) run" where
  "parse_root E closing st =
     bind_run (parse_expression (expr_fuel st) E st) (\<lambda>(e, st1).
       R_done (kind st1 = closing, st1\<lparr>ps_tmpl := set_root (ps_list st1) e (ps_tmpl st1)\<rparr>))"

subsection \<open>Paths\<close>

text \<open>\<open>path / name\<close>, and the parent of a path.\<close>

definition append_path :: "string \<Rightarrow> string \<Rightarrow> string" where
  "append_path path name =
     (if starts_with name ''/'' then name
      else if path = [] \<or> last path = CHR ''/'' then path @ name
      else path @ ''/'' @ name)"

definition parent_path :: "string \<Rightarrow> string" where
  "parent_path path =
     (let up = dropWhile (\<lambda>c. c \<noteq> CHR ''/'') (rev path); parent = rev (dropWhile (\<lambda>c. c = CHR ''/'') up) in
      if up \<noteq> [] \<and> parent = [] then ''/'' else parent)"

subsection \<open>Included templates\<close>

text \<open>\<open>sub\<close> parses a template that was loaded, with the table that already has an entry for it. The name
  a template goes by is the second part of the result.\<close>

type_synonym sub_parser = "template_storage \<Rightarrow> template \<Rightarrow> string \<Rightarrow> (template \<times> template_storage) run"

definition try_callback :: "parser_env \<Rightarrow> string \<Rightarrow> string \<Rightarrow> string \<Rightarrow> template_storage \<Rightarrow> (template_storage \<times> string) run" where
  "try_callback E path original_name template_name storage =
     (case pe_include_callback E of
        None \<Rightarrow> R_done (storage, template_name)
      | Some include_callback \<Rightarrow>
          (case include_callback path original_name of
             Inl e \<Rightarrow> R_raised e
           | Inr t \<Rightarrow> R_done (if storage template_name = None then storage(template_name \<mapsto> t) else storage, template_name)))"

definition add_to_template_storage ::
  "parser_env \<Rightarrow> sub_parser \<Rightarrow> string \<Rightarrow> string \<Rightarrow> template_storage \<Rightarrow> (template_storage \<times> string) run" where
  "add_to_template_storage E sub path original_name storage =
     (if storage original_name \<noteq> None then R_done (storage, original_name)
      else if \<not> pe_search_files E then try_callback E path original_name original_name storage
      else
        let joined = append_path path original_name;
            template_name = (if starts_with joined ''./'' then drop 2 joined else joined)
        in if storage template_name \<noteq> None then try_callback E path original_name template_name storage
           else case pe_open E template_name of
             Some text \<Rightarrow>
               bind_run (sub (storage(template_name \<mapsto> new_template text)) (new_template text) template_name)
                 (\<lambda>(t, storage1). R_done (storage1(template_name \<mapsto> t), template_name))
           | None \<Rightarrow>
               if pe_include_callback E = None
               then R_raised (plain_error Inja_file (''failed accessing file at '' @ CHR 0x27 # template_name @ [CHR 0x27]))
               else try_callback E path original_name template_name storage)"

definition parse_filename :: "parse_state \<Rightarrow> string run" where
  "parse_filename st =
     (if kind st \<noteq> Tk_String then unexpected ''expected string'' st
      else if length (text_of st) < 2 then parser_error (''expected filename, got '' @ CHR 0x27 # text_of st @ [CHR 0x27]) st
      else R_done (take (length (text_of st) - 2) (drop 1 (text_of st))))"

subsection \<open>Statements\<close>

definition edit_tmpl :: "(template \<Rightarrow> template) \<Rightarrow> parse_state \<Rightarrow> parse_state" where
  "edit_tmpl f st = st\<lparr>ps_tmpl := f (ps_tmpl st)\<rparr>"

text \<open>A new \<open>if\<close> statement, \<open>for\<close> statement, block or assignment at the end of the current block.\<close>

definition open_if_node :: "bool \<Rightarrow> parse_state \<Rightarrow> parse_state" where
  "open_if_node nested st =
     (let i = length (tp_exprs (ps_tmpl st)); tb = length (tp_blocks (ps_tmpl st)); fb = tb + 1 in
      (edit_tmpl (add_node (ps_block st) (N_if i tb fb (pos_of st)) \<circ> new_block \<circ> new_block \<circ> new_expr) st)
        \<lparr>ps_ifs := \<lparr>if_false = fb, if_parent = ps_block st, if_nested = nested\<rparr> # ps_ifs st, ps_block := tb, ps_list := i\<rparr>)"

definition open_for_node :: "(nat \<Rightarrow> nat \<Rightarrow> nat \<Rightarrow> node) \<Rightarrow> parse_state \<Rightarrow> parse_state" where
  "open_for_node mk st =
     (let i = length (tp_exprs (ps_tmpl st)); b = length (tp_blocks (ps_tmpl st)) in
      (edit_tmpl (add_node (ps_block st) (mk i b (pos_of st)) \<circ> new_block \<circ> new_expr) st)
        \<lparr>ps_fors := ps_block st # ps_fors st, ps_block := b, ps_list := i\<rparr>)"

definition open_block_node :: "string \<Rightarrow> parse_state \<Rightarrow> parse_state" where
  "open_block_node name st =
     (let b = length (tp_blocks (ps_tmpl st)) in
      (edit_tmpl (add_node (ps_block st) (N_block name b (pos_of st)) \<circ> new_block) st)
        \<lparr>ps_open_blocks := ps_block st # ps_open_blocks st, ps_block := b\<rparr>)"

definition open_list_node :: "(nat \<Rightarrow> nat \<Rightarrow> node) \<Rightarrow> parse_state \<Rightarrow> parse_state" where
  "open_list_node mk st =
     (let i = length (tp_exprs (ps_tmpl st)) in
      (edit_tmpl (add_node (ps_block st) (mk i (pos_of st)) \<circ> new_expr) st)\<lparr>ps_list := i\<rparr>)"

definition word_is :: "string \<Rightarrow> parse_state \<Rightarrow> bool" where
  "word_is w st \<longleftrightarrow> kind st = Tk_Id \<and> text_of st = w"

definition parse_if :: "parser_env \<Rightarrow> token_kind \<Rightarrow> bool \<Rightarrow> parse_state \<Rightarrow> (bool \<times> parse_state) run" where
  "parse_if E closing nested st = parse_root E closing (open_if_node nested (get_next_token E st))"

definition parse_else :: "parser_env \<Rightarrow> token_kind \<Rightarrow> parse_state \<Rightarrow> (bool \<times> parse_state) run" where
  "parse_else E closing st =
     (case ps_ifs st of
        [] \<Rightarrow> parser_error ''else without matching if'' st
      | d # _ \<Rightarrow>
          let st1 = (edit_tmpl (\<lambda>t. t\<lparr>tp_has_false := if_false d # tp_has_false t\<rparr>) (get_next_token E st))\<lparr>ps_block := if_false d\<rparr>
          in if word_is ''if'' st1 then parse_if E closing True st1 else R_done (True, st1))"

definition parse_endif :: "parser_env \<Rightarrow> parse_state \<Rightarrow> (bool \<times> parse_state) run" where
  "parse_endif E st =
     (if ps_ifs st = [] then parser_error ''endif without matching if'' st
      else case dropWhile if_nested (ps_ifs st) of
        [] \<Rightarrow> R_undefined
      | d # rest \<Rightarrow> R_done (True, (get_next_token E st)\<lparr>ps_block := if_parent d, ps_ifs := rest\<rparr>))"

definition parse_block :: "parser_env \<Rightarrow> parse_state \<Rightarrow> (bool \<times> parse_state) run" where
  "parse_block E st0 =
     (let st = get_next_token E st0; block_name = text_of st; st1 = open_block_node block_name st in
      if kind st \<noteq> Tk_Id then unexpected ''expected block name'' st
      else if tp_block_storage (ps_tmpl st1) block_name \<noteq> None
      then parser_error (''block with the name '' @ CHR 0x27 # block_name @ CHR 0x27 # '' does already exist'') st1
      else R_done (True, get_next_token E
             (edit_tmpl (\<lambda>t. t\<lparr>tp_block_storage := (tp_block_storage t)(block_name \<mapsto> ps_block st1)\<rparr>) st1)))"

definition parse_endblock :: "parser_env \<Rightarrow> parse_state \<Rightarrow> (bool \<times> parse_state) run" where
  "parse_endblock E st =
     (case ps_open_blocks st of
        [] \<Rightarrow> parser_error ''endblock without matching block'' st
      | parent # rest \<Rightarrow> R_done (True, (get_next_token E st)\<lparr>ps_block := parent, ps_open_blocks := rest\<rparr>))"

definition parse_for_in :: "parser_env \<Rightarrow> token_kind \<Rightarrow> (nat \<Rightarrow> nat \<Rightarrow> nat \<Rightarrow> node) \<Rightarrow> parse_state \<Rightarrow> (bool \<times> parse_state) run" where
  "parse_for_in E closing mk st0 =
     (let st = open_for_node mk st0 in
      if \<not> word_is ''in'' st then unexpected (''expected '' @ [CHR 0x27] @ ''in'' @ [CHR 0x27]) st
      else parse_root E closing (get_next_token E st))"

definition parse_for :: "parser_env \<Rightarrow> token_kind \<Rightarrow> parse_state \<Rightarrow> (bool \<times> parse_state) run" where
  "parse_for E closing st0 =
     (let st = get_next_token E st0; name = text_of st; st1 = get_next_token E st in
      if kind st \<noteq> Tk_Id then unexpected ''expected id'' st
      else if kind st1 = Tk_Comma then
        (let st2 = get_next_token E st1 in
         if kind st2 \<noteq> Tk_Id then unexpected ''expected id'' st2
         else parse_for_in E closing (N_for_object name (text_of st2)) (get_next_token E st2))
      else parse_for_in E closing (N_for_array name) st1)"

definition parse_endfor :: "parser_env \<Rightarrow> parse_state \<Rightarrow> (bool \<times> parse_state) run" where
  "parse_endfor E st =
     (case ps_fors st of
        [] \<Rightarrow> parser_error ''endfor without matching for'' st
      | parent # rest \<Rightarrow> R_done (True, (get_next_token E st)\<lparr>ps_block := parent, ps_fors := rest\<rparr>))"

text \<open>\<open>include\<close> and \<open>extends\<close>.\<close>

definition parse_use ::
  "parser_env \<Rightarrow> sub_parser \<Rightarrow> string \<Rightarrow> (string \<Rightarrow> nat \<Rightarrow> node) \<Rightarrow> parse_state \<Rightarrow> (bool \<times> parse_state) run" where
  "parse_use E sub path mk st0 =
     (let st = get_next_token E st0 in
      bind_run (parse_filename st) (\<lambda>file.
        bind_run (add_to_template_storage E sub path file (ps_storage st)) (\<lambda>(storage, name).
          R_done (True, get_next_token E (edit_tmpl (add_node (ps_block st) (mk name (pos_of st))) (st\<lparr>ps_storage := storage\<rparr>))))))"

definition parse_set :: "parser_env \<Rightarrow> token_kind \<Rightarrow> parse_state \<Rightarrow> (bool \<times> parse_state) run" where
  "parse_set E closing st0 =
     (let st = get_next_token E st0; st1 = open_list_node (N_set (text_of st)) (get_next_token E st) in
      if kind st \<noteq> Tk_Id then unexpected ''expected variable name'' st
      else if text_of st1 \<noteq> ''='' then unexpected (''expected '' @ [CHR 0x27, CHR ''='', CHR 0x27]) st1
      else parse_root E closing (get_next_token E st1))"

definition parse_inja_statement :: "parser_env \<Rightarrow> sub_parser \<Rightarrow> string \<Rightarrow> token_kind \<Rightarrow> parse_state \<Rightarrow> (bool \<times> parse_state) run" where
  "parse_inja_statement E sub path closing st =
     (let w = text_of st in
      if kind st \<noteq> Tk_Id then R_done (False, st)
      else if w = ''if'' then parse_if E closing False st
      else if w = ''else'' then parse_else E closing st
      else if w = ''endif'' then parse_endif E st
      else if w = ''block'' then parse_block E st
      else if w = ''endblock'' then parse_endblock E st
      else if w = ''for'' then parse_for E closing st
      else if w = ''endfor'' then parse_endfor E st
      else if w = ''include'' then parse_use E sub path N_include st
      else if w = ''extends'' then parse_use E sub path N_extends st
      else if w = ''set'' then parse_set E closing st
      else R_done (False, st))"

subsection \<open>Templates\<close>

definition parse_tag ::
  "parser_env \<Rightarrow> sub_parser \<Rightarrow> string \<Rightarrow> token_kind \<Rightarrow> token_kind list \<Rightarrow> string \<Rightarrow> parse_state \<Rightarrow> parse_state run" where
  "parse_tag E sub path closing ends expected st =
     bind_run (parse_inja_statement E sub path closing (get_next_token E st)) (\<lambda>(ok, st1).
       if \<not> ok then unexpected ''expected statement'' st1
       else if kind st1 \<notin> set ends then unexpected expected st1
       else R_done st1)"

definition parse_part :: "parser_env \<Rightarrow> sub_parser \<Rightarrow> string \<Rightarrow> parse_state \<Rightarrow> parse_state run" where
  "parse_part E sub path st =
     (case kind st of
        Tk_Text \<Rightarrow> R_done (edit_tmpl (add_node (ps_block st) (N_text (pos_of st) (length (text_of st)))) st)
      | Tk_StatementOpen \<Rightarrow> parse_tag E sub path Tk_StatementClose [Tk_StatementClose] ''expected statement close'' st
      | Tk_LineStatementOpen \<Rightarrow>
          parse_tag E sub path Tk_LineStatementClose [Tk_LineStatementClose, Tk_Eof] ''expected line statement close'' st
      | Tk_ExpressionOpen \<Rightarrow>
          bind_run (parse_root E Tk_ExpressionClose (open_list_node N_expression (get_next_token E st)))
            (\<lambda>(ok, st1). if ok then R_done st1 else unexpected ''expected expression close'' st1)
      | Tk_CommentOpen \<Rightarrow>
          (let st1 = get_next_token E st in
           if kind st1 = Tk_CommentClose then R_done st1 else unexpected ''expected comment close'' st1)
      | _ \<Rightarrow> parser_error (''unexpected token '' @ CHR 0x27 # describe (ps_tok st) @ [CHR 0x27]) st)"

fun parse_parts :: "nat \<Rightarrow> parser_env \<Rightarrow> sub_parser \<Rightarrow> string \<Rightarrow> parse_state \<Rightarrow> parse_state run" where
  "parse_parts 0 E sub path st0 = R_fuel"
| "parse_parts (Suc n) E sub path st0 =
     (let st = get_next_token E st0 in
      if kind st = Tk_Eof then
        (if ps_ifs st \<noteq> [] then parser_error ''unmatched if'' st
         else if ps_fors st \<noteq> [] then parser_error ''unmatched for'' st
         else R_done st)
      else bind_run (parse_part E sub path st) (parse_parts n E sub path))"

definition parse_start :: "template_storage \<Rightarrow> template \<Rightarrow> parse_state" where
  "parse_start storage t = \<lparr>ps_lexer = lexer_start (tp_content t), ps_tok = \<lparr>tok_kind = Tk_Unknown, tok_text = [], tok_off = 0\<rparr>,
     ps_peek = None, ps_literal_start = 0, ps_tmpl = t, ps_block = 0, ps_list = 0, ps_ifs = [], ps_fors = [],
     ps_open_blocks = [], ps_storage = storage\<rparr>"

text \<open>The first argument bounds how deep templates include each other; a template has no more parts than characters.\<close>

fun parse_into :: "nat \<Rightarrow> parser_env \<Rightarrow> string \<Rightarrow> template_storage \<Rightarrow> template \<Rightarrow> (template \<times> template_storage) run" where
  "parse_into 0 E path storage t = R_fuel"
| "parse_into (Suc d) E path storage t =
     bind_run (parse_parts (length (tp_content t) + 2) E (\<lambda>s u name. parse_into d E (parent_path name) s u) path
         (parse_start storage t))
       (\<lambda>st. R_done (ps_tmpl st, ps_storage st))"

definition parse_into_template :: "nat \<Rightarrow> parser_env \<Rightarrow> string \<Rightarrow> template_storage \<Rightarrow> template \<Rightarrow> (template \<times> template_storage) run" where
  "parse_into_template d E filename storage t = parse_into d E (parent_path filename) storage t"

definition parse_template_text :: "nat \<Rightarrow> parser_env \<Rightarrow> string \<Rightarrow> string \<Rightarrow> template_storage \<Rightarrow> (template \<times> template_storage) run" where
  "parse_template_text d E input path storage = parse_into d E path storage (new_template input)"

definition load_file :: "parser_env \<Rightarrow> string \<Rightarrow> string run" where
  "load_file E filename =
     (case pe_open E filename of
        Some text \<Rightarrow> R_done text
      | None \<Rightarrow> R_raised (plain_error Inja_file (''failed accessing file at '' @ CHR 0x27 # filename @ [CHR 0x27])))"

subsection \<open>Tokens are used up\<close>

text \<open>A state of a parser whose tokens are parts of its template, and what it has left to read.\<close>

definition token_ok :: "nat \<Rightarrow> token \<Rightarrow> bool" where
  "token_ok len t \<longleftrightarrow> tok_kind t \<noteq> Tk_Eof \<longrightarrow> tok_off t + length (tok_text t) \<le> len"

definition reads_ok :: "parser_env \<Rightarrow> parse_state \<Rightarrow> bool" where
  "reads_ok E st \<longleftrightarrow> config_ok (pe_lexer_config E) \<and> lexer_ok (pe_lexer_config E) (ps_lexer st)
     \<and> lx_base (ps_lexer st) + length (lx_in (ps_lexer st)) \<le> length (tp_content (ps_tmpl st))
     \<and> token_ok (length (tp_content (ps_tmpl st))) (ps_tok st)
     \<and> (case ps_peek st of Some t \<Rightarrow> token_ok (length (tp_content (ps_tmpl st))) t | None \<Rightarrow> True)"

definition to_read :: "lexer \<Rightarrow> nat" where
  "to_read lx = length (lx_in lx) - lx_pos lx"

definition pending :: "parse_state \<Rightarrow> nat" where
  "pending st = to_read (ps_lexer st) + (case ps_peek st of Some t \<Rightarrow> (if tok_kind t = Tk_Eof then 0 else 1) | None \<Rightarrow> 0)"

definition unread :: "parse_state \<Rightarrow> nat" where
  "unread st = pending st + (if kind st = Tk_Eof then 0 else 1)"

text \<open>What reading a token, or an expression, leaves alone.\<close>

definition kept :: "parse_state \<Rightarrow> template \<times> nat \<times> nat \<times> open_if list \<times> nat list \<times> nat list \<times> template_storage" where
  "kept st = (ps_tmpl st, ps_block st, ps_list st, ps_ifs st, ps_fors st, ps_open_blocks st, ps_storage st)"

definition read_on :: "parser_env \<Rightarrow> parse_state \<Rightarrow> parse_state \<Rightarrow> bool" where
  "read_on E st st' \<longleftrightarrow> reads_ok E st' \<and> unread st' \<le> unread st \<and> pending st' \<le> pending st \<and> kept st' = kept st"

lemma read_on_refl: "reads_ok E st \<Longrightarrow> read_on E st st"
  by (simp add: read_on_def)

lemma read_on_trans: "read_on E st st' \<Longrightarrow> read_on E st' st'' \<Longrightarrow> read_on E st st''"
  by (simp add: read_on_def)

lemma read_on_ok: "read_on E st st' \<Longrightarrow> reads_ok E st'"
  by (simp add: read_on_def)

lemma scan_read:
  assumes "config_ok c" "lexer_ok c lx" "scan c lx = (t, lx')"
  shows "lexer_ok c lx'" "lx_in lx' = lx_in lx" "lx_base lx' = lx_base lx"
    "to_read lx' + (if tok_kind t = Tk_Eof then 0 else 1) \<le> to_read lx" "token_ok (lx_base lx + length (lx_in lx)) t"
  using scan_step [OF assms(1,2)] assms(3) by (auto simp: to_read_def taken_def ended_def token_ok_def)

lemma token_ok_mono: "token_ok n t \<Longrightarrow> n \<le> m \<Longrightarrow> token_ok m t"
  by (auto simp: token_ok_def)

lemma get_next_read:
  assumes "reads_ok E st"
  shows "read_on E st (get_next_token E st)" "kind st \<noteq> Tk_Eof \<Longrightarrow> unread (get_next_token E st) < unread st"
    "kind (get_next_token E st) \<noteq> Tk_Eof \<Longrightarrow> pending (get_next_token E st) < pending st"
proof -
  obtain t lx where s: "scan (pe_lexer_config E) (ps_lexer st) = (t, lx)" by fastforce
  have c: "config_ok (pe_lexer_config E)" "lexer_ok (pe_lexer_config E) (ps_lexer st)" using assms by (simp_all add: reads_ok_def)
  note f = scan_read [OF c s]
  show "read_on E st (get_next_token E st)" "kind st \<noteq> Tk_Eof \<Longrightarrow> unread (get_next_token E st) < unread st"
    "kind (get_next_token E st) \<noteq> Tk_Eof \<Longrightarrow> pending (get_next_token E st) < pending st"
    using assms f token_ok_mono [OF f(5), of "length (tp_content (ps_tmpl st))"]
    by (auto simp: get_next_token_def read_on_def reads_ok_def unread_def pending_def kept_def s split: option.split)
qed

lemma get_peek_read:
  assumes "reads_ok E st"
  shows "read_on E st (get_peek_token E st)" "ps_tok (get_peek_token E st) = ps_tok st"
proof -
  obtain t lx where s: "scan (pe_lexer_config E) (ps_lexer st) = (t, lx)" by fastforce
  have c: "config_ok (pe_lexer_config E)" "lexer_ok (pe_lexer_config E) (ps_lexer st)" using assms by (simp_all add: reads_ok_def)
  note f = scan_read [OF c s]
  show "read_on E st (get_peek_token E st)" "ps_tok (get_peek_token E st) = ps_tok st"
    using assms f token_ok_mono [OF f(5), of "length (tp_content (ps_tmpl st))"]
    by (auto simp: get_peek_token_def read_on_def reads_ok_def unread_def pending_def kept_def s split: option.split)
qed

lemma literal_start_read [simp]:
  "reads_ok E (st\<lparr>ps_literal_start := k\<rparr>) = reads_ok E st" "unread (st\<lparr>ps_literal_start := k\<rparr>) = unread st"
  "pending (st\<lparr>ps_literal_start := k\<rparr>) = pending st" "kept (st\<lparr>ps_literal_start := k\<rparr>) = kept st"
  by (simp_all add: reads_ok_def unread_def pending_def kept_def split: option.split)

lemma returns_error [simp]: "returns Q (parser_error m st)" "returns Q (unexpected m st)"
  by (simp_all add: parser_error_def unexpected_def)

lemma add_operators_returns [simp]: "returns (\<lambda>_. True) (add_operators st first args ops)"
  by (induction st first args ops rule: add_operators.induct) (auto simp: Let_def)

lemma expect_right_paren_returns [simp]: "returns Q (expect_right_paren st) = (kind st = Tk_RightParen \<longrightarrow> Q ())"
  by (simp add: expect_right_paren_def)

lemma make_call_returns [simp]: "returns (\<lambda>_. True) (make_call E name pos args st)"
  by (simp add: make_call_def Let_def)

lemma finish_expr_returns: "returns (\<lambda>(e, st'). st' = st) (finish_expr xs st)"
  by (auto simp: finish_expr_def intro!: returns_mono [OF add_operators_returns] split: list.split)

text \<open>A token that is no function changes at most where a literal starts.\<close>

abbreviation same_place :: "parse_state \<Rightarrow> parse_state \<Rightarrow> bool" where
  "same_place st st' \<equiv> (\<exists>k. st' = st\<lparr>ps_literal_start := k\<rparr>)"

lemma same_place_refl [simp]: "same_place st st"
  by (rule exI [of _ "ps_literal_start st"]) simp

lemma start_literal_place [simp]: "same_place st (start_literal xs st)"
  by (auto simp: start_literal_def intro: exI [of _ "ps_literal_start st"])

lemma add_literal_returns [simp]: "returns (\<lambda>_. True) (add_literal E xs st)"
  by (simp add: add_literal_def)

lemma literal_returns:
  "returns (\<lambda>(xs', st'). same_place st st') (whole_literal E xs st)" "returns (\<lambda>(xs', st'). same_place st st') (end_literal E xs st)"
  by (auto simp: whole_literal_def end_literal_def Let_def intro!: returns_mono [OF add_literal_returns])

lemma push_operator_returns: "returns (\<lambda>(xs', st'). same_place st st') (push_operator op xs st)"
  by (auto simp: push_operator_def intro!: returns_mono [OF add_operators_returns])

lemma token_step_returns: "returns (\<lambda>r. case r of None \<Rightarrow> True | Some (xs', st') \<Rightarrow> same_place st st') (token_step E xs st)"
proof -
  have go: "returns (\<lambda>(xs', st'). same_place st st') m \<Longrightarrow>
      returns (\<lambda>r. case r of None \<Rightarrow> True | Some (xs', st') \<Rightarrow> same_place st st') (bind_run m (\<lambda>r. R_done (Some r)))" for m
    by (auto elim: returns_mono)
  have d: "returns (\<lambda>(xs', st'). same_place st st') (bind_run (data_node L t p) (\<lambda>e. R_done (push_argument e xs, st)))" for L t p
    by (auto intro!: returns_mono [OF returns_node(1)])
  note rules = go [OF literal_returns(1)] go [OF push_operator_returns] go [OF d]
  have e: "returns (\<lambda>r. case r of None \<Rightarrow> True | Some (xs', st') \<Rightarrow> same_place st st') (bind_run (end_literal E ys st) (\<lambda>r. R_done (Some r)))" for ys
    by (rule go [OF literal_returns(2)])
  show ?thesis
    unfolding token_step_def Let_def
    by (cases "kind st") (simp_all add: rules e del: returns_bind split: option.split)
qed

lemma peeked_kind: "peek_is k st \<Longrightarrow> kind (get_next_token E st) = k"
  by (auto simp: peek_is_def get_next_token_def split: option.splits)

text \<open>Read, and at least one token.\<close>

definition read_more :: "parser_env \<Rightarrow> parse_state \<Rightarrow> parse_state \<Rightarrow> bool" where
  "read_more E st st' \<longleftrightarrow> read_on E st st' \<and> unread st' < unread st"

lemma read_more_on: "read_more E st st' \<Longrightarrow> read_on E st st'"
  by (simp add: read_more_def)

lemma read_more_next:
  "read_on E st st' \<Longrightarrow> unread st' < unread st \<or> kind st' \<noteq> Tk_Eof \<Longrightarrow> read_more E st (get_next_token E st')"
  using get_next_read [of E st'] by (auto simp: read_more_def read_on_def)

lemma read_more_trans: "read_more E st st' \<Longrightarrow> read_on E st' st'' \<Longrightarrow> read_more E st st''"
  by (simp add: read_more_def read_on_def)

lemma parse_reads:
  "\<And>xs st. reads_ok E st \<Longrightarrow> 2 * unread st < n \<Longrightarrow> returns (\<lambda>(_, st'). read_on E st st') (parse_loop n E xs st)"
  "\<And>args st. reads_ok E st \<Longrightarrow> kind st \<noteq> Tk_Eof \<Longrightarrow> 2 * unread st < n \<Longrightarrow> returns (\<lambda>(_, st'). read_on E st st') (parse_args n E args st)"
  "\<And>st. reads_ok E st \<Longrightarrow> 2 * unread st + 1 < n \<Longrightarrow> returns (\<lambda>(_, st'). read_on E st st') (parse_expression n E st)"
proof (induction n)
  case (Suc n)
  text \<open>What follows in a state that has read on.\<close>
  have loop: "returns (\<lambda>(_, s'). read_on E st s') (parse_loop n E xs s)" if "read_more E st s" "2 * unread st \<le> n" for st s xs
  proof -
    have "returns (\<lambda>(_, s'). read_on E s s') (parse_loop n E xs s)"
      using that by (intro Suc.IH(1)) (auto simp: read_more_def read_on_def)
    then show ?thesis by (rule returns_mono) (use read_on_trans [OF read_more_on [OF that(1)]] in auto)
  qed
  have args: "returns (\<lambda>(_, s'). read_more E st s') (parse_args n E as s)"
    if "read_more E st s" "kind s \<noteq> Tk_Eof" "2 * unread st \<le> n" for st s as
  proof -
    have "returns (\<lambda>(_, s'). read_on E s s') (parse_args n E as s)"
      using that by (intro Suc.IH(2)) (auto simp: read_more_def read_on_def)
    then show ?thesis by (rule returns_mono) (use read_more_trans [OF that(1)] in auto)
  qed
  have ex: "returns (\<lambda>(_, s'). read_more E st s') (parse_expression n E s)" if "read_more E st s" "2 * unread st \<le> n" for st s
  proof -
    have "returns (\<lambda>(_, s'). read_on E s s') (parse_expression n E s)"
      using that by (intro Suc.IH(3)) (auto simp: read_more_def read_on_def)
    then show ?thesis by (rule returns_mono) (use read_more_trans [OF that(1)] in auto)
  qed
  have next_more: "read_more E st (get_next_token E s)" if "read_more E st s" for st s
    using read_more_next [of E st s] that by (simp add: read_more_def)
  {
    case (1 xs st)
    note ok = 1(1) and n = 1(2)
    have n': "2 * unread st \<le> n" using n by simp
    note refl = read_on_refl [OF ok]
    have call: "returns (\<lambda>(_, s'). read_on E st s') (bind_run (make_call E nm pos as s) (\<lambda>f. parse_loop n E (push_argument f ys) (get_next_token E s)))"
      if "read_more E st s" for nm pos as s ys
      using loop [OF next_more [OF that] n'] by (auto intro!: returns_mono [OF make_call_returns])
    show ?case
    proof (cases "kind st = Tk_Eof")
      case True
      then show ?thesis using refl by simp
    next
      case not_end: False
      have next1: "read_more E st (get_next_token E st)" using read_more_next [OF refl] not_end by simp
      consider "kind st = Tk_LeftParen" | "kind st = Tk_Pipe" | "kind st \<noteq> Tk_LeftParen" "kind st \<noteq> Tk_Pipe" by blast
      then show ?thesis
      proof cases
        case 1
        show ?thesis
          using 1 not_end loop [OF next_more n']
          by (auto intro!: returns_mono [OF ex [OF next1 n']] split: option.split)
      next
        case 2
        let ?s1 = "get_next_token E st" and ?s2 = "get_peek_token E (get_next_token E st)"
        have ok1: "reads_ok E ?s1" using next1 by (simp add: read_more_def read_on_def)
        have s2: "read_more E st ?s2" using get_peek_read(1) [OF ok1] next1 by (rule read_more_trans [rotated])
        let ?piped = "\<lambda>x. if peek_is Tk_LeftParen ?s2
            then bind_run (parse_args n E [x] (get_next_token E ?s2)) (\<lambda>(as, st3). bind_run (expect_right_paren st3) (\<lambda>_. R_done (as, st3)))
            else R_done ([x], ?s2)"
        have "returns (\<lambda>(_, s'). read_more E st s') (?piped x)" for x
          using s2 by (auto simp: peeked_kind intro!: returns_mono [OF args [OF next_more [OF s2] _ n']])
        then have "returns (\<lambda>(_, s'). read_on E st s') (bind_run (?piped x) (\<lambda>(as, st3).
            bind_run (make_call E (text_of ?s1) (pos_of ?s1) as st3) (\<lambda>f. parse_loop n E (push_argument f ys) (get_next_token E st3))))" for x ys
          by (rule returns_bindI) (use call in \<open>auto simp del: returns_bind\<close>)
        then show ?thesis
          using 2 not_end by (simp add: Let_def del: returns_if returns_bind split: list.split)
      next
        case 3
        let ?s1 = "if kind st = Tk_Id then get_peek_token E st else st"
        have s1: "read_on E st ?s1" "kind ?s1 \<noteq> Tk_Eof" using get_peek_read [OF ok] refl not_end by auto
        have place: "read_more E st (get_next_token E s)" if "same_place ?s1 s" for s
          using that s1 read_more_next [of E st s] by (auto simp: read_on_def)
        have step: "returns (\<lambda>(_, s'). read_on E st s') (bind_run (token_step E xs ?s1) (\<lambda>r.
            case r of None \<Rightarrow> R_done (xs, ?s1) | Some (xs1, st2) \<Rightarrow> parse_loop n E xs1 (get_next_token E st2)))"
          using loop [OF place n'] s1(1) by (auto intro!: returns_mono [OF token_step_returns] split: option.split)
        have fn: "returns (\<lambda>(_, s'). read_on E st s') (bind_run (parse_args n E [] (get_next_token E ?s1)) (\<lambda>(as, st2).
            bind_run (expect_right_paren st2) (\<lambda>_. bind_run (make_call E (text_of st) (pos_of st) as st2) (\<lambda>f.
              parse_loop n E (push_argument f xs) (get_next_token E st2)))))" if "peek_is Tk_LeftParen ?s1"
        proof -
          have "kind (get_next_token E ?s1) \<noteq> Tk_Eof" using peeked_kind [OF that, of E] by simp
          from args [OF read_more_next [OF s1(1) disjI2 [OF s1(2)]] this n'] show ?thesis
            by (rule returns_bindI) (use call in auto)
        qed
        show ?thesis
        proof (cases "kind st = Tk_Id")
          case True
          then show ?thesis using step fn by (simp add: Let_def del: returns_bind cong: option.case_cong)
        next
          case False
          then show ?thesis using 3 not_end step by (simp add: Let_def del: returns_bind cong: option.case_cong)
        qed
      qed
    qed
  next
    case (2 args st)
    have n': "2 * unread st \<le> n" using 2 by simp
    have next1: "read_more E st (get_next_token E st)" using read_more_next [OF read_on_refl [OF 2(1)]] 2(2) by simp
    have "returns (\<lambda>(_, s'). read_on E st s') (parse_args n E as s)" if "read_more E st s" "kind s = Tk_Comma" for as s
      using args [OF that(1) _ n'] that(2) by (auto intro: returns_mono simp: read_more_def)
    then show ?case
      by (auto intro!: returns_mono [OF ex [OF next1 n']] simp: read_more_def split: option.split)
  next
    case (3 st)
    have "returns (\<lambda>(_, s'). read_on E st s') (parse_loop n E expr_start st)" using 3 by (intro Suc.IH(1)) simp_all
    then show ?case by (auto intro!: returns_mono [OF finish_expr_returns] elim!: returns_mono)
  }
qed simp_all

subsection \<open>Templates are well-formed\<close>

text \<open>A node of block \<open>b\<close> names expression lists that there are, blocks behind its own, and a text inside
  the template.\<close>

fun node_ok :: "nat \<Rightarrow> nat \<Rightarrow> nat \<Rightarrow> nat \<Rightarrow> node \<Rightarrow> bool" where
  "node_ok chars blocks exprs b (N_text pos len) \<longleftrightarrow> pos + len \<le> chars"
| "node_ok chars blocks exprs b (N_expression i _) \<longleftrightarrow> i < exprs"
| "node_ok chars blocks exprs b (N_for_array _ i c _) \<longleftrightarrow> i < exprs \<and> b < c \<and> c < blocks"
| "node_ok chars blocks exprs b (N_for_object _ _ i c _) \<longleftrightarrow> i < exprs \<and> b < c \<and> c < blocks"
| "node_ok chars blocks exprs b (N_if i c d _) \<longleftrightarrow> i < exprs \<and> b < c \<and> c < blocks \<and> b < d \<and> d < blocks"
| "node_ok chars blocks exprs b (N_block _ c _) \<longleftrightarrow> b < c \<and> c < blocks"
| "node_ok chars blocks exprs b (N_set _ i _) \<longleftrightarrow> i < exprs"
| "node_ok chars blocks exprs b _ \<longleftrightarrow> True"

definition template_ok :: "template \<Rightarrow> bool" where
  "template_ok t \<longleftrightarrow> tp_blocks t \<noteq> []
     \<and> (\<forall>b < length (tp_blocks t). \<forall>nd \<in> set (tp_blocks t ! b).
          node_ok (length (tp_content t)) (length (tp_blocks t)) (length (tp_exprs t)) b nd)
     \<and> (\<forall>n b. tp_block_storage t n = Some b \<longrightarrow> b < length (tp_blocks t))"

lemma node_ok_Suc: "node_ok n k x b nd \<Longrightarrow> node_ok n (Suc k) x b nd" "node_ok n k x b nd \<Longrightarrow> node_ok n k (Suc x) b nd"
  by (cases nd; auto)+

lemma new_template_ok: "template_ok (new_template content)"
  by (simp add: template_ok_def new_template_def)

lemma new_block_ok: "template_ok t \<Longrightarrow> template_ok (new_block t)"
  by (auto simp: template_ok_def new_block_def nth_append less_Suc_eq intro: node_ok_Suc)

lemma new_expr_ok: "template_ok t \<Longrightarrow> template_ok (new_expr t)"
  by (auto simp: template_ok_def new_expr_def intro: node_ok_Suc)

lemma add_node_ok:
  "template_ok t \<Longrightarrow> b < length (tp_blocks t) \<Longrightarrow> node_ok (length (tp_content t)) (length (tp_blocks t)) (length (tp_exprs t)) b nd \<Longrightarrow>
    template_ok (add_node b nd t)"
  by (auto simp: template_ok_def add_node_def nth_list_update)

lemma template_edit_simps [simp]:
  "tp_content (add_node b nd t) = tp_content t" "tp_content (new_block t) = tp_content t" "tp_content (new_expr t) = tp_content t"
  "tp_content (set_root i e t) = tp_content t"
  "length (tp_blocks (add_node b nd t)) = length (tp_blocks t)" "length (tp_blocks (new_block t)) = Suc (length (tp_blocks t))"
  "tp_blocks (new_expr t) = tp_blocks t" "tp_blocks (set_root i e t) = tp_blocks t"
  "tp_exprs (add_node b nd t) = tp_exprs t" "tp_exprs (new_block t) = tp_exprs t"
  "length (tp_exprs (new_expr t)) = Suc (length (tp_exprs t))" "length (tp_exprs (set_root i e t)) = length (tp_exprs t)"
  by (simp_all add: add_node_def new_block_def new_expr_def set_root_def)

lemma set_root_ok: "template_ok t \<Longrightarrow> template_ok (set_root i e t)"
  by (auto simp: template_ok_def set_root_def)

lemma has_false_ok: "template_ok (t\<lparr>tp_has_false := fs\<rparr>) = template_ok t"
  by (simp add: template_ok_def)

lemma block_storage_ok: "template_ok t \<Longrightarrow> b < length (tp_blocks t) \<Longrightarrow> template_ok (t\<lparr>tp_block_storage := (tp_block_storage t)(n \<mapsto> b)\<rparr>)"
  by (auto simp: template_ok_def)

text \<open>The stacks name blocks that there are.\<close>

definition state_ok :: "parser_env \<Rightarrow> parse_state \<Rightarrow> bool" where
  "state_ok E st \<longleftrightarrow> reads_ok E st \<and> template_ok (ps_tmpl st)
     \<and> (let k = length (tp_blocks (ps_tmpl st)) in
        ps_block st < k \<and> (\<forall>d \<in> set (ps_ifs st). if_false d < k \<and> if_parent d < k)
        \<and> (\<forall>b \<in> set (ps_fors st). b < k) \<and> (\<forall>b \<in> set (ps_open_blocks st). b < k))"

definition moves :: "parser_env \<Rightarrow> parse_state \<Rightarrow> parse_state \<Rightarrow> bool" where
  "moves E st st' \<longleftrightarrow> state_ok E st' \<and> pending st' \<le> pending st \<and> tp_content (ps_tmpl st') = tp_content (ps_tmpl st)"

lemma moves_trans: "moves E st st' \<Longrightarrow> moves E st' st'' \<Longrightarrow> moves E st st''"
  by (simp add: moves_def)

lemma moves_ok: "moves E st st' \<Longrightarrow> state_ok E st'"
  by (simp add: moves_def)

lemma moves_refl: "state_ok E st \<Longrightarrow> moves E st st"
  by (simp add: moves_def)

lemma read_on_moves: "state_ok E st \<Longrightarrow> read_on E st st' \<Longrightarrow> moves E st st'"
  by (simp add: moves_def state_ok_def read_on_def kept_def)

lemma next_moves: "state_ok E st \<Longrightarrow> moves E st (get_next_token E st)"
  by (rule read_on_moves) (auto simp: state_ok_def intro: get_next_read)

lemma next_moves_on: "moves E st st' \<Longrightarrow> moves E st (get_next_token E st')"
  using moves_trans [OF _ next_moves] moves_ok by blast

lemma pending_simps [simp]:
  "pending (st\<lparr>ps_tmpl := t\<rparr>) = pending st" "pending (st\<lparr>ps_block := b\<rparr>) = pending st" "pending (st\<lparr>ps_list := i\<rparr>) = pending st"
  "pending (st\<lparr>ps_ifs := is\<rparr>) = pending st" "pending (st\<lparr>ps_fors := fs\<rparr>) = pending st" "pending (st\<lparr>ps_open_blocks := bs\<rparr>) = pending st"
  "pending (st\<lparr>ps_storage := sto\<rparr>) = pending st"
  by (simp_all add: pending_def)

lemma reads_ok_edit:
  "tp_content t = tp_content (ps_tmpl st) \<Longrightarrow> reads_ok E (st\<lparr>ps_tmpl := t\<rparr>) = reads_ok E st"
  "reads_ok E (st\<lparr>ps_block := b\<rparr>) = reads_ok E st" "reads_ok E (st\<lparr>ps_list := i\<rparr>) = reads_ok E st"
  "reads_ok E (st\<lparr>ps_ifs := is\<rparr>) = reads_ok E st" "reads_ok E (st\<lparr>ps_fors := fs\<rparr>) = reads_ok E st"
  "reads_ok E (st\<lparr>ps_open_blocks := bs\<rparr>) = reads_ok E st" "reads_ok E (st\<lparr>ps_storage := sto\<rparr>) = reads_ok E st"
  by (simp_all add: reads_ok_def split: option.split)

lemmas edit_simps = moves_def state_ok_def edit_tmpl_def Let_def reads_ok_edit

lemma parse_root_moves:
  assumes "state_ok E st"
  shows "returns (\<lambda>(_, st'). moves E st st') (parse_root E closing st)"
proof -
  have ok: "reads_ok E st" using assms by (simp add: state_ok_def)
  have "pending st \<le> length (tp_content (ps_tmpl st)) + 1"
    using ok by (auto simp: reads_ok_def pending_def to_read_def split: option.splits)
  then have "2 * unread st + 1 < expr_fuel st" by (simp add: unread_def expr_fuel_def)
  from parse_reads(3) [OF ok this] show ?thesis
    unfolding parse_root_def
  proof (rule returns_bindI)
    fix r :: "expr option \<times> parse_state"
    assume "case r of (_, st') \<Rightarrow> read_on E st st'"
    then have "moves E st (snd r)" using read_on_moves [OF assms] by (cases r) simp
    then show "returns (\<lambda>(_, st'). moves E st st')
        (case r of (e, st1) \<Rightarrow> R_done (kind st1 = closing, st1\<lparr>ps_tmpl := set_root (ps_list st1) e (ps_tmpl st1)\<rparr>))"
      by (cases r) (simp add: edit_simps set_root_ok)
  qed
qed

lemma open_nodes_move:
  assumes "state_ok E st"
  shows "moves E st (open_if_node nested st)" "moves E st (open_block_node name st)"
    "ps_block (open_block_node name st) < length (tp_blocks (ps_tmpl (open_block_node name st)))"
    "(\<And>n k x c i b pos. node_ok n k x c (mk3 i b pos) = (i < x \<and> c < b \<and> b < k)) \<Longrightarrow> moves E st (open_for_node mk3 st)"
    "(\<And>n k x c i pos. node_ok n k x c (mk2 i pos) = (i < x)) \<Longrightarrow> moves E st (open_list_node mk2 st)"
  using assms
  by (auto simp: edit_simps open_if_node_def open_block_node_def open_for_node_def open_list_node_def
      intro!: add_node_ok new_block_ok new_expr_ok)

subsection \<open>Every template is parsed\<close>

text \<open>The included templates come to an end too, or there are none.\<close>

definition sub_ends :: "parser_env \<Rightarrow> sub_parser \<Rightarrow> bool" where
  "sub_ends E sub \<longleftrightarrow> (\<forall>name s t. pe_open E name \<noteq> None \<longrightarrow> sub s t name \<noteq> R_fuel)"

lemma add_to_storage_returns:
  assumes "sub_ends E sub"
  shows "returns (\<lambda>_. True) (add_to_template_storage E sub path name storage)"
proof -
  have c: "returns (\<lambda>_. True) (try_callback E path n m s)" for n m s
    by (auto simp: try_callback_def split: option.split sum.split)
  have "returns (\<lambda>_. True) (bind_run (sub s t n) (\<lambda>(u, s1). R_done (s1(n \<mapsto> u), n)))" if "pe_open E n = Some x" for s t n x
  proof -
    have "returns (\<lambda>_. True) (sub s t n)" using assms that by (simp add: sub_ends_def returns_True)
    then show ?thesis by (rule returns_bindI) auto
  qed
  then show ?thesis
    by (simp add: add_to_template_storage_def Let_def c del: returns_bind split: option.split)
qed

lemma parse_filename_returns: "returns (\<lambda>_. True) (parse_filename st)"
  by (simp add: parse_filename_def)

lemma moves_on_root: "moves E st st1 \<Longrightarrow> returns (\<lambda>(_, st'). moves E st st') (parse_root E closing st1)"
  using parse_root_moves [OF moves_ok] by (rule returns_mono) (auto intro: moves_trans)

lemma parse_if_moves: "state_ok E st \<Longrightarrow> returns (\<lambda>(_, st'). moves E st st') (parse_if E closing nested st)"
  unfolding parse_if_def
  by (rule moves_on_root) (metis moves_trans moves_ok next_moves open_nodes_move(1))

lemma parse_else_moves:
  assumes "state_ok E st"
  shows "returns (\<lambda>(_, st'). moves E st st') (parse_else E closing st)"
proof (cases "ps_ifs st")
  case (Cons d ds)
  let ?st1 = "(edit_tmpl (\<lambda>t. t\<lparr>tp_has_false := if_false d # tp_has_false t\<rparr>) (get_next_token E st))\<lparr>ps_block := if_false d\<rparr>"
  have k: "read_on E st (get_next_token E st)" using assms get_next_read by (simp add: state_ok_def)
  have m: "moves E st ?st1"
    using next_moves [OF assms] assms Cons k by (auto simp: edit_simps has_false_ok read_on_def kept_def)
  have "returns (\<lambda>(_, st'). moves E st st') (parse_if E closing True ?st1)"
    using parse_if_moves [OF moves_ok [OF m]] by (rule returns_mono) (auto intro: moves_trans [OF m])
  with m show ?thesis by (simp add: parse_else_def Cons Let_def)
qed (simp add: parse_else_def)

lemma parse_ends_move:
  assumes "state_ok E st"
  shows "returns (\<lambda>(_, st'). moves E st st') (parse_endif E st)" "returns (\<lambda>(_, st'). moves E st st') (parse_endfor E st)"
    "returns (\<lambda>(_, st'). moves E st st') (parse_endblock E st)"
proof -
  have k: "kept (get_next_token E st) = kept st" using assms get_next_read by (simp add: state_ok_def read_on_def)
  note m = next_moves [OF assms]
  have d: "dropWhile if_nested (ps_ifs st) = x # xs \<Longrightarrow> set (x # xs) \<subseteq> set (ps_ifs st)" for x xs
    by (metis set_dropWhileD subsetI)
  show "returns (\<lambda>(_, st'). moves E st st') (parse_endif E st)"
    using m assms k d by (auto simp: parse_endif_def edit_simps kept_def split: list.split)
  show "returns (\<lambda>(_, st'). moves E st st') (parse_endfor E st)" "returns (\<lambda>(_, st'). moves E st st') (parse_endblock E st)"
    using m assms k by (auto simp: parse_endfor_def parse_endblock_def edit_simps kept_def split: list.split)
qed

lemma parse_block_moves:
  assumes "state_ok E st0"
  shows "returns (\<lambda>(_, st'). moves E st0 st') (parse_block E st0)"
proof -
  let ?st = "get_next_token E st0"
  let ?st1 = "open_block_node (text_of ?st) ?st"
  note ok = moves_ok [OF next_moves [OF assms]]
  have m1: "moves E st0 ?st1" using next_moves [OF assms] open_nodes_move(2) [OF ok] by (rule moves_trans)
  have "moves E ?st1 (edit_tmpl (\<lambda>t. t\<lparr>tp_block_storage := (tp_block_storage t)(text_of ?st \<mapsto> ps_block ?st1)\<rparr>) ?st1)"
    using moves_ok [OF m1] by (auto simp: edit_simps block_storage_ok)
  then show ?thesis using m1 by (auto simp: parse_block_def Let_def intro: next_moves_on moves_trans)
qed

lemma parse_for_moves:
  assumes "state_ok E st0"
  shows "returns (\<lambda>(_, st'). moves E st0 st') (parse_for E closing st0)"
proof -
  have for_in: "returns (\<lambda>(_, st'). moves E st0 st') (parse_for_in E closing mk3 s)"
    if "moves E st0 s" "\<And>n k x c i b pos. node_ok n k x c (mk3 i b pos) = (i < x \<and> c < b \<and> b < k)" for mk3 s
  proof -
    have "moves E st0 (open_for_node mk3 s)" by (rule moves_trans [OF that(1) open_nodes_move(4) [OF moves_ok [OF that(1)] that(2)]])
    then show ?thesis by (simp add: parse_for_in_def Let_def moves_on_root next_moves_on)
  qed
  show ?thesis using next_moves [OF assms] by (simp add: parse_for_def Let_def for_in next_moves_on)
qed

lemma parse_set_moves:
  assumes "state_ok E st0"
  shows "returns (\<lambda>(_, st'). moves E st0 st') (parse_set E closing st0)"
proof -
  let ?s = "get_next_token E (get_next_token E st0)"
  have m: "moves E st0 ?s" using next_moves [OF assms] by (rule next_moves_on)
  have "moves E st0 (open_list_node (N_set n) ?s)" for n
    by (rule moves_trans [OF m open_nodes_move(5) [OF moves_ok [OF m]]]) simp
  then show ?thesis by (simp add: parse_set_def Let_def moves_on_root next_moves_on)
qed

lemma parse_use_moves:
  assumes "state_ok E st0" "sub_ends E sub" "\<And>n k x c name pos. node_ok n k x c (mk2 name pos)"
  shows "returns (\<lambda>(_, st'). moves E st0 st') (parse_use E sub path mk2 st0)"
proof -
  let ?s = "get_next_token E st0"
  note m = next_moves [OF assms(1)]
  have "moves E st0 (edit_tmpl (add_node (ps_block ?s) (mk2 name pos)) (?s\<lparr>ps_storage := sto\<rparr>))" for name pos sto
    using m assms(3) by (auto simp: edit_simps intro: add_node_ok)
  then show ?thesis
    by (auto simp: parse_use_def Let_def
        intro!: returns_mono [OF parse_filename_returns] returns_mono [OF add_to_storage_returns [OF assms(2)]] next_moves_on)
qed

lemma parse_inja_statement_moves:
  assumes "state_ok E st" "sub_ends E sub"
  shows "returns (\<lambda>(_, st'). moves E st st') (parse_inja_statement E sub path closing st)"
proof -
  have use: "returns (\<lambda>(_, st'). moves E st st') (parse_use E sub path N_include st)"
    "returns (\<lambda>(_, st'). moves E st st') (parse_use E sub path N_extends st)"
    by (rule parse_use_moves [OF assms], simp)+
  show ?thesis
    unfolding parse_inja_statement_def Let_def
    using parse_if_moves parse_else_moves parse_ends_move parse_block_moves parse_for_moves parse_set_moves use assms(1)
    by (simp add: moves_refl)
qed

lemma parse_part_moves:
  assumes "state_ok E st" "kind st \<noteq> Tk_Eof" "sub_ends E sub"
  shows "returns (moves E st) (parse_part E sub path st)"
proof -
  note m = next_moves [OF assms(1)]
  have tag: "returns (moves E st) (parse_tag E sub path closing ends expected st)" for closing ends expected
    unfolding parse_tag_def
    by (rule returns_bindI [OF parse_inja_statement_moves [OF moves_ok [OF m] assms(3)]]) (auto intro: moves_trans [OF m])
  have ex: "returns (moves E st) (bind_run (parse_root E Tk_ExpressionClose (open_list_node N_expression (get_next_token E st)))
      (\<lambda>(ok, st1). if ok then R_done st1 else unexpected ''expected expression close'' st1))"
    by (rule returns_bindI [OF moves_on_root [OF moves_trans [OF m open_nodes_move(5) [OF moves_ok [OF m]]]]]) auto
  have "pos_of st + length (text_of st) \<le> length (tp_content (ps_tmpl st))"
    using assms(1,2) by (simp add: state_ok_def reads_ok_def token_ok_def)
  then have tx: "moves E st (edit_tmpl (add_node (ps_block st) (N_text (pos_of st) (length (text_of st)))) st)"
    using assms(1) by (auto simp: edit_simps intro!: add_node_ok)
  show ?thesis
    using tag ex tx m by (cases "kind st") (simp_all add: parse_part_def Let_def del: returns_bind)
qed

lemma parse_parts_moves:
  assumes "sub_ends E sub"
  shows "state_ok E st0 \<Longrightarrow> pending st0 < n \<Longrightarrow> returns (moves E st0) (parse_parts n E sub path st0)"
proof (induction n arbitrary: st0)
  case (Suc n)
  let ?st = "get_next_token E st0"
  note m = next_moves [OF Suc.prems(1)]
  show ?case
  proof (cases "kind ?st = Tk_Eof")
    case True
    then show ?thesis using m by (simp add: Let_def)
  next
    case False
    have "pending ?st < n" using get_next_read(3) [OF _ False] Suc.prems by (simp add: state_ok_def)
    then have "returns (moves E st0) (parse_parts n E sub path s)" if "moves E ?st s" for s
    proof -
      have "pending s < n" using that \<open>pending ?st < n\<close> by (simp add: moves_def)
      then show ?thesis
        by (rule returns_mono [OF Suc.IH [OF moves_ok [OF that]]]) (rule moves_trans [OF moves_trans [OF m that]])
    qed
    then have "returns (moves E st0) (bind_run (parse_part E sub path ?st) (parse_parts n E sub path))"
      by (rule returns_bindI [OF parse_part_moves [OF moves_ok [OF m] False assms]])
    then show ?thesis using False by (simp add: Let_def)
  qed
qed simp

lemma parse_start_ok: "config_ok (pe_lexer_config E) \<Longrightarrow> template_ok t \<Longrightarrow> state_ok E (parse_start storage t)"
  using lexer_start_ok(1) [of "pe_lexer_config E" "tp_content t"] lexer_start_ok(2-4) [of "tp_content t"]
  by (auto simp: state_ok_def reads_ok_def parse_start_def token_ok_def template_ok_def)


subsection \<open>Operators bind as their precedence says\<close>

text \<open>An expression read from left to right, and the rule that its operators keep: on the left of an operator
  stands one that is applied before it, on the right one that is not.\<close>

fun inorder :: "expr \<Rightarrow> (expr + operation \<times> nat) list" where
  "inorder (X_function op name [a, b] cb pos) = inorder a @ Inr (op, pos) # inorder b"
| "inorder e = [Inl e]"

fun root_operator :: "expr \<Rightarrow> operation option" where
  "root_operator (X_function op name [a, b] cb pos) = Some op"
| "root_operator e = None"

fun well_bound :: "expr \<Rightarrow> bool" where
  "well_bound (X_function op name [a, b] cb pos) \<longleftrightarrow> well_bound a \<and> well_bound b
     \<and> pred_option (binds_first op) (root_operator a) \<and> pred_option (\<lambda>r. \<not> binds_first r op) (root_operator b)"
| "well_bound e \<longleftrightarrow> True"

definition is_atom :: "expr \<Rightarrow> bool" where
  "is_atom e \<longleftrightarrow> (case e of X_function _ _ _ _ _ \<Rightarrow> False | _ \<Rightarrow> True)"

definition is_binary :: "operation \<Rightarrow> bool" where
  "is_binary op \<longleftrightarrow> od_number_args (operator_data op) = 2"

text \<open>Operators and operands one after the other, as the loop over an expression meets them.\<close>

fun operator_steps :: "(operation \<times> parse_state \<times> expr) list \<Rightarrow> expr_state \<Rightarrow> expr_state run" where
  "operator_steps [] xs = R_done xs"
| "operator_steps ((op, st, x) # rest) xs =
     bind_run (push_operator op xs st) (\<lambda>(xs1, _). operator_steps rest (push_argument x xs1))"

text \<open>What the stacks hold: read as a sequence, and bound so far.\<close>

fun stack_sequence :: "expr list \<Rightarrow> (operation \<times> nat) list \<Rightarrow> (expr + operation \<times> nat) list" where
  "stack_sequence (a # args) (o1 # ops) = stack_sequence args ops @ Inr o1 # inorder a"
| "stack_sequence (a # _) [] = inorder a"
| "stack_sequence [] _ = []"

fun stack_bound :: "expr list \<Rightarrow> (operation \<times> nat) list \<Rightarrow> bool" where
  "stack_bound [a] [] \<longleftrightarrow> well_bound a"
| "stack_bound (a # b # args) ((op, pos) # ops) \<longleftrightarrow> well_bound a \<and> is_binary op
     \<and> pred_option (\<lambda>r. \<not> binds_first r op) (root_operator a) \<and> pred_option (binds_first op) (root_operator b)
     \<and> (case ops of [] \<Rightarrow> True | o2 # _ \<Rightarrow> \<not> binds_first op (fst o2)) \<and> stack_bound (b # args) ops"
| "stack_bound _ _ \<longleftrightarrow> False"

lemma add_operators_bound:
  "stack_bound args ops \<Longrightarrow> \<exists>args' ops'. add_operators st first args ops = R_done (args', ops') \<and> stack_bound args' ops'
     \<and> stack_sequence args' ops' = stack_sequence args ops
     \<and> (case ops' of [] \<Rightarrow> True | o1 # _ \<Rightarrow> \<not> first (fst o1))
     \<and> (root_operator (hd args') = root_operator (hd args) \<or> pred_option first (root_operator (hd args')))"
proof (induction ops arbitrary: args)
  case (Cons o1 ops)
  obtain op pos where o1: "o1 = (op, pos)" by (cases o1)
  obtain a b rest where args: "args = a # b # rest"
    using Cons.prems by (cases "(args, o1 # ops)" rule: stack_bound.cases) auto
  note sb = Cons.prems [unfolded args o1]
  let ?new = "X_function op [] [b, a] None pos"
  show ?case
  proof (cases "first op")
    case False
    then show ?thesis using Cons.prems by (simp add: o1)
  next
    case True
    have new: "stack_bound (?new # rest) ops"
      using sb by (cases "(b # rest, ops)" rule: stack_bound.cases) auto
    have seq: "stack_sequence (?new # rest) ops = stack_sequence (a # b # rest) ((op, pos) # ops)"
      by (cases ops) simp_all
    have step: "add_operators st first (a # b # rest) ((op, pos) # ops) = add_operators st first (?new # rest) ops"
      using True sb by (simp add: is_binary_def numeral_2_eq_2)
    show ?thesis
      using Cons.IH [OF new] True unfolding args o1 step seq [symmetric] by auto
  qed
qed auto

lemma push_operator_bound:
  assumes "stack_bound (xs_arguments xs) (xs_operators xs)" "root_operator (hd (xs_arguments xs)) = None" "is_binary op" "is_atom x"
  shows "\<exists>xs1. push_operator op xs st = R_done (xs1, st)
     \<and> stack_bound (xs_arguments (push_argument x xs1)) (xs_operators (push_argument x xs1))
     \<and> stack_sequence (xs_arguments (push_argument x xs1)) (xs_operators (push_argument x xs1))
       = stack_sequence (xs_arguments xs) (xs_operators xs) @ [Inr (op, pos_of st), Inl x]"
proof -
  obtain args ops where r: "add_operators st (binds_first op) (xs_arguments xs) (xs_operators xs) = R_done (args, ops)"
    "stack_bound args ops" "stack_sequence args ops = stack_sequence (xs_arguments xs) (xs_operators xs)"
    "case ops of [] \<Rightarrow> True | o1 # _ \<Rightarrow> \<not> binds_first op (fst o1)" "pred_option (binds_first op) (root_operator (hd args))"
    using add_operators_bound [OF assms(1), of st "binds_first op"] assms(2) by auto
  obtain a rest where args: "args = a # rest" using r(2) by (cases args) auto
  have x: "inorder x = [Inl x]" "root_operator x = None" "well_bound x" using assms(4) by (cases x; simp add: is_atom_def)+
  show ?thesis
    using r assms(3) x by (simp add: push_operator_def push_argument_def args split: list.splits)
qed

lemma operator_steps_bound:
  assumes "stack_bound (xs_arguments xs) (xs_operators xs)" "root_operator (hd (xs_arguments xs)) = None"
    and "list_all (\<lambda>(op, _, x). is_binary op \<and> is_atom x) rest"
  shows "\<exists>xs1. operator_steps rest xs = R_done xs1 \<and> stack_bound (xs_arguments xs1) (xs_operators xs1)
     \<and> stack_sequence (xs_arguments xs1) (xs_operators xs1)
       = stack_sequence (xs_arguments xs) (xs_operators xs) @ concat (map (\<lambda>(op, s, x). [Inr (op, pos_of s), Inl x]) rest)"
  using assms
proof (induction rest arbitrary: xs)
  case (Cons r rest)
  obtain op st x where r: "r = (op, st, x)" by (cases r)
  have p: "is_binary op" "is_atom x" using Cons.prems(3) by (simp_all add: r)
  obtain xs1 where s: "push_operator op xs st = R_done (xs1, st)"
    "stack_bound (xs_arguments (push_argument x xs1)) (xs_operators (push_argument x xs1))"
    "stack_sequence (xs_arguments (push_argument x xs1)) (xs_operators (push_argument x xs1))
       = stack_sequence (xs_arguments xs) (xs_operators xs) @ [Inr (op, pos_of st), Inl x]"
    using push_operator_bound [OF Cons.prems(1,2) p] by blast
  have "root_operator (hd (xs_arguments (push_argument x xs1))) = None"
    using p(2) by (cases x) (simp_all add: push_argument_def is_atom_def)
  from Cons.IH [OF s(2) this] Cons.prems(3) s(3) show ?case by (auto simp: r s(1))
qed simp

lemma finish_bound:
  assumes "stack_bound (xs_arguments xs) (xs_operators xs)"
  shows "\<exists>e. finish_expr xs st = R_done (Some e, st) \<and> well_bound e \<and> inorder e = stack_sequence (xs_arguments xs) (xs_operators xs)"
proof -
  obtain args ops where r: "add_operators st (\<lambda>_. True) (xs_arguments xs) (xs_operators xs) = R_done (args, ops)"
    "stack_bound args ops" "stack_sequence args ops = stack_sequence (xs_arguments xs) (xs_operators xs)"
    "case ops of [] \<Rightarrow> True | o1 # _ \<Rightarrow> \<not> True"
    using add_operators_bound [OF assms, of st "\<lambda>_. True"] by auto
  then have o: "ops = []" by (cases ops) auto
  obtain e where args: "args = [e]" using r(2) by (cases "(args, ops)" rule: stack_bound.cases) (auto simp: o)
  show ?thesis using r by (simp add: finish_expr_def args o)
qed



definition small_parser :: parser_env where
  "small_parser = \<lparr>pe_lib = small_lib, pe_functions = builtin_functions, pe_lexer_config = default_lexer_config,
     pe_search_files = True, pe_include_callback = None, pe_open = (\<lambda>_. None)\<rparr>"


end
