(* ===== verification/Inja_Renderer.thy ===== *)
theory Inja_Renderer
  imports Inja_Parser
begin

text \<open>
  The renderer of the template engine (\<open>src/inja/inja.hpp\<close>: \<open>renderer.hpp\<close>) with its stack of evaluated
  values, its stack of variables that were not found, the data that loops and assignments add, and the
  stacks behind \<open>extends\<close> and \<open>super()\<close>. The stacks hold values where the code holds pointers to them:
  the two differ only when a \<open>super()\<close> inside an expression assigns to a variable left of it, or ends the
  life of a temporary there. What a stream received before an exception is not modelled.
\<close>

subsection \<open>The state\<close>

record render_env =
  re_lib :: inja_lib
  re_functions :: function_storage
  re_storage :: template_storage
  re_throw_missing :: bool
  re_autoescape :: bool
  re_call :: "callback \<Rightarrow> json list \<Rightarrow> inja_error + json"

text \<open>\<open>rs_templates\<close> has its front first, the other stacks their top; \<open>rs_eval\<close> has \<open>None\<close> for a null pointer.\<close>

record render_state =
  rs_current :: template
  rs_level :: nat
  rs_templates :: "template list"
  rs_blocks :: "string list"
  rs_data :: json
  rs_additional :: "(string \<times> json) list"
  rs_eval :: "json option list"
  rs_not_found :: "(string \<times> nat) list"
  rs_break :: bool
  rs_out :: string

definition render_start :: "template \<Rightarrow> json \<Rightarrow> (string \<times> json) list \<Rightarrow> string \<Rightarrow> render_state" where
  "render_start t data additional out = \<lparr>rs_current = t, rs_level = 0, rs_templates = [t], rs_blocks = [], rs_data = data,
     rs_additional = additional, rs_eval = [], rs_not_found = [], rs_break = False, rs_out = out\<rparr>"

definition render_error :: "string \<Rightarrow> nat \<Rightarrow> render_state \<Rightarrow> 'a run" where
  "render_error message pos st = R_raised (located_error Inja_render message (get_source_location (tp_content (rs_current st)) pos))"

definition not_found_error :: "string \<times> nat \<Rightarrow> render_state \<Rightarrow> 'a run" where
  "not_found_error v st = render_error (''variable '' @ CHR 0x27 # fst v @ CHR 0x27 # '' not found'') (snd v) st"

definition push :: "json option \<Rightarrow> render_state \<Rightarrow> render_state" where
  "push v st = st\<lparr>rs_eval := v # rs_eval st\<rparr>"

definition write_out :: "string \<Rightarrow> render_state \<Rightarrow> render_state" where
  "write_out s st = st\<lparr>rs_out := rs_out st @ s\<rparr>"

subsection \<open>Values\<close>

definition escape_char :: "char \<Rightarrow> string" where
  "escape_char c =
     (if c = CHR ''&'' then ''&amp;'' else if c = CHR 0x22 then ''&quot;'' else if c = CHR 0x27 then ''&apos;''
      else if c = CHR ''<'' then ''&lt;'' else if c = CHR ''>'' then ''&gt;'' else [c])"

definition htmlescape :: "string \<Rightarrow> string" where
  "htmlescape data = concat (map escape_char data)"

definition truthy :: "inja_lib \<Rightarrow> json \<Rightarrow> bool" where
  "truthy L data =
     (case data of J_bool b \<Rightarrow> b | J_int i \<Rightarrow> i \<noteq> 0 | J_float t \<Rightarrow> \<not> il_is_zero L t | J_null \<Rightarrow> False | _ \<Rightarrow> json_size data \<noteq> 0)"

definition dump :: "inja_lib \<Rightarrow> json \<Rightarrow> string run" where
  "dump L v = (case il_dump L v of Some s \<Rightarrow> R_done s | None \<Rightarrow> raise_fault L (Jf_type v))"

definition print_data :: "render_env \<Rightarrow> json \<Rightarrow> render_state \<Rightarrow> render_state run" where
  "print_data R value st =
     (case value of
        J_string s \<Rightarrow> R_done (write_out (if re_autoescape R then htmlescape s else s) st)
      | J_int i \<Rightarrow> R_done (write_out (dec_int i) st)
      | J_null \<Rightarrow> R_done st
      | _ \<Rightarrow> bind_run (dump (re_lib R) value) (\<lambda>s. R_done (write_out s st)))"

text \<open>What \<open>get<T>\<close> makes of a value, for \<open>int64_t\<close>, \<open>double\<close>, \<open>int\<close> and \<open>std::string\<close>.\<close>

definition as_int :: "inja_lib \<Rightarrow> json \<Rightarrow> int run" where
  "as_int L j =
     (case j of
        J_int i \<Rightarrow> R_done (sint (word_of_int i :: i64))
      | J_float t \<Rightarrow> (case il_to_int L t of Some i \<Rightarrow> R_done i | None \<Rightarrow> R_undefined)
      | _ \<Rightarrow> raise_fault L (Jf_type j))"

definition as_float :: "inja_lib \<Rightarrow> json \<Rightarrow> string run" where
  "as_float L j = (case j of J_int i \<Rightarrow> R_done (il_of_int L i) | J_float t \<Rightarrow> R_done t | _ \<Rightarrow> raise_fault L (Jf_type j))"

definition as_c_int :: "inja_lib \<Rightarrow> json \<Rightarrow> int run" where
  "as_c_int L j =
     (case j of
        J_int i \<Rightarrow> R_done (sint (word_of_int i :: i32))
      | J_bool b \<Rightarrow> R_done (if b then 1 else 0)
      | J_float t \<Rightarrow> (case il_to_int L t of Some i \<Rightarrow> (if - (2 ^ 31) \<le> i \<and> i < 2 ^ 31 then R_done i else R_undefined) | None \<Rightarrow> R_undefined)
      | _ \<Rightarrow> raise_fault L (Jf_type j))"

definition as_text :: "inja_lib \<Rightarrow> json \<Rightarrow> string run" where
  "as_text L j = (case j of J_string s \<Rightarrow> R_done s | _ \<Rightarrow> raise_fault L (Jf_type j))"

text \<open>A signed result that does not fit is undefined.\<close>

definition int_result :: "int \<Rightarrow> json run" where
  "int_result i = (if - (2 ^ 63) \<le> i \<and> i < 2 ^ 63 then R_done (J_int i) else R_undefined)"

text \<open>The remainder of C++, with the sign of the dividend; that of the least integer by \<open>-1\<close> is undefined.\<close>

definition remainder :: "int \<Rightarrow> int \<Rightarrow> int run" where
  "remainder a b =
     (if b = 0 \<or> (a = - (2 ^ 63) \<and> b = - 1) then R_undefined else R_done (sgn a * (\<bar>a\<bar> mod \<bar>b\<bar>)))"

text \<open>What an iteration over a value sees.\<close>

definition elements :: "json \<Rightarrow> json list" where
  "elements j = (case j of J_array vs \<Rightarrow> vs | J_object kvs \<Rightarrow> map snd kvs | J_null \<Rightarrow> [] | _ \<Rightarrow> [j])"

text \<open>An element that is looked for in a value without one: an exception for null, undefined otherwise.\<close>

definition pick :: "inja_lib \<Rightarrow> json \<Rightarrow> (json list \<Rightarrow> json) \<Rightarrow> json run" where
  "pick L j f = (case elements j of [] \<Rightarrow> (if j = J_null then raise_fault L (Jf_type j) else R_undefined) | vs \<Rightarrow> R_done (f vs))"

definition json_less :: "inja_lib \<Rightarrow> json \<Rightarrow> json \<Rightarrow> bool" where
  "json_less L a b \<longleftrightarrow> il_compare L a b = Some O_less"

definition json_less_equal :: "inja_lib \<Rightarrow> json \<Rightarrow> json \<Rightarrow> bool" where
  "json_less_equal L a b \<longleftrightarrow> il_compare L a b = Some O_less \<or> il_compare L a b = Some O_equal"

definition max_element :: "inja_lib \<Rightarrow> json list \<Rightarrow> json" where
  "max_element L vs = foldl (\<lambda>m x. if json_less L m x then x else m) (hd vs) (tl vs)"

definition min_element :: "inja_lib \<Rightarrow> json list \<Rightarrow> json" where
  "min_element L vs = foldl (\<lambda>m x. if json_less L x m then x else m) (hd vs) (tl vs)"

text \<open>\<open>std::sort\<close>, here with equal elements in the order they had.\<close>

fun insert_sorted :: "inja_lib \<Rightarrow> json \<Rightarrow> json list \<Rightarrow> json list" where
  "insert_sorted L x [] = [x]"
| "insert_sorted L x (y # ys) = (if json_less L y x then y # insert_sorted L x ys else x # y # ys)"

definition sort_values :: "inja_lib \<Rightarrow> json list \<Rightarrow> json list" where
  "sort_values L vs = foldr (insert_sorted L) vs []"

definition to_upper :: "char \<Rightarrow> char" where
  "to_upper c = (let n = (of_char c :: nat) in if 97 \<le> n \<and> n \<le> 122 then char_of (n - 32) else c)"

text \<open>\<open>std::stoi\<close>: blanks, a sign and digits; what follows is ignored.\<close>

definition stoi :: "string \<Rightarrow> int option" where
  "stoi s =
     (let t = dropWhile is_space s; neg = starts_with t ''-'';
          ds = takeWhile is_digit (if neg \<or> starts_with t ''+'' then drop 1 t else t);
          v = (if neg then - int (digits_value ds) else int (digits_value ds))
      in if ds = [] \<or> v < - (2 ^ 31) \<or> 2 ^ 31 \<le> v then None else Some v)"

fun join_texts :: "inja_lib \<Rightarrow> string \<Rightarrow> string \<Rightarrow> json list \<Rightarrow> string run" where
  "join_texts L separator sep [] = R_done []"
| "join_texts L separator sep (v # vs) =
     bind_run (case v of J_string s \<Rightarrow> R_done s | _ \<Rightarrow> dump L v) (\<lambda>s.
       bind_run (join_texts L separator separator vs) (\<lambda>r. R_done (sep @ s @ r)))"

subsection \<open>Functions of values\<close>

definition int_op :: "inja_lib \<Rightarrow> (int \<Rightarrow> int \<Rightarrow> json run) \<Rightarrow> json \<Rightarrow> json \<Rightarrow> json run" where
  "int_op L f a b = bind_run (as_int L a) (\<lambda>x. bind_run (as_int L b) (f x))"

definition is_integer :: "json \<Rightarrow> bool" where
  "is_integer j = (case j of J_int _ \<Rightarrow> True | _ \<Rightarrow> False)"

definition is_string_value :: "json \<Rightarrow> bool" where
  "is_string_value j = (case j of J_string _ \<Rightarrow> True | _ \<Rightarrow> False)"

definition arith :: "inja_lib \<Rightarrow> float_op \<Rightarrow> (int \<Rightarrow> int \<Rightarrow> int) \<Rightarrow> json \<Rightarrow> json \<Rightarrow> json run" where
  "arith L fop iop a b =
     (if is_integer a \<and> is_integer b then int_op L (\<lambda>x y. int_result (iop x y)) a b
      else bind_run (as_float L a) (\<lambda>x. bind_run (as_float L b) (\<lambda>y. R_done (J_float (il_arith L fop x y)))))"

definition power_of :: "inja_lib \<Rightarrow> json \<Rightarrow> json \<Rightarrow> json run" where
  "power_of L a b =
     bind_run (as_int L b) (\<lambda>n.
       bind_run (as_float L a) (\<lambda>x.
         let r = il_arith L F_pow x (il_of_int L n) in
         if is_integer a \<and> 0 \<le> n then (case il_to_int L r of Some i \<Rightarrow> R_done (J_int i) | None \<Rightarrow> R_undefined)
         else R_done (J_float r)))"

definition at_value :: "inja_lib \<Rightarrow> json \<Rightarrow> json \<Rightarrow> json run" where
  "at_value L container key =
     (case container of
        J_object kvs \<Rightarrow>
          bind_run (as_text L key) (\<lambda>k. case map_of kvs k of Some v \<Rightarrow> R_done v | None \<Rightarrow> raise_fault L (Jf_missing key))
      | _ \<Rightarrow>
          bind_run (as_c_int L key) (\<lambda>i. case container of
            J_array vs \<Rightarrow> if 0 \<le> i \<and> nat i < length vs then R_done (vs ! nat i) else raise_fault L (Jf_missing key)
          | _ \<Rightarrow> raise_fault L (Jf_type container)))"

definition capitalize :: "string \<Rightarrow> json run" where
  "capitalize s = (case s of [] \<Rightarrow> R_undefined | c # r \<Rightarrow> R_done (J_string (to_upper c # map to_lower r)))"

definition round_value :: "inja_lib \<Rightarrow> json \<Rightarrow> json \<Rightarrow> json run" where
  "round_value L a p =
     bind_run (as_int L p) (\<lambda>precision.
       bind_run (as_float L a) (\<lambda>x.
         let r = il_round L x precision in
         if precision = 0
         then (case il_to_int L r of Some i \<Rightarrow> (if - (2 ^ 31) \<le> i \<and> i < 2 ^ 31 then R_done (J_int i) else R_undefined) | None \<Rightarrow> R_undefined)
         else R_done (J_float r)))"

definition range_value :: "inja_lib \<Rightarrow> int \<Rightarrow> json run" where
  "range_value L n =
     (if n < 0 \<or> 2 ^ 61 \<le> n then raise_fault L (Jf_std ''range'')
      else if 2 ^ 31 < n then R_undefined
      else R_done (J_array (map (\<lambda>i. J_int (int i)) [0..<nat n])))"

definition text_op :: "inja_lib \<Rightarrow> (string \<Rightarrow> string) \<Rightarrow> json \<Rightarrow> json run" where
  "text_op L f a = bind_run (as_text L a) (\<lambda>s. R_done (J_string (f s)))"

definition apply1 :: "inja_lib \<Rightarrow> json \<Rightarrow> operation \<Rightarrow> json \<Rightarrow> json run" where
  "apply1 L data op a =
     (case op of
        Op_Not \<Rightarrow> R_done (J_bool (\<not> truthy L a))
      | Op_Capitalize \<Rightarrow> bind_run (as_text L a) capitalize
      | Op_Even \<Rightarrow> bind_run (as_int L a) (\<lambda>i. R_done (J_bool (i mod 2 = 0)))
      | Op_Odd \<Rightarrow> bind_run (as_int L a) (\<lambda>i. R_done (J_bool (i mod 2 \<noteq> 0)))
      | Op_Exists \<Rightarrow>
          bind_run (as_text L a) (\<lambda>name.
            case json_pointer (convert_dot_to_ptr name) of
              Some ptr \<Rightarrow> R_done (J_bool (at_pointer data ptr \<noteq> None))
            | None \<Rightarrow> raise_fault L (Jf_pointer (convert_dot_to_ptr name)))
      | Op_First \<Rightarrow> pick L a hd
      | Op_Last \<Rightarrow> pick L a last
      | Op_Max \<Rightarrow> pick L a (max_element L)
      | Op_Min \<Rightarrow> pick L a (min_element L)
      | Op_Float \<Rightarrow> bind_run (as_text L a) (\<lambda>s. case il_stod L s of Some t \<Rightarrow> R_done (J_float t) | None \<Rightarrow> raise_fault L (Jf_std ''stod''))
      | Op_Int \<Rightarrow> bind_run (as_text L a) (\<lambda>s. case stoi s of Some i \<Rightarrow> R_done (J_int i) | None \<Rightarrow> raise_fault L (Jf_std ''stoi''))
      | Op_Length \<Rightarrow> R_done (J_int (case a of J_string s \<Rightarrow> int (length s) | _ \<Rightarrow> int (json_size a)))
      | Op_Lower \<Rightarrow> text_op L (map to_lower) a
      | Op_Upper \<Rightarrow> text_op L (map to_upper) a
      | Op_Range \<Rightarrow> bind_run (as_int L a) (range_value L)
      | Op_Sort \<Rightarrow> (case a of J_array vs \<Rightarrow> R_done (J_array (sort_values L vs)) | _ \<Rightarrow> raise_fault L (Jf_type a))
      | Op_IsBoolean \<Rightarrow> R_done (J_bool (case a of J_bool _ \<Rightarrow> True | _ \<Rightarrow> False))
      | Op_IsNumber \<Rightarrow> R_done (J_bool (is_number a))
      | Op_IsInteger \<Rightarrow> R_done (J_bool (is_integer a))
      | Op_IsFloat \<Rightarrow> R_done (J_bool (case a of J_float _ \<Rightarrow> True | _ \<Rightarrow> False))
      | Op_IsObject \<Rightarrow> R_done (J_bool (case a of J_object _ \<Rightarrow> True | _ \<Rightarrow> False))
      | Op_IsArray \<Rightarrow> R_done (J_bool (case a of J_array _ \<Rightarrow> True | _ \<Rightarrow> False))
      | Op_IsString \<Rightarrow> R_done (J_bool (is_string_value a))
      | _ \<Rightarrow> R_undefined)"

text \<open>\<open>div_error\<close> is the error of a division by zero.\<close>

definition apply2 :: "inja_lib \<Rightarrow> json run \<Rightarrow> operation \<Rightarrow> json \<Rightarrow> json \<Rightarrow> json run" where
  "apply2 L div_error op a b =
     (case op of
        Op_In \<Rightarrow> R_done (J_bool (list_ex (\<lambda>v. il_eq L v a) (elements b)))
      | Op_Equal \<Rightarrow> R_done (J_bool (il_eq L a b))
      | Op_NotEqual \<Rightarrow> R_done (J_bool (\<not> il_eq L a b))
      | Op_Greater \<Rightarrow> R_done (J_bool (il_compare L a b = Some O_greater))
      | Op_GreaterEqual \<Rightarrow> R_done (J_bool (il_compare L a b = Some O_greater \<or> il_compare L a b = Some O_equal))
      | Op_Less \<Rightarrow> R_done (J_bool (json_less L a b))
      | Op_LessEqual \<Rightarrow> R_done (J_bool (json_less_equal L a b))
      | Op_Add \<Rightarrow>
          (case (a, b) of (J_string s, J_string t) \<Rightarrow> R_done (J_string (s @ t)) | _ \<Rightarrow> arith L F_add (+) a b)
      | Op_Subtract \<Rightarrow> arith L F_sub (-) a b
      | Op_Multiplication \<Rightarrow> arith L F_mul (*) a b
      | Op_Division \<Rightarrow>
          bind_run (as_float L b) (\<lambda>y.
            if il_is_zero L y then div_error
            else bind_run (as_float L a) (\<lambda>x. R_done (J_float (il_arith L F_div x y))))
      | Op_Power \<Rightarrow> power_of L a b
      | Op_Modulo \<Rightarrow> int_op L (\<lambda>x y. bind_run (remainder x y) (\<lambda>r. R_done (J_int r))) a b
      | Op_At \<Rightarrow> at_value L a b
      | Op_DivisibleBy \<Rightarrow>
          bind_run (as_int L b) (\<lambda>divisor.
            if divisor = 0 then R_done (J_bool False)
            else bind_run (as_int L a) (\<lambda>x. bind_run (remainder x divisor) (\<lambda>r. R_done (J_bool (r = 0)))))
      | Op_ExistsInObject \<Rightarrow> bind_run (as_text L b) (\<lambda>name. R_done (J_bool (field a name \<noteq> None)))
      | Op_Round \<Rightarrow> round_value L a b
      | Op_Join \<Rightarrow> bind_run (as_text L b) (\<lambda>separator. bind_run (join_texts L separator [] (elements a)) (\<lambda>s. R_done (J_string s)))
      | _ \<Rightarrow> R_undefined)"

text \<open>How many arguments an operation takes from the stack.\<close>

definition arity :: "operation \<Rightarrow> nat" where
  "arity op =
     (if op \<in> set [Op_In, Op_Equal, Op_NotEqual, Op_Greater, Op_GreaterEqual, Op_Less, Op_LessEqual, Op_Add, Op_Subtract,
        Op_Multiplication, Op_Division, Op_Power, Op_Modulo, Op_At, Op_DivisibleBy, Op_ExistsInObject, Op_Round, Op_Join] then 2
      else if op = Op_Replace then 3 else 1)"

definition apply_op :: "render_env \<Rightarrow> operation \<Rightarrow> nat \<Rightarrow> json list \<Rightarrow> render_state \<Rightarrow> json run" where
  "apply_op R op pos vs st =
     (let L = re_lib R in
      case vs of
        [a] \<Rightarrow> apply1 L (rs_data st) op a
      | [a, b] \<Rightarrow> apply2 L (render_error ''division by zero'' pos st) op a b
      | [a, b, c] \<Rightarrow>
          bind_run (as_text L a) (\<lambda>s. bind_run (as_text L b) (\<lambda>f. bind_run (as_text L c) (\<lambda>t. R_done (J_string (replace_substring s f t)))))
      | _ \<Rightarrow> R_undefined)"

subsection \<open>The stack of values\<close>

text \<open>The arguments of a function are popped, the last first; a null pointer takes the entry of its variable.\<close>

fun pop_values :: "bool \<Rightarrow> nat \<Rightarrow> json option list \<Rightarrow> render_state \<Rightarrow> (json option list \<times> render_state) run" where
  "pop_values throw_not_found 0 acc st = R_done (acc, st)"
| "pop_values throw_not_found (Suc k) acc st =
     (case rs_eval st of
        [] \<Rightarrow> R_undefined
      | Some v # vs \<Rightarrow> pop_values throw_not_found k (Some v # acc) (st\<lparr>rs_eval := vs\<rparr>)
      | None # vs \<Rightarrow>
          (case rs_not_found st of
             [] \<Rightarrow> R_undefined
           | d # ds \<Rightarrow>
               if throw_not_found then not_found_error d st
               else pop_values throw_not_found k (None # acc) (st\<lparr>rs_eval := vs, rs_not_found := ds\<rparr>)))"

definition needs_message :: "nat \<Rightarrow> nat \<Rightarrow> string" where
  "needs_message n found = ''function needs '' @ dec n @ '' variables, but has only found '' @ dec found"

definition pop_arguments :: "bool \<Rightarrow> nat \<Rightarrow> nat \<Rightarrow> render_state \<Rightarrow> (json option list \<times> render_state) run" where
  "pop_arguments throw_not_found n pos st =
     (if length (rs_eval st) < n then render_error (needs_message n (length (rs_eval st))) pos st
      else pop_values throw_not_found n [] st)"

text \<open>A variable: of the loops and assignments, of the data, or a callback without arguments.\<close>

definition visit_data :: "render_env \<Rightarrow> string \<Rightarrow> json_pointer \<Rightarrow> nat \<Rightarrow> render_state \<Rightarrow> render_state run" where
  "visit_data R name ptr pos st =
     (case at_pointer (J_object (rs_additional st)) ptr of
        Some v \<Rightarrow> R_done (push (Some v) st)
      | None \<Rightarrow>
          (case at_pointer (rs_data st) ptr of
             Some v \<Rightarrow> R_done (push (Some v) st)
           | None \<Rightarrow>
               (let fd = find_function (re_functions R) name 0 in
                case (fd_operation fd, fd_callback fd) of
                  (Op_Callback, Some cb) \<Rightarrow> (case re_call R cb [] of Inr v \<Rightarrow> R_done (push (Some v) st) | Inl e \<Rightarrow> R_raised e)
                | _ \<Rightarrow> R_done ((push None st)\<lparr>rs_not_found := (name, pos) # rs_not_found st\<rparr>))))"

text \<open>The value of an expression that was visited.\<close>

definition take_result :: "nat \<Rightarrow> render_state \<Rightarrow> (json \<times> render_state) run" where
  "take_result pos st =
     (case rs_eval st of
        [] \<Rightarrow> render_error ''empty expression'' pos st
      | [Some v] \<Rightarrow> R_done (v, st\<lparr>rs_eval := []\<rparr>)
      | [None] \<Rightarrow>
          (case rs_not_found st of
             [] \<Rightarrow> render_error ''expression could not be evaluated'' pos st
           | d # _ \<Rightarrow> not_found_error d st)
      | _ \<Rightarrow> render_error ''malformed expression'' pos st)"

subsection \<open>The data of a loop\<close>

definition additional :: "string \<Rightarrow> render_state \<Rightarrow> json" where
  "additional k st = (case map_of (rs_additional st) k of Some v \<Rightarrow> v | None \<Rightarrow> J_null)"

definition set_additional :: "string \<Rightarrow> json \<Rightarrow> render_state \<Rightarrow> render_state" where
  "set_additional k v st = st\<lparr>rs_additional := put_sorted k v (rs_additional st)\<rparr>"

definition set_loop :: "inja_lib \<Rightarrow> string \<Rightarrow> json \<Rightarrow> render_state \<Rightarrow> render_state run" where
  "set_loop L k v st =
     (case set_member k v (additional ''loop'' st) of
        Some l \<Rightarrow> R_done (set_additional ''loop'' l st)
      | None \<Rightarrow> raise_fault L (Jf_type (additional ''loop'' st)))"

text \<open>A loop over an array copies the data of the loop around it, one over an object moves it.\<close>

definition enter_loop :: "inja_lib \<Rightarrow> bool \<Rightarrow> nat \<Rightarrow> render_state \<Rightarrow> render_state run" where
  "enter_loop L move count st =
     (let l = additional ''loop'' st in
      bind_run (if json_size l = 0 then R_done st
                else set_loop L ''parent'' l (if move then set_additional ''loop'' J_null st else st)) (\<lambda>st1.
        bind_run (set_loop L ''is_first'' (J_bool True) st1) (\<lambda>st2.
          set_loop L ''is_last'' (J_bool (count \<le> 1)) st2)))"

definition enter_item :: "inja_lib \<Rightarrow> nat \<Rightarrow> nat \<Rightarrow> (string \<times> json) list \<Rightarrow> render_state \<Rightarrow> render_state run" where
  "enter_item L count index vars st =
     bind_run (set_loop L ''index'' (J_int (int index)) (fold (\<lambda>(k, v). set_additional k v) vars st)) (\<lambda>st1.
       bind_run (set_loop L ''index1'' (J_int (int index + 1)) st1) (\<lambda>st2.
         bind_run (if index = 1 then set_loop L ''is_first'' (J_bool False) st2 else R_done st2) (\<lambda>st3.
           if index = count - 1 then set_loop L ''is_last'' (J_bool True) st3 else R_done st3)))"

text \<open>Behind the loop: its variables are emptied, and the data of the loop around it is back. Reading
  \<open>parent\<close> makes it when it is not there.\<close>

definition leave_loop :: "inja_lib \<Rightarrow> string list \<Rightarrow> render_state \<Rightarrow> render_state run" where
  "leave_loop L vars st0 =
     (let st = fold (\<lambda>k s. set_additional k (json_clear (il_zero L) (additional k s)) s) vars st0;
          l = additional ''loop'' st in
      case l of
        J_object kvs \<Rightarrow>
          (case map_of kvs ''parent'' of
             Some p \<Rightarrow> R_done (if json_size p \<noteq> 0 then set_additional ''loop'' p st else st)
           | None \<Rightarrow> set_loop L ''parent'' J_null st)
      | _ \<Rightarrow> set_loop L ''parent'' J_null st)"

definition set_variable :: "inja_lib \<Rightarrow> string \<Rightarrow> json \<Rightarrow> render_state \<Rightarrow> render_state run" where
  "set_variable L key v st =
     (let ptr = CHR ''/'' # replace_substring key ''.'' ''/'' in
      case json_pointer ptr of
        None \<Rightarrow> raise_fault L (Jf_pointer ptr)
      | Some p \<Rightarrow>
          (case set_pointer (J_object (rs_additional st)) p v of
             Some (J_object kvs) \<Rightarrow> R_done (st\<lparr>rs_additional := kvs\<rparr>)
           | _ \<Rightarrow> raise_fault L (Jf_pointer ptr)))"

subsection \<open>The visitor\<close>

lemma size_list_part: "size_list f (take n (drop m xs)) \<le> size_list f xs"
proof -
  have t: "size_list f (take n ys) \<le> size_list f ys" for n ys by (induction ys arbitrary: n) (simp_all add: take_Cons split: nat.split)
  have d: "size_list f (drop m ys) \<le> size_list f ys" for m ys
    by (induction ys arbitrary: m) (auto simp: drop_Cons split: nat.split intro: le_SucI le_trans [OF _ le_add2])
  show ?thesis using t [of n "drop m xs"] d [of m xs] by linarith
qed

text \<open>The block of that name that a template has, as \<open>super()\<close> looks for it.\<close>

definition super_level :: "render_state \<Rightarrow> int \<Rightarrow> nat" where
  "super_level st diff = nat ((int (rs_level st) + diff) mod 2 ^ 64)"

definition super_error :: "render_state \<Rightarrow> string" where
  "super_error st = ''level of super() call does not match parent templates (between 1 and '' @ dec (length (rs_templates st) - 1) @ '')''"

text \<open>The entry of \<open>.\<close>: the name of the element is that of a variable that is not found.\<close>

definition at_id :: "render_env \<Rightarrow> nat \<Rightarrow> json option \<Rightarrow> render_state \<Rightarrow> render_state run" where
  "at_id R pos container st =
     (case (rs_not_found st, rs_eval st) of
        ([], _) \<Rightarrow> render_error ''could not find element with given name'' pos st
      | (_ # _, []) \<Rightarrow> R_undefined
      | ((name, _) # ds, _ # vs) \<Rightarrow>
          (case container of
             None \<Rightarrow> R_undefined
           | Some (J_object kvs) \<Rightarrow>
               (case map_of kvs name of
                  Some v \<Rightarrow> R_done (st\<lparr>rs_eval := Some v # vs, rs_not_found := ds\<rparr>)
                | None \<Rightarrow> raise_fault (re_lib R) (Jf_missing (J_string name)))
           | Some j \<Rightarrow> raise_fault (re_lib R) (Jf_type j)))"

text \<open>The fuel bounds how deep blocks are visited inside each other; each function takes it first. A block
  is visited in the template that owns it, which need not be the current one.\<close>

function (sequential)
  eval :: "nat \<Rightarrow> render_env \<Rightarrow> expr \<Rightarrow> render_state \<Rightarrow> render_state run"
  and eval_list :: "nat \<Rightarrow> render_env \<Rightarrow> expr list \<Rightarrow> render_state \<Rightarrow> render_state run"
  and get_arguments :: "nat \<Rightarrow> render_env \<Rightarrow> bool \<Rightarrow> nat \<Rightarrow> nat \<Rightarrow> nat \<Rightarrow> expr list \<Rightarrow> render_state \<Rightarrow> (json option list \<times> render_state) run"
  and visit_block :: "nat \<Rightarrow> render_env \<Rightarrow> template \<Rightarrow> nat \<Rightarrow> render_state \<Rightarrow> render_state run"
  and visit_nodes :: "nat \<Rightarrow> render_env \<Rightarrow> template \<Rightarrow> node list \<Rightarrow> render_state \<Rightarrow> render_state run"
  and visit_node :: "nat \<Rightarrow> render_env \<Rightarrow> template \<Rightarrow> node \<Rightarrow> render_state \<Rightarrow> render_state run"
  and eval_root :: "nat \<Rightarrow> render_env \<Rightarrow> template \<Rightarrow> nat \<Rightarrow> nat \<Rightarrow> render_state \<Rightarrow> (json \<times> render_state) run"
  and visit_items :: "nat \<Rightarrow> render_env \<Rightarrow> template \<Rightarrow> nat \<Rightarrow> nat \<Rightarrow> nat \<Rightarrow> (string \<times> json) list list \<Rightarrow> render_state \<Rightarrow> render_state run"
where
  "eval n R (X_literal v pos) st = R_done (push (Some v) st)"
| "eval n R (X_data name ptr pos) st = visit_data R name ptr pos st"
| "eval n R (X_function op name args cb pos) st =
     (let result = (\<lambda>v s. R_done (push (Some v) s)) in
      case op of
        Op_And \<Rightarrow>
          bind_run (get_arguments n R True 0 1 pos args st) (\<lambda>(a, st1).
            if \<not> truthy (re_lib R) (the (hd a)) then result (J_bool False) st1
            else bind_run (get_arguments n R True 1 1 pos args st1) (\<lambda>(b, st2). result (J_bool (truthy (re_lib R) (the (hd b)))) st2))
      | Op_Or \<Rightarrow>
          bind_run (get_arguments n R True 0 1 pos args st) (\<lambda>(a, st1).
            if truthy (re_lib R) (the (hd a)) then result (J_bool True) st1
            else bind_run (get_arguments n R True 1 1 pos args st1) (\<lambda>(b, st2). result (J_bool (truthy (re_lib R) (the (hd b)))) st2))
      | Op_Default \<Rightarrow>
          bind_run (get_arguments n R False 0 1 pos args st) (\<lambda>(a, st1).
            case hd a of
              Some v \<Rightarrow> result v st1
            | None \<Rightarrow> bind_run (get_arguments n R True 1 1 pos args st1) (\<lambda>(b, st2). result (the (hd b)) st2))
      | Op_AtId \<Rightarrow>
          bind_run (get_arguments n R False 0 1 pos args st) (\<lambda>(a, st1).
            bind_run (eval_list n R (take 1 (drop 1 args)) st1) (\<lambda>st2. at_id R pos (hd a) st2))
      | Op_Callback \<Rightarrow>
          bind_run (get_arguments n R True 0 (length args) pos args st) (\<lambda>(vs, st1).
            case cb of
              None \<Rightarrow> raise_fault (re_lib R) (Jf_std ''bad_function_call'')
            | Some f \<Rightarrow> (case re_call R f (map the vs) of Inr v \<Rightarrow> result v st1 | Inl e \<Rightarrow> R_raised e))
      | Op_Super \<Rightarrow>
          bind_run (get_arguments n R True 0 (length args) pos args st) (\<lambda>(vs, st1).
            bind_run (if length vs = 1 then as_c_int (re_lib R) (the (hd vs)) else R_done 1) (\<lambda>diff.
              let level = super_level st1 diff in
              if rs_blocks st1 = [] then render_error ''super() call is not within a block'' pos st1
              else if level < 1 \<or> length (rs_templates st1) - 1 < level then render_error (super_error st1) pos st1
              else
                let block_name = hd (rs_blocks st1); t = rs_templates st1 ! level in
                case tp_block_storage t block_name of
                  None \<Rightarrow> render_error (''could not find block with name '' @ CHR 0x27 # block_name @ [CHR 0x27]) pos st1
                | Some b \<Rightarrow>
                    bind_run (visit_block n R t b (st1\<lparr>rs_current := t, rs_level := level\<rparr>)) (\<lambda>st2.
                      result J_null (st2\<lparr>rs_current := rs_current st1, rs_level := rs_level st1\<rparr>))))
      | Op_None \<Rightarrow> R_done st
      | _ \<Rightarrow>
          bind_run (get_arguments n R True 0 (arity op) pos args st) (\<lambda>(vs, st1).
            bind_run (apply_op R op pos (map the vs) st1) (\<lambda>v. result v st1)))"
| "eval_list n R [] st = R_done st"
| "eval_list n R (e # es) st = bind_run (eval n R e st) (eval_list n R es)"
| "get_arguments n R throw_not_found start count pos args st =
     (if length args < start + count then render_error (needs_message (start + count) (length args)) pos st
      else bind_run (eval_list n R (take count (drop start args)) st) (pop_arguments throw_not_found count pos))"
| "visit_block 0 R own b st = R_fuel"
| "visit_block (Suc n) R own b st = visit_nodes n R own (tp_blocks own ! b) st"
| "visit_nodes n R own [] st = R_done st"
| "visit_nodes n R own (nd # nds) st =
     bind_run (visit_node n R own nd st) (\<lambda>st1. if rs_break st1 then R_done st1 else visit_nodes n R own nds st1)"
| "visit_node n R own (N_text pos len) st =
     (if length (tp_content (rs_current st)) < pos + len then R_undefined
      else R_done (write_out (take len (drop pos (tp_content (rs_current st)))) st))"
| "visit_node n R own (N_expression i pos) st =
     bind_run (eval_root n R own i pos st) (\<lambda>(v, st1). print_data R v st1)"
| "visit_node n R own (N_for_array value i body pos) st =
     bind_run (eval_root n R own i 0 st) (\<lambda>(v, st1).
       case v of
         J_array vs \<Rightarrow>
           bind_run (enter_loop (re_lib R) False (length vs) st1) (\<lambda>st2.
             bind_run (visit_items n R own body (length vs) 0 (map (\<lambda>x. [(value, x)]) vs) st2) (leave_loop (re_lib R) [value]))
       | _ \<Rightarrow> render_error ''object must be an array'' pos st1)"
| "visit_node n R own (N_for_object key value i body pos) st =
     bind_run (eval_root n R own i 0 st) (\<lambda>(v, st1).
       case v of
         J_object kvs \<Rightarrow>
           bind_run (enter_loop (re_lib R) True (length kvs) st1) (\<lambda>st2.
             bind_run (visit_items n R own body (length kvs) 0 (map (\<lambda>(k, x). [(key, J_string k), (value, x)]) kvs) st2)
               (leave_loop (re_lib R) [key, value]))
       | _ \<Rightarrow> render_error ''object must be an object'' pos st1)"
| "visit_node n R own (N_if i tb fb pos) st =
     bind_run (eval_root n R own i 0 st) (\<lambda>(v, st1).
       if truthy (re_lib R) v then visit_block n R own tb st1
       else if fb \<in> set (tp_has_false own) then visit_block n R own fb st1
       else R_done st1)"
| "visit_node n R own (N_include file pos) st =
     (case re_storage R file of
        Some t \<Rightarrow>
          bind_run (visit_block n R t 0 (render_start t (rs_data st) (rs_additional st) (rs_out st)))
            (\<lambda>sub. R_done (st\<lparr>rs_out := rs_out sub\<rparr>))
      | None \<Rightarrow>
          if re_throw_missing R then render_error (''include '' @ CHR 0x27 # file @ CHR 0x27 # '' not found'') pos st else R_done st)"
| "visit_node n R own (N_extends file pos) st =
     (case re_storage R file of
        Some t \<Rightarrow>
          bind_run (visit_block n R t 0 (st\<lparr>rs_current := t, rs_templates := rs_templates st @ [t]\<rparr>))
            (\<lambda>st1. R_done (st1\<lparr>rs_break := True\<rparr>))
      | None \<Rightarrow>
          if re_throw_missing R then render_error (''extends '' @ CHR 0x27 # file @ CHR 0x27 # '' not found'') pos st else R_done st)"
| "visit_node n R own (N_block name b pos) st =
     (let front = hd (rs_templates st); st0 = st\<lparr>rs_level := 0, rs_current := front\<rparr> in
      bind_run
        (case tp_block_storage front name of
           Some fb \<Rightarrow>
             bind_run (visit_block n R front fb (st0\<lparr>rs_blocks := name # rs_blocks st\<rparr>))
               (\<lambda>st1. R_done (st1\<lparr>rs_blocks := tl (rs_blocks st1)\<rparr>))
         | None \<Rightarrow> R_done st0)
        (\<lambda>st1. R_done (st1\<lparr>rs_level := rs_level st, rs_current := last (rs_templates st1)\<rparr>)))"
| "visit_node n R own (N_set key i pos) st =
     bind_run (eval_root n R own i 0 st) (\<lambda>(v, st1). set_variable (re_lib R) key v st1)"
| "eval_root n R own i pos st =
     (case tp_exprs own ! i of
        None \<Rightarrow> render_error ''empty expression'' pos st
      | Some e \<Rightarrow> bind_run (eval n R e st) (take_result pos))"
| "visit_items n R own body count index [] st = R_done st"
| "visit_items n R own body count index (vars # rest) st =
     bind_run (enter_item (re_lib R) count index vars st) (\<lambda>st1.
       bind_run (visit_block n R own body st1) (\<lambda>st2. visit_items n R own body count (Suc index) rest st2))"
  by pat_completeness auto

termination
  by (relation "measures
      [\<lambda>x. case x of
         Inl (Inl (Inl (n, _))) \<Rightarrow> n | Inl (Inl (Inr (n, _))) \<Rightarrow> n | Inl (Inr (Inl (n, _))) \<Rightarrow> n | Inl (Inr (Inr (n, _))) \<Rightarrow> n
       | Inr (Inl (Inl (n, _))) \<Rightarrow> n | Inr (Inl (Inr (n, _))) \<Rightarrow> n | Inr (Inr (Inl (n, _))) \<Rightarrow> n | Inr (Inr (Inr (n, _))) \<Rightarrow> n,
       \<lambda>x. case x of
         Inl (Inr (Inr _)) \<Rightarrow> 0 | Inl _ \<Rightarrow> 1 | Inr (Inr (Inl _)) \<Rightarrow> 2 | Inr (Inr (Inr _)) \<Rightarrow> 3
       | Inr (Inl (Inr _)) \<Rightarrow> 4 | Inr (Inl (Inl _)) \<Rightarrow> (5 :: nat),
       \<lambda>x. case x of
         Inl (Inl (Inl (_, _, e, _))) \<Rightarrow> 2 * size e | Inl (Inl (Inr (_, _, es, _))) \<Rightarrow> 2 * size_list size es
       | Inl (Inr (Inl (_, _, _, _, _, _, args, _))) \<Rightarrow> 2 * size_list size args + 1
       | Inr (Inl (Inl (_, _, _, nds, _))) \<Rightarrow> length nds
       | Inr (Inr (Inr (_, _, _, _, _, _, items, _))) \<Rightarrow> length items
       | _ \<Rightarrow> 0]")
    (auto simp: less_Suc_eq_le size_list_part le_SucI)

definition render_template :: "nat \<Rightarrow> render_env \<Rightarrow> template \<Rightarrow> json \<Rightarrow> string run" where
  "render_template n R t data =
     bind_run (visit_block n R t 0 (render_start t data [(''loop'', J_null)] [])) (\<lambda>st. R_done (rs_out st))"

subsection \<open>Rendering comes to an end\<close>

lemma returns_render_error [simp]: "returns Q (render_error m pos st)" "returns Q (not_found_error d st)"
  by (simp_all add: render_error_def not_found_error_def)

lemma returns_conversions [simp]:
  "returns (\<lambda>_. True) (dump L v)" "returns (\<lambda>_. True) (as_int L j)" "returns (\<lambda>_. True) (as_float L j)"
  "returns (\<lambda>_. True) (as_c_int L j)" "returns (\<lambda>_. True) (as_text L j)" "returns (\<lambda>_. True) (int_result i)"
  "returns (\<lambda>_. True) (remainder x y)" "returns (\<lambda>_. True) (pick L j f)" "returns (\<lambda>_. True) (range_value L i)"
  "returns (\<lambda>_. True) (capitalize s)"
  by (auto simp: dump_def as_int_def as_float_def as_c_int_def as_text_def int_result_def remainder_def pick_def range_value_def
      capitalize_def split: option.split json.split list.split)

lemma returns_trivial: "returns (\<lambda>_. True) m \<Longrightarrow> (\<And>a. returns (\<lambda>_. True) (f a)) \<Longrightarrow> returns (\<lambda>_. True) (bind_run m f)"
  by (rule returns_bindI)

lemma returns_join [simp]: "returns (\<lambda>_. True) (join_texts L separator sep vs)"
  by (induction L separator sep vs rule: join_texts.induct)
    (auto simp del: returns_bind intro!: returns_trivial split: json.split)

lemma returns_arith [simp]:
  "(\<And>x y. returns (\<lambda>_. True) (f x y)) \<Longrightarrow> returns (\<lambda>_. True) (int_op L f a b)" "returns (\<lambda>_. True) (arith L fop iop a b)"
  "returns (\<lambda>_. True) (power_of L a b)" "returns (\<lambda>_. True) (at_value L a b)" "returns (\<lambda>_. True) (round_value L a b)"
  "returns (\<lambda>_. True) (text_op L g a)"
  by (auto simp: int_op_def arith_def power_of_def at_value_def round_value_def text_op_def Let_def
      simp del: returns_bind intro!: returns_trivial split: json.split option.split)

lemma returns_apply [simp]:
  "returns (\<lambda>_. True) (apply1 L data op a)"
  "returns (\<lambda>_. True) e \<Longrightarrow> returns (\<lambda>_. True) (apply2 L e op a b)"
  "returns (\<lambda>_. True) (apply_op R op pos vs st)"
proof -
  show 1: "returns (\<lambda>_. True) (apply1 L data op a)" for L data op a
    unfolding apply1_def
    by (cases op) (auto simp del: returns_bind intro!: returns_trivial split: json.split option.split)
  show 2: "returns (\<lambda>_. True) e \<Longrightarrow> returns (\<lambda>_. True) (apply2 L e op a b)" for L e op a b
    unfolding apply2_def
    by (cases op) (auto simp del: returns_bind intro!: returns_trivial returns_arith(1) split: json.split option.split)
  show "returns (\<lambda>_. True) (apply_op R op pos vs st)"
    by (auto simp: apply_op_def Let_def 1 2 simp del: returns_bind intro!: returns_trivial split: list.split)
qed

lemma returns_pop [simp]: "returns (\<lambda>_. True) (pop_values thr k acc st)" "returns (\<lambda>_. True) (pop_arguments thr k pos st)"
proof -
  show 1: "returns (\<lambda>_. True) (pop_values thr k acc st)" for k acc st
    by (induction thr k acc st rule: pop_values.induct) (auto split: list.split option.split)
  show "returns (\<lambda>_. True) (pop_arguments thr k pos st)" by (simp add: pop_arguments_def 1)
qed

lemma returns_steps [simp]:
  "returns (\<lambda>_. True) (visit_data R name ptr pos st)" "returns (\<lambda>_. True) (take_result pos st)" "returns (\<lambda>_. True) (at_id R pos c st)"
  "returns (\<lambda>_. True) (print_data R v st)" "returns (\<lambda>_. True) (set_variable L key v st)" "returns (\<lambda>_. True) (set_loop L k v st)"
  by (auto simp: visit_data_def take_result_def at_id_def print_data_def set_variable_def set_loop_def Let_def
      simp del: returns_bind intro!: returns_trivial split: option.split list.split json.split operation.split sum.split)

lemma returns_loop [simp]:
  "returns (\<lambda>_. True) (enter_loop L move k st)" "returns (\<lambda>_. True) (enter_item L k i vars st)" "returns (\<lambda>_. True) (leave_loop L names st)"
  by (auto simp: enter_loop_def enter_item_def leave_loop_def Let_def
      simp del: returns_bind intro!: returns_trivial split: option.split json.split)

text \<open>Expressions without \<open>super()\<close>, and templates without that, blocks, and other templates.\<close>

fun plain_expr :: "expr \<Rightarrow> bool" where
  "plain_expr (X_function op _ args _ _) \<longleftrightarrow> op \<noteq> Op_Super \<and> list_all plain_expr args"
| "plain_expr _ \<longleftrightarrow> True"

definition plain_node :: "node \<Rightarrow> bool" where
  "plain_node nd \<longleftrightarrow> (case nd of N_include _ _ \<Rightarrow> False | N_extends _ _ \<Rightarrow> False | N_block _ _ _ \<Rightarrow> False | _ \<Rightarrow> True)"

definition plain_template :: "template \<Rightarrow> bool" where
  "plain_template t \<longleftrightarrow> list_all (list_all plain_node) (tp_blocks t) \<and> list_all (\<lambda>e. case e of Some x \<Rightarrow> plain_expr x | None \<Rightarrow> True) (tp_exprs t)"

lemma eval_list_returns:
  "(\<And>e st. e \<in> set es \<Longrightarrow> returns (\<lambda>_. True) (eval n R e st)) \<Longrightarrow> returns (\<lambda>_. True) (eval_list n R es st)"
  by (induction es arbitrary: st) (auto simp del: returns_bind intro!: returns_trivial)

lemma get_arguments_returns:
  assumes "\<And>e st. e \<in> set es \<Longrightarrow> returns (\<lambda>_. True) (eval n R e st)"
  shows "returns (\<lambda>_. True) (get_arguments n R thr start count pos es st)"
proof -
  have "set (take count (drop start es)) \<subseteq> set es" by (meson order_trans set_drop_subset set_take_subset)
  then have "returns (\<lambda>_. True) (eval_list n R (take count (drop start es)) st)" by (intro eval_list_returns assms) blast
  then show ?thesis by (simp del: returns_bind add: returns_trivial)
qed

lemma eval_returns: "plain_expr e \<Longrightarrow> returns (\<lambda>_. True) (eval n R e st)"
proof (induction e arbitrary: st)
  case (X_function op name args cb pos)
  have a: "returns (\<lambda>_. True) (eval n R e s)" if "e \<in> set args" for e s
    using X_function that by (simp add: list_all_iff)
  have g: "returns (\<lambda>_. True) (get_arguments n R thr start count pos args s)" for thr start count s
    by (rule get_arguments_returns [OF a])
  have l: "returns (\<lambda>_. True) (eval_list n R (take 1 (drop 1 args)) s)" for s
    by (rule eval_list_returns, rule a) (meson in_set_dropD in_set_takeD)
  show ?case using X_function.prems
    by (cases op) (auto simp del: returns_bind get_arguments.simps simp: Let_def l [simplified] g
        intro!: returns_trivial split: option.split sum.split)
qed simp_all

lemma eval_root_returns:
  "plain_template t \<Longrightarrow> i < length (tp_exprs t) \<Longrightarrow> returns (\<lambda>_. True) (eval_root n R t i pos st)"
  by (auto simp del: returns_bind simp: plain_template_def list_all_length intro!: returns_trivial eval_returns split: option.split)

lemma visit_items_returns:
  "(\<And>st. returns (\<lambda>_. True) (visit_block n R t b st)) \<Longrightarrow> returns (\<lambda>_. True) (visit_items n R t b k index items st)"
  by (induction items arbitrary: index st) (auto simp del: returns_bind intro!: returns_trivial)

lemma visit_node_returns:
  assumes "plain_template t" "plain_node nd" "node_ok k (length (tp_blocks t)) (length (tp_exprs t)) b nd"
    and "\<And>c st. b < c \<Longrightarrow> c < length (tp_blocks t) \<Longrightarrow> returns (\<lambda>_. True) (visit_block n R t c st)"
  shows "returns (\<lambda>_. True) (visit_node n R t nd st)"
  using assms(2,3) eval_root_returns [OF assms(1), of _ n R] visit_items_returns [OF assms(4)] assms(4)
  by (cases nd) (auto simp: plain_node_def simp del: returns_bind eval_root.simps intro!: returns_trivial split: json.split)

lemma visit_nodes_returns:
  "(\<And>nd st. nd \<in> set nds \<Longrightarrow> returns (\<lambda>_. True) (visit_node n R t nd st)) \<Longrightarrow> returns (\<lambda>_. True) (visit_nodes n R t nds st)"
  by (induction nds arbitrary: st) (auto simp del: returns_bind intro!: returns_trivial)

lemma visit_block_returns:
  assumes "template_ok t" "plain_template t"
  shows "b < length (tp_blocks t) \<Longrightarrow> length (tp_blocks t) - b \<le> n \<Longrightarrow> returns (\<lambda>_. True) (visit_block n R t b st)"
proof (induction n arbitrary: b st)
  case (Suc n)
  have "returns (\<lambda>_. True) (visit_node n R t nd s)" if "nd \<in> set (tp_blocks t ! b)" for nd s
  proof (rule visit_node_returns [OF assms(2)])
    show "plain_node nd" using assms(2) that Suc.prems(1) by (auto simp: plain_template_def list_all_iff)
    show "node_ok (length (tp_content t)) (length (tp_blocks t)) (length (tp_exprs t)) b nd"
      using assms(1) that Suc.prems(1) by (simp add: template_ok_def)
    show "returns (\<lambda>_. True) (visit_block n R t c u)" if "b < c" "c < length (tp_blocks t)" for c u
      using Suc.IH [OF that(2)] Suc.prems that by simp
  qed
  then show ?case by (simp add: visit_nodes_returns)
qed simp


definition small_renderer :: render_env where
  "small_renderer = \<lparr>re_lib = small_lib, re_functions = builtin_functions, re_storage = Map.empty, re_throw_missing = True,
     re_autoescape = False, re_call = (\<lambda>_ _. Inr J_null)\<rparr>"

definition small_template :: template where
  "small_template = \<lparr>tp_content = ''a'', tp_blocks = [[N_if 0 1 2 0], [N_text 0 1], []], tp_exprs = [Some (X_literal (J_bool True) 0)],
     tp_has_false = [], tp_block_storage = Map.empty\<rparr>"


end
