(* ===== verification/Inja_Env.thy ===== *)
theory Inja_Env
  imports Common_Text Inja_Parser Inja_Renderer
begin

text \<open>
  The environment of the template engine (\<open>src/inja/inja.hpp\<close>: \<open>environment.hpp\<close>), which holds the
  functions, the templates and the settings, and passes them to a parser and a renderer. The world around
  it is its libraries, its files, and the callbacks.
\<close>

record world =
  wo_lib :: inja_lib
  wo_files :: file_system
  wo_call :: "callback \<Rightarrow> json list \<Rightarrow> inja_error + json"

record environment =
  en_functions :: function_storage
  en_storage :: template_storage
  en_lexer_config :: lexer_config
  en_search_files :: bool
  en_include_callback :: "(string \<Rightarrow> string \<Rightarrow> inja_error + template) option"
  en_throw_missing :: bool
  en_autoescape :: bool
  en_input_path :: string
  en_output_path :: string

definition make_environment :: "string \<Rightarrow> string \<Rightarrow> environment" where
  "make_environment input_path output_path = \<lparr>en_functions = builtin_functions, en_storage = Map.empty,
     en_lexer_config = default_lexer_config, en_search_files = True, en_include_callback = None,
     en_throw_missing = True, en_autoescape = False, en_input_path = input_path, en_output_path = output_path\<rparr>"

definition set_search_included_templates_in_files :: "bool \<Rightarrow> environment \<Rightarrow> environment" where
  "set_search_included_templates_in_files b e = e\<lparr>en_search_files := b\<rparr>"

definition set_throw_at_missing_includes :: "bool \<Rightarrow> environment \<Rightarrow> environment" where
  "set_throw_at_missing_includes b e = e\<lparr>en_throw_missing := b\<rparr>"

definition set_html_autoescape :: "bool \<Rightarrow> environment \<Rightarrow> environment" where
  "set_html_autoescape b e = e\<lparr>en_autoescape := b\<rparr>"

definition set_include_callback :: "(string \<Rightarrow> string \<Rightarrow> inja_error + template) \<Rightarrow> environment \<Rightarrow> environment" where
  "set_include_callback f e = e\<lparr>en_include_callback := Some f\<rparr>"

definition include_template :: "string \<Rightarrow> template \<Rightarrow> environment \<Rightarrow> environment" where
  "include_template name t e = e\<lparr>en_storage := (en_storage e)(name \<mapsto> t)\<rparr>"

text \<open>The settings of the lexer, which are functions on its configuration.\<close>

definition edit_lexer_config :: "(lexer_config \<Rightarrow> lexer_config) \<Rightarrow> environment \<Rightarrow> environment" where
  "edit_lexer_config f e = e\<lparr>en_lexer_config := f (en_lexer_config e)\<rparr>"

definition env_add_callback :: "string \<Rightarrow> int \<Rightarrow> callback \<Rightarrow> environment \<Rightarrow> environment" where
  "env_add_callback name num_args cb e = e\<lparr>en_functions := storage_add_callback name num_args cb (en_functions e)\<rparr>"

definition env_add_variadic_callback :: "string \<Rightarrow> callback \<Rightarrow> environment \<Rightarrow> environment" where
  "env_add_variadic_callback name cb = env_add_callback name variadic cb"

definition env_parser :: "world \<Rightarrow> environment \<Rightarrow> parser_env" where
  "env_parser W e = \<lparr>pe_lib = wo_lib W, pe_functions = en_functions e, pe_lexer_config = en_lexer_config e,
     pe_search_files = en_search_files e, pe_include_callback = en_include_callback e, pe_open = fs_files (wo_files W)\<rparr>"

definition env_renderer :: "world \<Rightarrow> environment \<Rightarrow> render_env" where
  "env_renderer W e = \<lparr>re_lib = wo_lib W, re_functions = en_functions e, re_storage = en_storage e,
     re_throw_missing = en_throw_missing e, re_autoescape = en_autoescape e, re_call = wo_call W\<rparr>"

text \<open>Parsing keeps the templates it included. \<open>d\<close> bounds how deep they include each other.\<close>

definition env_parse :: "nat \<Rightarrow> world \<Rightarrow> environment \<Rightarrow> string \<Rightarrow> (template \<times> environment) run" where
  "env_parse d W e input =
     bind_run (parse_template_text d (env_parser W e) input (en_input_path e) (en_storage e))
       (\<lambda>(t, storage). R_done (t, e\<lparr>en_storage := storage\<rparr>))"

definition env_parse_template :: "nat \<Rightarrow> world \<Rightarrow> environment \<Rightarrow> string \<Rightarrow> (template \<times> environment) run" where
  "env_parse_template d W e filename =
     (let path = append_path (en_input_path e) filename in
      bind_run (load_file (env_parser W e) path) (\<lambda>text.
        bind_run (parse_into_template d (env_parser W e) path (en_storage e) (new_template text))
          (\<lambda>(t, storage). R_done (t, e\<lparr>en_storage := storage\<rparr>))))"

text \<open>The data become a value of the engine, its objects sorted.\<close>

definition env_render :: "nat \<Rightarrow> world \<Rightarrow> environment \<Rightarrow> template \<Rightarrow> json \<Rightarrow> string run" where
  "env_render n W e t data = render_template n (env_renderer W e) t (to_sorted data)"

text \<open>Rendering a text or a file parses it first, and what that included stays in the environment.\<close>

definition env_render_text :: "nat \<Rightarrow> nat \<Rightarrow> world \<Rightarrow> environment \<Rightarrow> string \<Rightarrow> json \<Rightarrow> (string \<times> environment) run" where
  "env_render_text d n W e input data =
     bind_run (env_parse d W e input) (\<lambda>(t, e1). bind_run (env_render n W e1 t data) (\<lambda>s. R_done (s, e1)))"

definition env_render_file :: "nat \<Rightarrow> nat \<Rightarrow> world \<Rightarrow> environment \<Rightarrow> string \<Rightarrow> json \<Rightarrow> (string \<times> environment) run" where
  "env_render_file d n W e filename data =
     bind_run (env_parse_template d W e filename) (\<lambda>(t, e1). bind_run (env_render n W e1 t data) (\<lambda>s. R_done (s, e1)))"

text \<open>The free function, with an environment of its own.\<close>

definition render_text :: "nat \<Rightarrow> nat \<Rightarrow> world \<Rightarrow> string \<Rightarrow> json \<Rightarrow> string run" where
  "render_text d n W input data = bind_run (env_render_text d n W (make_environment [] []) input data) (\<lambda>(s, _). R_done s)"

definition load_json :: "world \<Rightarrow> environment \<Rightarrow> string \<Rightarrow> json run" where
  "load_json W e filename =
     bind_run (load_file (env_parser W e) (append_path (en_input_path e) filename)) (\<lambda>text.
       case il_parse (wo_lib W) text of Some j \<Rightarrow> R_done j | None \<Rightarrow> raise_fault (wo_lib W) (Jf_parse text))"

definition render_file_with_json_file ::
  "nat \<Rightarrow> nat \<Rightarrow> world \<Rightarrow> environment \<Rightarrow> string \<Rightarrow> string \<Rightarrow> (string \<times> environment) run" where
  "render_file_with_json_file d n W e filename filename_data =
     bind_run (load_json W e filename_data) (env_render_file d n W e filename)"

text \<open>The output is opened, and so emptied, before the text for it is rendered.\<close>

definition put_file :: "string \<Rightarrow> string \<Rightarrow> world \<Rightarrow> world" where
  "put_file path contents W = W\<lparr>wo_files := snd (write_file (wo_files W) path contents)\<rparr>"

definition write_rendered :: "(world \<Rightarrow> (string \<times> environment) run) \<Rightarrow> string \<Rightarrow> world \<Rightarrow> environment run \<times> world" where
  "write_rendered rendered path W =
     (let W1 = put_file path [] W in
      (bind_run (rendered W1) (\<lambda>(_, e1). R_done e1),
       case rendered W1 of R_done (s, _) \<Rightarrow> put_file path s W1 | _ \<Rightarrow> W1))"

definition env_write :: "nat \<Rightarrow> nat \<Rightarrow> environment \<Rightarrow> string \<Rightarrow> json \<Rightarrow> string \<Rightarrow> world \<Rightarrow> environment run \<times> world" where
  "env_write d n e filename data filename_out =
     write_rendered (\<lambda>W. env_render_file d n W e filename data) (append_path (en_output_path e) filename_out)"

definition env_write_template :: "nat \<Rightarrow> environment \<Rightarrow> template \<Rightarrow> json \<Rightarrow> string \<Rightarrow> world \<Rightarrow> environment run \<times> world" where
  "env_write_template n e t data filename_out =
     write_rendered (\<lambda>W. bind_run (env_render n W e t data) (\<lambda>s. R_done (s, e))) (append_path (en_output_path e) filename_out)"

definition with_json_file ::
  "environment \<Rightarrow> string \<Rightarrow> (json \<Rightarrow> world \<Rightarrow> environment run \<times> world) \<Rightarrow> world \<Rightarrow> environment run \<times> world" where
  "with_json_file e filename_data write W =
     (case load_json W e filename_data of
        R_done data \<Rightarrow> write data W
      | m \<Rightarrow> (bind_run m (\<lambda>_. R_done e), W))"

definition write_with_json_file :: "nat \<Rightarrow> nat \<Rightarrow> environment \<Rightarrow> string \<Rightarrow> string \<Rightarrow> string \<Rightarrow> world \<Rightarrow> environment run \<times> world" where
  "write_with_json_file d n e filename filename_data filename_out =
     with_json_file e filename_data (\<lambda>data. env_write d n e filename data filename_out)"

definition write_template_with_json_file :: "nat \<Rightarrow> environment \<Rightarrow> template \<Rightarrow> string \<Rightarrow> string \<Rightarrow> world \<Rightarrow> environment run \<times> world" where
  "write_template_with_json_file n e t filename_data filename_out =
     with_json_file e filename_data (\<lambda>data. env_write_template n e t data filename_out)"

text \<open>A text that cannot be rendered leaves an empty file behind.\<close>

lemma failed_write_empties:
  assumes "env_render n (put_file (append_path (en_output_path e) out) [] W) e t data = R_raised x"
    and "fs_writable (wo_files W) (append_path (en_output_path e) out)"
  shows "fst (env_write_template n e t data out W) = R_raised x
    \<and> fs_files (wo_files (snd (env_write_template n e t data out W))) (append_path (en_output_path e) out) = Some []"
  using assms by (simp add: env_write_template_def write_rendered_def put_file_def write_file_def Let_def)

subsection \<open>Texts without tags\<close>

lemma scan_end: "lx_pos lx = length (lx_in lx) \<Longrightarrow> tok_kind (fst (scan c lx)) = Tk_Eof"
  by (simp add: scan_def emit_def Let_def)

lemma plain_text_parsed:
  assumes "find_open (pe_lexer_config E) input 0 = None" "\<not> starts_with input byte_order_mark" "input \<noteq> []"
  shows "parse_template_text (Suc d) E input path storage
    = R_done (add_node 0 (N_text 0 (length input)) (new_template input), storage)"
proof -
  let ?st = "parse_start storage (new_template input)" and ?t = "\<lparr>tok_kind = Tk_Text, tok_text = input, tok_off = 0\<rparr>"
  let ?lx = "(lexer_start input)\<lparr>lx_pos := length input\<rparr>"
  have s1: "get_next_token E ?st = ?st\<lparr>ps_tok := ?t, ps_lexer := ?lx\<rparr>"
    using plain_text_token [OF assms] by (simp add: get_next_token_def parse_start_def new_template_def)
  have "lx_in ?lx = input" using assms(2) by (simp add: lexer_start_def Let_def)
  then have "tok_kind (fst (scan (pe_lexer_config E) ?lx)) = Tk_Eof" by (intro scan_end) simp
  then have s2: "kind (get_next_token E (s\<lparr>ps_lexer := ?lx, ps_peek := None\<rparr>)) = Tk_Eof" for s
    by (simp add: get_next_token_def split_beta)
  obtain n where n: "length input + 2 = Suc (Suc n)" by simp
  let ?s = "edit_tmpl (add_node 0 (N_text 0 (length input))) (?st\<lparr>ps_tok := ?t, ps_lexer := ?lx\<rparr>)"
  have e: "kind (get_next_token E ?s) = Tk_Eof" using s2 [of ?s] by (simp add: edit_tmpl_def parse_start_def)
  have f: "ps_ifs (get_next_token E ?s) = []" "ps_fors (get_next_token E ?s) = []" "ps_storage (get_next_token E ?s) = storage"
    "ps_tmpl (get_next_token E ?s) = add_node 0 (N_text 0 (length input)) (new_template input)"
    by (simp_all add: get_next_token_def edit_tmpl_def parse_start_def split_beta)
  have c: "tp_content (new_template input) = input" by (simp add: new_template_def)
  have b: "ps_block ?st = 0" by (simp add: parse_start_def)
  show ?thesis
    by (simp add: parse_template_text_def c n s1 parse_part_def b e f Let_def)
qed


subsection \<open>Examples\<close>

definition small_world :: world where
  "small_world = \<lparr>wo_lib = small_lib, wo_files = \<lparr>fs_files = Map.empty, fs_writable = (\<lambda>_. True)\<rparr>, wo_call = (\<lambda>_ vs. Inr (J_int (int (length vs))))\<rparr>"

definition small_env :: environment where
  "small_env = make_environment [] []"

definition small_data :: json where
  "small_data = J_object [(''x'', J_int 5), (''l'', J_array [J_int 1, J_int 2]), (''o'', J_object [(''k'', J_string ''v'')])]"

definition show_text :: "string \<Rightarrow> string run" where
  "show_text input = render_text 2 9 small_world input small_data"


text \<open>Expressions, loops and conditions.\<close>

lemma example_values: "show_text ''{{ 1 + 2 * 3 }} {{ (1+2)*3 }} {{ 2 - 1 - 1 }} {{ upper(\"abc\") }}'' = R_done ''7 9 0 ABC''"
  by code_simp

lemma example_loop: "show_text ''{% for y in l %}{{ loop.index }}:{{ y }},{% endfor %}{% for k, v in o %}{{ k }}={{ v }}{% endfor %}'' = R_done ''0:1,1:2,k=v''"
  by code_simp

lemma example_if: "show_text ''{% if x > 7 %}big{% else if x > 2 %}mid{% else %}small{% endif %}!'' = R_done ''mid!''"
  by code_simp

text \<open>A variable of a loop is emptied behind it, not taken away: one of the data of the same name stays hidden
  (\<open>x\<close> is 5 there).\<close>

lemma loop_hides_variable: "show_text ''{% for x in l %}{% endfor %}{{ x }}'' = R_done ''0''"
  by code_simp

text \<open>The data of a loop stay behind it, so the next one has a \<open>parent\<close> though it is in no loop.\<close>

lemma loop_keeps_parent: "show_text ''{% for y in l %}{% endfor %}{% for y in l %}{{ loop.parent.index }}{% endfor %}'' = R_done ''11''"
  by code_simp

text \<open>Statements that are closed in the wrong order are accepted, and what follows them is in the body of
  the loop; a block that is not closed is accepted too.\<close>

lemma misnested_accepted: "show_text ''{% for y in l %}{% if x %}{% endfor %}{% endif %}A'' = R_done ''AA''"
  by code_simp

lemma open_block_accepted: "show_text ''{% block a %}b'' = R_done ''b''"
  by code_simp

text \<open>Templates that run into undefined behaviour: a pipe without a value, a remainder by zero, a capital of the
  empty string, and an element of a variable that is not there.\<close>

lemma pipe_undefined: "show_text ''{{ | upper }}'' = R_undefined"
  by code_simp

lemma modulo_undefined: "show_text ''{{ 1 % 0 }}'' = R_undefined"
  by code_simp

lemma capitalize_undefined: "show_text ''{{ capitalize(\"\") }}'' = R_undefined"
  by code_simp

lemma element_undefined: "show_text ''{{ (nope).k }}'' = R_undefined"
  by code_simp

text \<open>An element is not found when a variable has its name.\<close>

lemma element_hidden: "show_text ''{{ (o).k }}'' = R_done ''v''" "\<not> returns (\<lambda>_. False) (show_text ''{{ (o).k }}'') \<and> returns (\<lambda>_. False) (show_text ''{{ (o).x }}'')"
  by code_simp+

text \<open>Behind a block inside a block the text is taken from the wrong template: here \<open>Z\<close> is lost, and the
  parent shows a piece of its own at that place.\<close>

definition parent_text :: string where
  "parent_text = ''P{% block a %}p{% endblock %}0123456789012345678901234567890123456789012345678901234567890123456789''"

definition nested_env :: environment where
  "nested_env = (case env_parse 2 small_world small_env parent_text of
     R_done (t, _) \<Rightarrow> include_template ''base'' t small_env | _ \<Rightarrow> small_env)"

definition nested_text :: string where
  "nested_text = ''{% extends \"base\" %}{% block a %}X{% block b %}Y{% endblock %}Z{% endblock %}''"

lemma wrong_template_text: "bind_run (env_render_text 2 9 small_world nested_env nested_text small_data) (\<lambda>(s, _). R_done s)
   = R_done ''PXY30123456789012345678901234567890123456789012345678901234567890123456789''"
  by code_simp

end
