(* ===== verification/Yaml_Doc.thy ===== *)
theory Yaml_Doc
  imports Prelude
begin

text \<open>
  Access to a YAML document (\<open>src/dbgen4/parser/parse_yaml.hpp\<close>, \<open>parse_yaml.cpp\<close>) and the text
  of its errors. The library yaml-cpp is the parameter \<open>yaml_lib\<close> together with the node type:
  what its documentation says of \<open>operator[]\<close>, \<open>as<T>\<close> and the exceptions they throw. A getter
  returns its value and the lines it logged at error level.
\<close>

subsection \<open>Nodes\<close>

datatype ynode = YNode (y_line: int) (y_column: int) (y_content: ycontent)
and ycontent = Y_null | Y_scalar string | Y_sequence "ynode list" | Y_map "(ynode \<times> ynode) list"

record yaml_exception =
  ex_msg :: string
  ex_line :: int
  ex_column :: int

text \<open>What is left open: the texts of the two exceptions, the conversion of a scalar to a number, and
  the lines of a file (none if it cannot be opened).\<close>

record yaml_lib =
  yl_bad_subscript :: "string \<Rightarrow> string"
  yl_bad_conversion :: string
  yl_as_size :: "string \<Rightarrow> nat option"
  yl_lines :: "string \<Rightarrow> string list"

definition is_null :: "ynode \<Rightarrow> bool" where
  "is_null n = (case y_content n of Y_null \<Rightarrow> True | _ \<Rightarrow> False)"

definition is_scalar_node :: "ynode \<Rightarrow> bool" where
  "is_scalar_node n = (case y_content n of Y_scalar _ \<Rightarrow> True | _ \<Rightarrow> False)"

definition is_sequence_node :: "ynode \<Rightarrow> bool" where
  "is_sequence_node n = (case y_content n of Y_sequence _ \<Rightarrow> True | _ \<Rightarrow> False)"

definition is_map_node :: "ynode \<Rightarrow> bool" where
  "is_map_node n = (case y_content n of Y_map _ \<Rightarrow> True | _ \<Rightarrow> False)"

text \<open>\<open>node[key]\<close>: the value of the first entry with that key; nothing on a null or a sequence, an
  exception on a scalar.\<close>

definition subscript :: "yaml_lib \<Rightarrow> ynode \<Rightarrow> string \<Rightarrow> yaml_exception + ynode option" where
  "subscript lib n key =
     (case y_content n of
        Y_map es \<Rightarrow> Inr (map_option snd (find (\<lambda>(k, v). y_content k = Y_scalar key) es))
      | Y_scalar _ \<Rightarrow> Inl \<lparr>ex_msg = yl_bad_subscript lib key, ex_line = y_line n, ex_column = y_column n\<rparr>
      | _ \<Rightarrow> Inr None)"

definition bad_conversion :: "yaml_lib \<Rightarrow> ynode \<Rightarrow> yaml_exception" where
  "bad_conversion lib n = \<lparr>ex_msg = yl_bad_conversion lib, ex_line = y_line n, ex_column = y_column n\<rparr>"

definition as_string :: "yaml_lib \<Rightarrow> ynode \<Rightarrow> yaml_exception + string" where
  "as_string lib n =
     (case y_content n of Y_scalar t \<Rightarrow> Inr t | Y_null \<Rightarrow> Inr ''null'' | _ \<Rightarrow> Inl (bad_conversion lib n))"

definition as_size :: "yaml_lib \<Rightarrow> ynode \<Rightarrow> yaml_exception + nat" where
  "as_size lib n =
     (case y_content n of
        Y_scalar t \<Rightarrow> (case yl_as_size lib t of Some v \<Rightarrow> Inr v | None \<Rightarrow> Inl (bad_conversion lib n))
      | _ \<Rightarrow> Inl (bad_conversion lib n))"

subsection \<open>Errors\<close>

record yaml_error =
  ye_message :: string
  ye_line :: int
  ye_column :: int
  ye_filename :: string

abbreviation esc :: string where
  "esc \<equiv> [CHR 0x1B]"

text \<open>One line of the excerpt; the pad is the difference of two sizes.\<close>

definition excerpt_line :: "nat \<Rightarrow> int \<Rightarrow> int \<Rightarrow> string list \<Rightarrow> nat \<Rightarrow> string" where
  "excerpt_line width cur_idx column lines i =
     (let num = dec (i + 1); pad = fill (width - length num) in
      if int i = cur_idx
      then esc @ ''[1;37m'' @ pad @ num @ '' '' @ esc @ ''[1;31m>'' @ esc @ ''[0m '' @ lines ! i @ nl
         @ fill (if column > 0 then nat (column - 1) else 0) @ esc @ ''[1;31m^ here'' @ esc @ ''[0m'' @ nl
      else esc @ ''[2m'' @ pad @ num @ ''  '' @ esc @ ''[0m '' @ lines ! i @ nl)"

definition excerpt_start :: "int \<Rightarrow> int" where
  "excerpt_start cur_idx = max 0 (cur_idx - 3)"

definition excerpt_end :: "int \<Rightarrow> string list \<Rightarrow> int" where
  "excerpt_end cur_idx lines = min (int (length lines)) (cur_idx + 4)"

definition error_to_string :: "yaml_lib \<Rightarrow> yaml_error \<Rightarrow> string" where
  "error_to_string lib e =
     (if ye_line e \<le> 0 \<or> ye_filename e = []
      then esc @ ''[1;31mYAML error'' @ esc @ ''[0m''
         @ (if ye_filename e \<noteq> [] then '' in '' @ ye_filename e else [])
         @ '':'' @ nl @ ''  '' @ ye_message e @ nl
      else
        let lines = yl_lines lib (ye_filename e);
            hdr = esc @ ''[1;31mYAML error in '' @ ye_filename e @ '' at '' @ dec_int (ye_line e) @ '':''
                  @ dec_int (ye_column e)
        in if lines = [] then hdr @ '' :'' @ esc @ ''[0m'' @ nl @ ye_message e @ nl
           else
             let cur_idx = ye_line e - 1;
                 start = nat (excerpt_start cur_idx);
                 stop = nat (excerpt_end cur_idx lines);
                 width = length (dec_int (excerpt_end cur_idx lines))
             in hdr @ '':'' @ esc @ ''[0m'' @ nl @ '' '' @ ye_message e @ nl @ nl
                @ concat (map (excerpt_line width cur_idx (ye_column e) lines) [start..<stop]) @ nl)"

subsection \<open>The document\<close>

record parse_yaml =
  py_root :: ynode
  py_filename :: string

definition make_missing_key_error :: "parse_yaml \<Rightarrow> string \<Rightarrow> yaml_error" where
  "make_missing_key_error d key =
     \<lparr>ye_message = ''Missing required key: '' @ quoted key, ye_line = y_line (py_root d),
      ye_column = y_column (py_root d), ye_filename = py_filename d\<rparr>"

text \<open>\<open>load\<close> and \<open>load_from_string\<close>, on what the library answers.\<close>

definition load_yaml :: "yaml_exception + ynode \<Rightarrow> string \<Rightarrow> yaml_error + parse_yaml" where
  "load_yaml answer name =
     (case answer of
        Inl e \<Rightarrow> Inl \<lparr>ye_message = ex_msg e, ye_line = ex_line e, ye_column = ex_column e, ye_filename = name\<rparr>
      | Inr n \<Rightarrow> Inr \<lparr>py_root = n, py_filename = name\<rparr>)"

definition conversion_error :: "parse_yaml \<Rightarrow> string \<Rightarrow> yaml_exception \<Rightarrow> yaml_error" where
  "conversion_error d key e =
     \<lparr>ye_message = ''Failed to convert key '' @ quoted key @ '' : msg: '' @ quoted (ex_msg e),
      ye_line = ex_line e, ye_column = ex_column e, ye_filename = py_filename d\<rparr>"

definition get ::
  "yaml_lib \<Rightarrow> (ynode \<Rightarrow> yaml_exception + 'a) \<Rightarrow> parse_yaml \<Rightarrow> string \<Rightarrow> (yaml_error + 'a) \<times> string list" where
  "get lib conv d key =
     (case (case subscript lib (py_root d) key of
              Inl e \<Rightarrow> Inl e
            | Inr None \<Rightarrow> Inr None
            | Inr (Some n) \<Rightarrow> if is_null n then Inr None else map_sum id Some (conv n)) of
        Inl e \<Rightarrow> (Inl (conversion_error d key e), [error_to_string lib (conversion_error d key e)])
      | Inr None \<Rightarrow> (Inl (make_missing_key_error d key), [])
      | Inr (Some v) \<Rightarrow> (Inr v, []))"

definition get_or ::
  "yaml_lib \<Rightarrow> (ynode \<Rightarrow> yaml_exception + 'a) \<Rightarrow> parse_yaml \<Rightarrow> string \<Rightarrow> 'a \<Rightarrow> 'a \<times> string list" where
  "get_or lib conv d key deflt =
     (case get lib conv d key of (Inl e, l) \<Rightarrow> (deflt, l) | (Inr v, l) \<Rightarrow> (v, l))"

text \<open>The value at a key that is there and not null; an exception counts as absence.\<close>

definition node_at :: "yaml_lib \<Rightarrow> parse_yaml \<Rightarrow> string \<Rightarrow> ynode option" where
  "node_at lib d key =
     (case subscript lib (py_root d) key of
        Inr (Some n) \<Rightarrow> if is_null n then None else Some n
      | _ \<Rightarrow> None)"

definition exists_key :: "yaml_lib \<Rightarrow> parse_yaml \<Rightarrow> string \<Rightarrow> bool" where
  "exists_key lib d key \<longleftrightarrow> node_at lib d key \<noteq> None"

definition is_map :: "yaml_lib \<Rightarrow> parse_yaml \<Rightarrow> string \<Rightarrow> bool" where
  "is_map lib d key = (case node_at lib d key of Some n \<Rightarrow> is_map_node n | None \<Rightarrow> False)"

definition is_sequence :: "yaml_lib \<Rightarrow> parse_yaml \<Rightarrow> string \<Rightarrow> bool" where
  "is_sequence lib d key = (case node_at lib d key of Some n \<Rightarrow> is_sequence_node n | None \<Rightarrow> False)"

definition is_scalar :: "yaml_lib \<Rightarrow> parse_yaml \<Rightarrow> string \<Rightarrow> bool" where
  "is_scalar lib d key = (case node_at lib d key of Some n \<Rightarrow> is_scalar_node n | None \<Rightarrow> False)"

definition error_at :: "parse_yaml \<Rightarrow> ynode \<Rightarrow> string \<Rightarrow> yaml_error" where
  "error_at d n msg = \<lparr>ye_message = msg, ye_line = y_line n, ye_column = y_column n, ye_filename = py_filename d\<rparr>"

definition logged :: "yaml_lib \<Rightarrow> yaml_error \<Rightarrow> (yaml_error + 'a) \<times> string list" where
  "logged lib e = (Inl e, [error_to_string lib e])"

definition get_seq_of_strings :: "yaml_lib \<Rightarrow> parse_yaml \<Rightarrow> string \<Rightarrow> (yaml_error + string list) \<times> string list" where
  "get_seq_of_strings lib d key =
     (case node_at lib d key of
        None \<Rightarrow> (Inl (make_missing_key_error d key), [])
      | Some n \<Rightarrow>
          (case y_content n of
             Y_sequence items \<Rightarrow>
               if list_all is_scalar_node items
               then (Inr (map (\<lambda>i. case y_content i of Y_scalar t \<Rightarrow> t | _ \<Rightarrow> []) items), [])
               else logged lib (error_at d n (''Key '' @ quoted key @ '' is not a sequence''))
           | _ \<Rightarrow> logged lib (error_at d n (''Key '' @ quoted key @ '' is not a sequence''))))"

definition get_seq_of_strings_or :: "yaml_lib \<Rightarrow> parse_yaml \<Rightarrow> string \<Rightarrow> string list \<Rightarrow> string list \<times> string list" where
  "get_seq_of_strings_or lib d key deflt =
     (case get_seq_of_strings lib d key of (Inl e, l) \<Rightarrow> (deflt, l) | (Inr v, l) \<Rightarrow> (v, l))"

text \<open>The loop over the items of a sequence of maps, from index \<open>i\<close>.\<close>

fun maps_from ::
  "yaml_lib \<Rightarrow> parse_yaml \<Rightarrow> string \<Rightarrow> nat \<Rightarrow> ynode list \<Rightarrow> (yaml_error + parse_yaml list) \<times> string list" where
  "maps_from lib d key i [] = (Inr [], [])"
| "maps_from lib d key i (item # items) =
     (if \<not> is_map_node item
      then logged lib (error_at d item (''Item '' @ dec i @ '' in sequence '' @ quoted key @ '' is not a map''))
      else case maps_from lib d key (Suc i) items of
             (Inl e, l) \<Rightarrow> (Inl e, l)
           | (Inr ds, l) \<Rightarrow>
               (Inr (\<lparr>py_root = item, py_filename = py_filename d @ ''.'' @ key @ ''['' @ dec i @ '']''\<rparr> # ds), l))"

definition get_seq_of_maps :: "yaml_lib \<Rightarrow> parse_yaml \<Rightarrow> string \<Rightarrow> (yaml_error + parse_yaml list) \<times> string list" where
  "get_seq_of_maps lib d key =
     (case node_at lib d key of
        None \<Rightarrow> (Inl (make_missing_key_error d key), [])
      | Some n \<Rightarrow>
          (case y_content n of
             Y_sequence items \<Rightarrow> maps_from lib d key 0 items
           | _ \<Rightarrow> logged lib (error_at d n (''Key '' @ quoted key @ '' is not a sequence of maps''))))"

definition get_seq_of_maps_or :: "yaml_lib \<Rightarrow> parse_yaml \<Rightarrow> string \<Rightarrow> parse_yaml list \<Rightarrow> parse_yaml list \<times> string list" where
  "get_seq_of_maps_or lib d key deflt =
     (case get_seq_of_maps lib d key of (Inl e, l) \<Rightarrow> (deflt, l) | (Inr v, l) \<Rightarrow> (v, l))"

text \<open>The map of column names to widths: later entries overwrite earlier ones, a malformed entry is
  logged and skipped.\<close>

definition size_entry :: "yaml_lib \<Rightarrow> ynode \<times> ynode \<Rightarrow> yaml_exception + string \<times> nat" where
  "size_entry lib kv = bind_result (as_size lib (snd kv)) (\<lambda>v.
     bind_result (as_string lib (fst kv)) (\<lambda>name. Inr (name, v)))"

fun sizes_from ::
  "yaml_lib \<Rightarrow> string \<Rightarrow> (ynode \<times> ynode) list \<Rightarrow> (string \<rightharpoonup> nat) \<Rightarrow> (string \<rightharpoonup> nat) \<times> string list" where
  "sizes_from lib key [] m = (m, [])"
| "sizes_from lib key (kv # kvs) m =
     (case size_entry lib kv of
        Inr (name, v) \<Rightarrow> sizes_from lib key kvs (m(name \<mapsto> v))
      | Inl e \<Rightarrow> (let (m', l) = sizes_from lib key kvs m in
          (m', (''Entry of '' @ quoted key @ '' is not a name to length pair: '' @ ex_msg e) # l)))"

definition get_map_of_sizes_or :: "yaml_lib \<Rightarrow> parse_yaml \<Rightarrow> string \<Rightarrow> (string \<rightharpoonup> nat) \<times> string list" where
  "get_map_of_sizes_or lib d key =
     (case node_at lib d key of
        None \<Rightarrow> (Map.empty, [])
      | Some n \<Rightarrow>
          (case y_content n of
             Y_map es \<Rightarrow> sizes_from lib key es Map.empty
           | _ \<Rightarrow> (Map.empty, [''Key '' @ quoted key @ '' is not a map of name to length - ignored.''])))"

definition get_map :: "yaml_lib \<Rightarrow> parse_yaml \<Rightarrow> string \<Rightarrow> yaml_error + parse_yaml" where
  "get_map lib d key =
     (case node_at lib d key of
        None \<Rightarrow> Inl (make_missing_key_error d key)
      | Some n \<Rightarrow>
          if is_map_node n then Inr \<lparr>py_root = n, py_filename = py_filename d @ ''.'' @ key\<rparr>
          else Inl (error_at d n (''Key '' @ quoted key @ '' is not member of map/object'')))"

subsection \<open>Properties\<close>

lemma length_dec_mono: "m \<le> n \<Longrightarrow> length (dec m) \<le> length (dec n)"
proof (induction n arbitrary: m rule: dec.induct)
  case (1 n)
  show ?case
  proof (cases "m < 10")
    case True
    then show ?thesis by (subst (1) dec.simps, subst dec.simps) simp
  next
    case False
    then have "length (dec (m div 10)) \<le> length (dec (n div 10))" using 1 by (simp add: div_le_mono)
    with False 1(2) show ?thesis by (subst (1) dec.simps, subst (2) dec.simps) simp
  qed
qed

text \<open>the excerpt an error shows never reads outside the file and its column of line numbers never
  underflows, wherever the error is said to be, even past the end of the file; when the line is
  inside the file, the line that is pointed at is the one with that number counted from one.\<close>

theorem error_excerpt_in_bounds:
  assumes "0 < line" "lines \<noteq> []"
  shows "list_all (\<lambda>i. i < length lines \<and> length (dec (i + 1)) \<le> length (dec_int (excerpt_end (line - 1) lines)))
      [nat (excerpt_start (line - 1))..<nat (excerpt_end (line - 1) lines)]
    \<and> (line \<le> int (length lines) \<longrightarrow>
        filter (\<lambda>i. int i = line - 1) [nat (excerpt_start (line - 1))..<nat (excerpt_end (line - 1) lines)] = [nat line - 1])"
proof
  have pos: "0 < excerpt_end (line - 1) lines" using assms by (cases lines) (auto simp: excerpt_end_def)
  then have d: "dec_int (excerpt_end (line - 1) lines) = dec (nat (excerpt_end (line - 1) lines))"
    by (simp add: dec_int_def)
  show "list_all (\<lambda>i. i < length lines \<and> length (dec (i + 1)) \<le> length (dec_int (excerpt_end (line - 1) lines)))
      [nat (excerpt_start (line - 1))..<nat (excerpt_end (line - 1) lines)]"
    unfolding d by (auto simp: list_all_iff excerpt_end_def intro!: length_dec_mono)
  have "filter (\<lambda>i. i = m) [a..<b] = [m]" if "a \<le> m" "m < b" for a b m :: nat
    using that by (induction b) (auto simp: less_Suc_eq)
  moreover have "(\<lambda>i. int i = line - 1) = (\<lambda>i. i = nat line - 1)" using assms(1) by (auto simp: fun_eq_iff)
  ultimately show "line \<le> int (length lines) \<longrightarrow>
      filter (\<lambda>i. int i = line - 1) [nat (excerpt_start (line - 1))..<nat (excerpt_end (line - 1) lines)] = [nat line - 1]"
    using assms by (auto simp: excerpt_start_def excerpt_end_def)
qed

theorem error_excerpt_in_bounds_witness:
  "list_all (\<lambda>i. i < length [''a'', ''b''] \<and> length (dec (i + 1)) \<le> length (dec_int (excerpt_end (9 - 1) [''a'', ''b''])))
      [nat (excerpt_start (9 - 1))..<nat (excerpt_end (9 - 1) [''a'', ''b''])]"
  using error_excerpt_in_bounds [of 9 "[''a'', ''b'']"] by simp

text \<open>How the getters depend on the node at a key.\<close>

lemma get_scalar:
  "node_at lib d key = Some n \<Longrightarrow> conv n = Inr v \<Longrightarrow> get lib conv d key = (Inr v, [])"
  by (auto simp: node_at_def get_def split: sum.splits option.splits if_splits)

lemma get_or_missing: "node_at lib d key = None \<Longrightarrow> fst (get_or lib conv d key v) = v"
  by (auto simp: node_at_def get_or_def get_def split: sum.splits option.splits if_splits)

lemma get_missing: "node_at lib d key = None \<Longrightarrow> \<exists>e l. get lib conv d key = (Inl e, l)"
  by (auto simp: node_at_def get_def split: sum.splits option.splits if_splits)

lemma get_map_of_is_map: "is_map lib d key \<Longrightarrow> \<exists>d'. get_map lib d key = Inr d'"
  by (auto simp: is_map_def get_map_def split: option.splits)

lemma length_maps_from: "maps_from lib d key i items = (Inr ds, l) \<Longrightarrow> length ds = length items \<and> map py_root ds = items \<and> l = []"
  by (induction lib d key i items arbitrary: ds l rule: maps_from.induct)
     (auto simp: logged_def split: if_splits prod.splits sum.splits)

end
