(* ===== verification/Data_Statements.thy ===== *)
theory Data_Statements
  imports Common_Text Rtl_Core "HOL-Library.List_Lexorder" "HOL-Library.Char_ord"
begin

text \<open>
  The description of one statement (\<open>src/dbgen4/parser/data_statement.hpp\<close>, \<open>data_statement.cpp\<close>,
  \<open>sql_col_def.hpp\<close>) and of the statements of one file (\<open>data_statements.hpp\<close>,
  \<open>data_statements.cpp\<close>). A \<open>std::map\<close> over strings is an association list in the order of its
  keys; what its users rely on is the locale \<open>ordered_map\<close>.
\<close>

subsection \<open>Ordered maps\<close>

text \<open>\<open>emplace\<close> leaves an existing entry alone and tells whether it inserted; \<open>overwrite\<close> is the
  assignment through the iterator that \<open>try_emplace\<close> returned.\<close>

fun emplace :: "'k::linorder \<Rightarrow> 'v \<Rightarrow> ('k \<times> 'v) list \<Rightarrow> ('k \<times> 'v) list \<times> bool" where
  "emplace k v [] = ([(k, v)], True)"
| "emplace k v ((k', v') # ps) =
     (if k < k' then ((k, v) # (k', v') # ps, True)
      else if k = k' then ((k', v') # ps, False)
      else let (qs, inserted) = emplace k v ps in ((k', v') # qs, inserted))"

definition overwrite :: "'k \<Rightarrow> 'v \<Rightarrow> ('k \<times> 'v) list \<Rightarrow> ('k \<times> 'v) list" where
  "overwrite k v ps = map (\<lambda>(k', v'). (k', if k' = k then v else v')) ps"

definition in_order :: "('k::linorder \<times> 'v) list \<Rightarrow> bool" where
  "in_order ps \<longleftrightarrow> sorted_wrt (<) (map fst ps)"

locale ordered_map =
  fixes lookup :: "'m \<Rightarrow> 'k::linorder \<Rightarrow> 'v option"
    and insert_new :: "'k \<Rightarrow> 'v \<Rightarrow> 'm \<Rightarrow> 'm \<times> bool"
    and assign :: "'k \<Rightarrow> 'v \<Rightarrow> 'm \<Rightarrow> 'm"
    and entries :: "'m \<Rightarrow> ('k \<times> 'v) list"
    and invar :: "'m \<Rightarrow> bool"
  assumes insert_new_lookup: "invar m \<Longrightarrow>
      lookup (fst (insert_new k v m)) = (if lookup m k = None then (lookup m)(k \<mapsto> v) else lookup m)"
    and insert_new_told: "invar m \<Longrightarrow> snd (insert_new k v m) \<longleftrightarrow> lookup m k = None"
    and insert_new_invar: "invar m \<Longrightarrow> invar (fst (insert_new k v m))"
    and assign_lookup: "invar m \<Longrightarrow> lookup m k \<noteq> None \<Longrightarrow> lookup (assign k v m) = (lookup m)(k \<mapsto> v)"
    and assign_invar: "invar m \<Longrightarrow> invar (assign k v m)"
    and entries_lookup: "invar m \<Longrightarrow> map_of (entries m) = lookup m"
    and entries_ordered: "invar m \<Longrightarrow> in_order (entries m)"
begin

lemma keys_distinct: "invar m \<Longrightarrow> distinct (map fst (entries m))"
  using entries_ordered [of m] by (auto simp: in_order_def strict_sorted_iff)

lemma entries_keys: "invar m \<Longrightarrow> fst ` set (entries m) = dom (lookup m)"
  by (simp add: entries_lookup [symmetric] dom_map_of_conv_image_fst)

text \<open>Insertion that assigns when the key is taken always stores the value.\<close>

lemma upsert:
  assumes "invar m"
  shows "invar (if snd (insert_new k v m) then fst (insert_new k v m) else assign k v (fst (insert_new k v m)))"
    and "lookup (if snd (insert_new k v m) then fst (insert_new k v m) else assign k v (fst (insert_new k v m)))
       = (lookup m)(k \<mapsto> v)"
  using assms assign_lookup [of "fst (insert_new k v m)" k v]
  by (simp_all add: insert_new_invar assign_invar insert_new_told insert_new_lookup)

end

lemma emplace_told: "in_order ps \<Longrightarrow> snd (emplace k v ps) \<longleftrightarrow> map_of ps k = None"
  by (induction k v ps rule: emplace.induct)
     (auto simp: in_order_def split_beta Let_def map_of_eq_None_iff)

lemma emplace_keys: "fst ` set (fst (emplace k v ps)) = insert k (fst ` set ps)"
  by (induction k v ps rule: emplace.induct) (auto simp: split_beta Let_def)

lemma emplace_in_order: "in_order ps \<Longrightarrow> in_order (fst (emplace k v ps))"
proof (induction k v ps rule: emplace.induct)
  case (2 k v k' v' ps)
  then show ?case
    using emplace_keys [of k v ps] by (fastforce simp: in_order_def split_beta Let_def)
qed (simp add: in_order_def)

lemma emplace_lookup:
  "in_order ps \<Longrightarrow> map_of (fst (emplace k v ps)) = (if map_of ps k = None then (map_of ps)(k \<mapsto> v) else map_of ps)"
proof (induction k v ps rule: emplace.induct)
  case (2 k v k' v' ps)
  show ?case
  proof (cases "k < k'")
    case True
    then have "map_of ps k = None" using "2.prems" by (force simp: in_order_def map_of_eq_None_iff)
    with True show ?thesis by (auto simp: fun_eq_iff)
  next
    case False
    with 2 show ?thesis by (auto simp: in_order_def split_beta Let_def fun_eq_iff)
  qed
qed auto

lemma overwrite_keys [simp]: "map fst (overwrite k v ps) = map fst ps"
  by (simp add: overwrite_def comp_def split_beta)

lemma overwrite_lookup: "map_of ps k \<noteq> None \<Longrightarrow> map_of (overwrite k v ps) = (map_of ps)(k \<mapsto> v)"
proof (induction ps)
  case (Cons p ps)
  have "map_of (overwrite k v ps) = (\<lambda>x. if x = k then map_option (\<lambda>_. v) (map_of ps k) else map_of ps x)"
    by (induction ps) (auto simp: overwrite_def fun_eq_iff)
  with Cons show ?case by (cases p) (auto simp: overwrite_def fun_eq_iff)
qed simp

lemma overwrite_in_order: "in_order ps \<Longrightarrow> in_order (overwrite k v ps)"
  by (simp add: in_order_def)

lemma same_keys_same_order:
  assumes "in_order ps" "in_order qs" "fst ` set ps = fst ` set qs"
  shows "map fst ps = map fst qs"
  using assms by (auto simp: in_order_def strict_sorted_iff intro!: sorted_distinct_set_unique)

interpretation std_map: ordered_map map_of emplace overwrite id in_order
  by unfold_locales
     (simp_all add: emplace_lookup emplace_told emplace_in_order overwrite_lookup overwrite_in_order)

subsection \<open>One column, one statement\<close>

record sql_col_def =
  cd_position :: u16
  cd_name :: string
  cd_type :: sql_type
  cd_nullable :: bool

definition default_sql_col_def :: sql_col_def where
  "default_sql_col_def = \<lparr>cd_position = 0, cd_name = [], cd_type = st_unknown, cd_nullable = True\<rparr>"

record data_statement =
  ds_id :: string
  ds_sql :: string
  ds_before_sql :: string
  ds_after_sql :: string
  ds_summary :: string
  ds_dscr :: string
  ds_par_buf_size :: nat
  ds_res_buf_size :: nat
  ds_results :: meta_vec
  ds_params :: meta_vec
  ds_result_names :: "string list"
  ds_param_names :: "string list"
  ds_field_len :: "string \<rightharpoonup> nat"

definition default_data_statement :: data_statement where
  "default_data_statement = \<lparr>ds_id = [], ds_sql = [], ds_before_sql = [], ds_after_sql = [], ds_summary = [],
     ds_dscr = [], ds_par_buf_size = 1, ds_res_buf_size = 1, ds_results = [], ds_params = [],
     ds_result_names = [], ds_param_names = [], ds_field_len = Map.empty\<rparr>"

definition set_sql :: "string \<Rightarrow> data_statement \<Rightarrow> data_statement" where
  "set_sql sql s = s\<lparr>ds_sql := trim_whitespace_view sql\<rparr>"

definition set_before_sql :: "string \<Rightarrow> data_statement \<Rightarrow> data_statement" where
  "set_before_sql sql s = s\<lparr>ds_before_sql := trim_whitespace_view sql\<rparr>"

definition set_after_sql :: "string \<Rightarrow> data_statement \<Rightarrow> data_statement" where
  "set_after_sql sql s = s\<lparr>ds_after_sql := trim_whitespace_view sql\<rparr>"

text \<open>The names of the file over the names of the database, as far as both lists go.\<close>

definition rename :: "string list \<Rightarrow> meta_vec \<Rightarrow> meta_vec" where
  "rename names v =
     (let len = min (length names) (length v) in
      map (\<lambda>i. if i < len then (v ! i)\<lparr>md_name := names ! i\<rparr> else v ! i) [0..<length v])"

definition push_column_names :: "data_statement \<Rightarrow> data_statement" where
  "push_column_names s = s\<lparr>ds_params := rename (ds_param_names s) (ds_params s),
     ds_results := rename (ds_result_names s) (ds_results s)\<rparr>"

definition is_string_cat :: "sql_type \<Rightarrow> bool" where
  "is_string_cat t = (let cat = sm_category (get_sql_mapping t) in cat = cat_c_string \<or> cat = cat_w_string \<or> cat = cat_b_string)"

text \<open>\<open>settle\<close> on one column: the column and the warning it leaves.\<close>

definition settle_column :: "(string \<rightharpoonup> nat) \<Rightarrow> nat \<Rightarrow> meta_dscr \<Rightarrow> meta_dscr \<times> string list" where
  "settle_column field_len fallback col =
     (case field_len (md_name col) of
        Some n \<Rightarrow>
          if \<not> is_string_cat (md_type col)
          then (col, [''field-len for '' @ quoted (md_name col)
                 @ '' ignored: the column is not a string, its width follows from its type.''])
          else (col\<lparr>md_size := of_nat n\<rparr>, [])
      | None \<Rightarrow>
          if is_string_cat (md_type col) \<and> md_size col = 0 then (col\<lparr>md_size := of_nat fallback\<rparr>, [])
          else (col, []))"

definition settle :: "(string \<rightharpoonup> nat) \<Rightarrow> nat \<Rightarrow> meta_vec \<Rightarrow> meta_vec \<times> string list" where
  "settle field_len fallback v =
     (map (fst \<circ> settle_column field_len fallback) v, concat (map (snd \<circ> settle_column field_len fallback) v))"

definition apply_field_len :: "nat \<Rightarrow> data_statement \<Rightarrow> data_statement \<times> string list" where
  "apply_field_len fallback s =
     (let (res, w1) = settle (ds_field_len s) fallback (ds_results s);
          (par, w2) = settle (ds_field_len s) fallback (ds_params s)
      in (s\<lparr>ds_results := res, ds_params := par\<rparr>, w1 @ w2))"

subsection \<open>Dumps\<close>

type_synonym dump_cells = "string \<times> string \<times> string \<times> string"

definition stmt_dump_line :: "string \<Rightarrow> dump_cells \<Rightarrow> dump_cells \<Rightarrow> string" where
  "stmt_dump_line padding = (\<lambda>(ndx, name, type, mnemonic) (native, sz, digits, nullable).
     padding @ align_right 3 ndx @ '' '' @ align_left 20 name @ '' '' @ align_left 18 type
     @ '' '' @ align_left 20 mnemonic @ '' '' @ align_right 9 native @ '' '' @ align_right 4 sz
     @ '' '' @ align_right 6 digits @ '' '' @ align_center 8 nullable @ nl)"

definition stmt_dump_meta_vector :: "(sql_type \<Rightarrow> string) \<Rightarrow> nat \<Rightarrow> string \<Rightarrow> meta_vec \<Rightarrow> string" where
  "stmt_dump_meta_vector enum_name offs header v =
     (if v = [] then []
      else header @ concat (map (\<lambda>col. stmt_dump_line (fill offs)
        (dec_int (sint (md_index col)), md_name col, enum_name (md_type col), sm_mnemonic (get_sql_mapping (md_type col)))
        (dec_int (sint (md_native_type col)), dec (unat (md_size col)), dec_int (sint (md_digits col)),
         if md_nullable col \<noteq> 0 then ''yes'' else ''no'')) v))"

text \<open>The arguments are given by number: \<open>{7}\<close> and \<open>{8}\<close> are the number of columns and the text of the
  columns; the number of parameters and their text, arguments 9 and 10, are not named.\<close>

definition stmt_dump :: "(sql_type \<Rightarrow> string) \<Rightarrow> nat \<Rightarrow> data_statement \<Rightarrow> string" where
  "stmt_dump enum_name offs s =
     (let pad = fill offs;
          hdr = stmt_dump_line (fill (offs + 2)) (''ndx'', ''column name'', ''col type'', ''cli id'')
                  (''ODBC type'', ''size'', ''digits'', ''nullable'');
          col = stmt_dump_meta_vector enum_name (offs + 4) hdr (ds_results s);
          sql_str = offset_text (ds_sql s) (offs + 6)
      in nl @ ''  '' @ pad @ ''id: '' @ quoted (ds_id s)
         @ nl @ ''  '' @ pad @ ''  summary:      '' @ ds_summary s
         @ nl @ ''  '' @ pad @ ''  description:  '' @ ds_dscr s
         @ nl @ ''  '' @ pad @ ''  par-buf-size: '' @ dec (ds_par_buf_size s)
         @ nl @ ''  '' @ pad @ ''  res-buf-size: '' @ dec (ds_res_buf_size s)
         @ nl @ ''  '' @ pad @ ''  sql:          '' @ sql_str
         @ nl
         @ nl @ ''  '' @ pad @ ''  result:  cnt:'' @ dec (length (ds_results s))
         @ nl @ ''  '' @ pad
         @ nl @ ''  '' @ pad @ ''  params:  cnt:'' @ col
         @ nl @ ''  '' @ pad)"

subsection \<open>The statements of a file\<close>

record data_statements =
  dd_summary :: string
  dd_description :: string
  dd_map :: "(string \<times> data_statement) list"
  dd_filename :: string

definition default_data_statements :: data_statements where
  "default_data_statements = \<lparr>dd_summary = [], dd_description = [], dd_map = [], dd_filename = []\<rparr>"

definition add_statement :: "data_statement \<Rightarrow> data_statements \<Rightarrow> bool \<times> data_statements \<times> string list" where
  "add_statement s d =
     (let (m, success) = emplace (ds_id s) s (dd_map d) in
      (success, d\<lparr>dd_map := m\<rparr>,
       if success then [] else [''Statement id: '' @ ds_id s @ '' is duplicated.'']))"

definition add_statement_with_replace :: "data_statement \<Rightarrow> data_statements \<Rightarrow> bool \<times> data_statements" where
  "add_statement_with_replace s d =
     (let (m, inserted) = emplace (ds_id s) s (dd_map d) in
      (inserted, d\<lparr>dd_map := (if inserted then m else overwrite (ds_id s) s m)\<rparr>))"

text \<open>The file name, argument 3, is not named: \<open>{4}\<close> is there twice.\<close>

definition statements_dump :: "(sql_type \<Rightarrow> string) \<Rightarrow> nat \<Rightarrow> data_statements \<Rightarrow> string" where
  "statements_dump enum_name offs d =
     (let pad = fill offs; text_ident = 4 + offs;
          stmt_str = concat (map (\<lambda>(k, s). stmt_dump enum_name text_ident s) (dd_map d))
      in nl @ ''  '' @ pad @ ''Document description''
         @ nl @ ''  '' @ pad @ ''  summary: '' @ offset_text (dd_summary d) (text_ident + 2)
         @ nl @ ''  '' @ pad @ ''  description: '' @ offset_text (dd_description d) (text_ident + 2)
         @ nl @ ''  '' @ pad @ ''  filename: '' @ stmt_str
         @ nl @ ''  '' @ pad @ ''  statements:'' @ stmt_str
         @ nl @ ''  '')"

subsection \<open>Properties\<close>

lemma settle_column_size:
  "md_size (fst (settle_column fl fb c)) =
     (if is_string_cat (md_type c)
      then (case fl (md_name c) of Some n \<Rightarrow> of_nat n | None \<Rightarrow> if md_size c = 0 then of_nat fb else md_size c)
      else md_size c)"
  by (auto simp: settle_column_def split: option.splits)

lemma settle_column_frame [simp]:
  "md_name (fst (settle_column fl fb c)) = md_name c" "md_type (fst (settle_column fl fb c)) = md_type c"
  "md_index (fst (settle_column fl fb c)) = md_index c" "md_nullable (fst (settle_column fl fb c)) = md_nullable c"
  by (simp_all add: settle_column_def split: option.splits)

lemma column_width_zero:
  assumes "fb mod 2 ^ 32 \<noteq> 0" "is_string_cat (md_type c)"
  shows "md_size (fst (settle_column fl fb c)) = 0 \<longleftrightarrow> (\<exists>n. fl (md_name c) = Some n \<and> n mod 2 ^ 32 = 0)"
proof -
  have "(of_nat m :: u32) = 0 \<longleftrightarrow> m mod 2 ^ 32 = 0" for m by (simp add: word_of_nat_eq_0_iff dvd_eq_mod_eq_0)
  then show ?thesis using assms by (auto simp: settle_column_size split: option.splits)
qed

text \<open>once the widths are settled, with a default that fits the 32-bit width and is not zero, a string
  column has no width only when the file itself gives it one that is zero modulo \<open>2 ^ 32\<close>; no
  column is added, dropped, renamed or retyped, and a column that is not a string keeps its size.\<close>

theorem field_len_settled:
  assumes "fallback mod 2 ^ 32 \<noteq> 0"
  shows "let s' = fst (apply_field_len fallback s) in
      map (\<lambda>c. (md_name c, md_type c)) (ds_results s') = map (\<lambda>c. (md_name c, md_type c)) (ds_results s)
    \<and> map (\<lambda>c. (md_name c, md_type c)) (ds_params s') = map (\<lambda>c. (md_name c, md_type c)) (ds_params s)
    \<and> list_all2 (\<lambda>c c'. if is_string_cat (md_type c)
         then (md_size c' = 0 \<longleftrightarrow> (\<exists>n. ds_field_len s (md_name c) = Some n \<and> n mod 2 ^ 32 = 0)) else c' = c)
        (ds_results s @ ds_params s) (ds_results s' @ ds_params s')"
proof -
  have "if is_string_cat (md_type c)
      then (md_size (fst (settle_column (ds_field_len s) fallback c)) = 0
         \<longleftrightarrow> (\<exists>n. ds_field_len s (md_name c) = Some n \<and> n mod 2 ^ 32 = 0))
      else fst (settle_column (ds_field_len s) fallback c) = c" for c
    using column_width_zero [OF assms, of c "ds_field_len s"] by (auto simp: settle_column_def split: option.splits)
  then have "list_all2 (\<lambda>c c'. if is_string_cat (md_type c)
         then (md_size c' = 0 \<longleftrightarrow> (\<exists>n. ds_field_len s (md_name c) = Some n \<and> n mod 2 ^ 32 = 0)) else c' = c)
        v (map (fst \<circ> settle_column (ds_field_len s) fallback) v)" for v
    by (induction v) auto
  then show ?thesis
    by (simp add: apply_field_len_def settle_def Let_def comp_def list_all2_appendI del: list_all2_append)
qed

lemma varchar_is_string: "is_string_cat st_var_char"
  using category_by_index [of st_var_char] by (simp add: is_string_cat_def)

theorem field_len_settled_witness:
  "let s = default_data_statement\<lparr>ds_results :=
        [\<lparr>md_index = 1, md_name = ''a'', md_type = st_var_char, md_native_type = 0, md_size = 0, md_digits = 0, md_nullable = 0\<rparr>],
        ds_field_len := [''a'' \<mapsto> 0]\<rparr>;
       s' = fst (apply_field_len 2000 s)
   in length (ds_results s') = 1 \<and> md_size (hd (ds_results s')) = 0"
  using field_len_settled [of 2000 "default_data_statement\<lparr>ds_results :=
        [\<lparr>md_index = 1, md_name = ''a'', md_type = st_var_char, md_native_type = 0, md_size = 0, md_digits = 0, md_nullable = 0\<rparr>],
        ds_field_len := [''a'' \<mapsto> 0]\<rparr>"]
  by (auto simp: default_data_statement_def Let_def varchar_is_string list_all2_Cons1)

text \<open>The statements of a file as an abstract map, and the operations on it.\<close>

definition stmt_map :: "data_statements \<Rightarrow> string \<rightharpoonup> data_statement" where
  "stmt_map d = map_of (dd_map d)"

definition statements_ok :: "data_statements \<Rightarrow> bool" where
  "statements_ok d \<longleftrightarrow> in_order (dd_map d) \<and> list_all (\<lambda>(k, s). ds_id s = k) (dd_map d)"

lemma emplace_entries: "set (fst (emplace k v ps)) \<subseteq> insert (k, v) (set ps)"
  by (induction k v ps rule: emplace.induct) (auto simp: split_beta Let_def)

lemma add_statement_refines:
  assumes "statements_ok d" "add_statement s d = (added, d', l)"
  shows "statements_ok d' \<and> (added \<longleftrightarrow> stmt_map d (ds_id s) = None) \<and> (l = [] \<longleftrightarrow> added)
    \<and> stmt_map d' = (if added then (stmt_map d)(ds_id s \<mapsto> s) else stmt_map d)
    \<and> dd_summary d' = dd_summary d \<and> dd_description d' = dd_description d \<and> dd_filename d' = dd_filename d"
  using assms emplace_entries [of "ds_id s" s "dd_map d"] std_map.insert_new_told [of "dd_map d" "ds_id s" s]
    std_map.insert_new_lookup [of "dd_map d" "ds_id s" s] std_map.insert_new_invar [of "dd_map d" "ds_id s" s]
  by (auto simp: add_statement_def statements_ok_def stmt_map_def split_beta Let_def list_all_iff split: if_splits)

lemma replace_refines:
  assumes "statements_ok d"
  shows "statements_ok (snd (add_statement_with_replace s d))"
    and "fst (add_statement_with_replace s d) \<longleftrightarrow> stmt_map d (ds_id s) = None"
    and "stmt_map (snd (add_statement_with_replace s d)) = (stmt_map d)(ds_id s \<mapsto> s)"
proof -
  have o: "in_order (dd_map d)" and k: "list_all (\<lambda>(k, s). ds_id s = k) (dd_map d)"
    using assms by (simp_all add: statements_ok_def)
  let ?m = "fst (emplace (ds_id s) s (dd_map d))"
  have m: "list_all (\<lambda>(k, s). ds_id s = k) ?m" "list_all (\<lambda>(k, s). ds_id s = k) (overwrite (ds_id s) s ?m)"
    using emplace_entries [of "ds_id s" s "dd_map d"] k by (fastforce simp: list_all_iff overwrite_def)+
  note u = std_map.upsert [OF o, of "ds_id s" s]
  show "statements_ok (snd (add_statement_with_replace s d))"
    using u m by (simp add: add_statement_with_replace_def statements_ok_def split_beta Let_def split: if_splits)
  show "fst (add_statement_with_replace s d) \<longleftrightarrow> stmt_map d (ds_id s) = None"
    using std_map.insert_new_told [OF o] by (simp add: add_statement_with_replace_def stmt_map_def split_beta Let_def)
  show "stmt_map (snd (add_statement_with_replace s d)) = (stmt_map d)(ds_id s \<mapsto> s)"
    using u by (simp add: add_statement_with_replace_def stmt_map_def split_beta Let_def)
qed

text \<open>C28: the two ways of adding a statement implement insertion into a map from identifiers to
  statements, kept in the order of the identifiers: \<open>add_statement\<close> refuses an identifier that is
  taken and leaves the map as it was, \<open>add_statement_with_replace\<close> always stores the statement, and
  each tells whether the identifier was new.\<close>

theorem add_statement_refines_insert:
  assumes "statements_ok d"
  shows "(let (added, d', l) = add_statement s d in
        statements_ok d' \<and> (added \<longleftrightarrow> stmt_map d (ds_id s) = None)
      \<and> stmt_map d' = (if added then (stmt_map d)(ds_id s \<mapsto> s) else stmt_map d))
    \<and> (let (added, d') = add_statement_with_replace s d in
        statements_ok d' \<and> (added \<longleftrightarrow> stmt_map d (ds_id s) = None)
      \<and> stmt_map d' = (stmt_map d)(ds_id s \<mapsto> s))"
proof
  obtain a d' l where "add_statement s d = (a, d', l)" by (metis prod_cases3)
  then show "let (added, d', l) = add_statement s d in
        statements_ok d' \<and> (added \<longleftrightarrow> stmt_map d (ds_id s) = None)
      \<and> stmt_map d' = (if added then (stmt_map d)(ds_id s \<mapsto> s) else stmt_map d)"
    using add_statement_refines [OF assms] by simp
  show "let (added, d') = add_statement_with_replace s d in
        statements_ok d' \<and> (added \<longleftrightarrow> stmt_map d (ds_id s) = None)
      \<and> stmt_map d' = (stmt_map d)(ds_id s \<mapsto> s)"
    using replace_refines [OF assms] by (simp add: add_statement_with_replace_def split_beta Let_def)
qed

theorem add_statement_refines_insert_witness:
  "let (added, d', l) = add_statement (default_data_statement\<lparr>ds_id := ''q''\<rparr>) default_data_statements in
     added \<longleftrightarrow> stmt_map default_data_statements ''q'' = None"
  using add_statement_refines_insert [of default_data_statements "default_data_statement\<lparr>ds_id := ''q''\<rparr>"]
  by (simp add: default_data_statements_def statements_ok_def in_order_def add_statement_def stmt_map_def)

text \<open>the dump of a statement says nothing of its parameters and the dump of a file nothing of the
  file name: the format strings name other arguments in their place.\<close>

theorem dumps_omit:
  "stmt_dump en offs (s\<lparr>ds_params := p\<rparr>) = stmt_dump en offs s
   \<and> statements_dump en offs (d\<lparr>dd_filename := f\<rparr>) = statements_dump en offs d"
  by (simp add: stmt_dump_def statements_dump_def)

end
