(* ===== verification/Parser.thy ===== *)
theory Parser
  imports Yaml_Doc Data_Statements
begin

text \<open>
  Reading the statements of a file and describing them by the database
  (\<open>src/dbgen4/parser/parser.cpp\<close>, \<open>common/parser_errors.hpp\<close>). The database is a record of
  functions on the state of its connection; the names of enumerators (magic\_enum) and the place
  of a source line are parameters. Log lines of the levels warning and error are returned in
  order; those below are left out.
\<close>

subsection \<open>Exit codes\<close>

datatype (plugins only: code) exit_status_enum =
    es_not_implemented | es_ok | es_file_cant_be_open | es_yaml_syntax_error
  | es_inv_top_level_struct | es_statements_attr_missing | es_inv_statement_syntax | es_stmt_unique_id_is_missing
  | es_duplicated_stmt_id | es_no_sql_stmt_found | es_parse_error | es_unhandled_exception
  | es_connection_error | es_sql_syntax_err | es_inja_parser_error | es_inja_render_error
  | es_inja_data_error | es_inja_file_error | es_inja_general_error | es_error_writing_file
  | es_error_reading_file | es_runtime_error | es_cmd_help | es_cmd_all_help
  | es_cmd_version | es_cmd_line_parse_error

primrec exit_status_value :: "exit_status_enum \<Rightarrow> nat" where
  "exit_status_value es_not_implemented = 255"
| "exit_status_value es_ok = 0"
| "exit_status_value es_file_cant_be_open = 2"
| "exit_status_value es_yaml_syntax_error = 3"
| "exit_status_value es_inv_top_level_struct = 4"
| "exit_status_value es_statements_attr_missing = 5"
| "exit_status_value es_inv_statement_syntax = 6"
| "exit_status_value es_stmt_unique_id_is_missing = 7"
| "exit_status_value es_duplicated_stmt_id = 8"
| "exit_status_value es_no_sql_stmt_found = 9"
| "exit_status_value es_parse_error = 10"
| "exit_status_value es_unhandled_exception = 11"
| "exit_status_value es_connection_error = 12"
| "exit_status_value es_sql_syntax_err = 13"
| "exit_status_value es_inja_parser_error = 14"
| "exit_status_value es_inja_render_error = 15"
| "exit_status_value es_inja_data_error = 16"
| "exit_status_value es_inja_file_error = 17"
| "exit_status_value es_inja_general_error = 18"
| "exit_status_value es_error_writing_file = 19"
| "exit_status_value es_error_reading_file = 20"
| "exit_status_value es_runtime_error = 21"
| "exit_status_value es_cmd_help = 22"
| "exit_status_value es_cmd_all_help = 23"
| "exit_status_value es_cmd_version = 24"
| "exit_status_value es_cmd_line_parse_error = 25"

primrec get_exit_code_str :: "exit_status_enum \<Rightarrow> string" where
  "get_exit_code_str es_ok = ''Document '' @ [CHR 0x27] @ ''{}'' @ [CHR 0x27] @ '' Operation successful '' @ [CHR 0x27] @ ''{}'' @ [CHR 0x27]"
| "get_exit_code_str es_file_cant_be_open = ''Document '' @ [CHR 0x27] @ ''{}'' @ [CHR 0x27] @ '' Unable to open YAML file '' @ [CHR 0x27] @ ''{}'' @ [CHR 0x27]"
| "get_exit_code_str es_yaml_syntax_error = ''Document '' @ [CHR 0x27] @ ''{}'' @ [CHR 0x27] @ '' YAML syntax error '' @ [CHR 0x27] @ ''{}'' @ [CHR 0x27] @ '' line: {} column: {}''"
| "get_exit_code_str es_inv_top_level_struct = ''Document '' @ [CHR 0x27] @ ''{}'' @ [CHR 0x27] @ '' Invalid top level structure '' @ [CHR 0x27] @ ''{}'' @ [CHR 0x27] @ '' line: {} column: {}''"
| "get_exit_code_str es_statements_attr_missing = ''Document '' @ [CHR 0x27] @ ''{}'' @ [CHR 0x27] @ '' '' @ [CHR 0x27] @ ''Statements'' @ [CHR 0x27] @ '' attribute is missing err: {} line: {} column: {}''"
| "get_exit_code_str es_inv_statement_syntax = ''Document '' @ [CHR 0x27] @ ''{}'' @ [CHR 0x27] @ '' Invalid statement syntax '' @ [CHR 0x27] @ ''{}'' @ [CHR 0x27] @ '' line: {} column: {}''"
| "get_exit_code_str es_stmt_unique_id_is_missing = ''Document '' @ [CHR 0x27] @ ''{}'' @ [CHR 0x27] @ '' Statement unique ID is missing '' @ [CHR 0x27] @ ''{}'' @ [CHR 0x27] @ '' line: {} column: {}''"
| "get_exit_code_str es_duplicated_stmt_id = ''Document '' @ [CHR 0x27] @ ''{}'' @ [CHR 0x27] @ '' Duplicate statement ID detected '' @ [CHR 0x27] @ ''{}'' @ [CHR 0x27] @ '' line: {} column: {}''"
| "get_exit_code_str es_no_sql_stmt_found = ''Document '' @ [CHR 0x27] @ ''{}'' @ [CHR 0x27] @ '' No SQL statement found '' @ [CHR 0x27] @ ''{}'' @ [CHR 0x27] @ '' line: {} column: {}''"
| "get_exit_code_str es_parse_error = ''Document '' @ [CHR 0x27] @ ''{}'' @ [CHR 0x27] @ '' Unknown parser error '' @ [CHR 0x27] @ ''{}'' @ [CHR 0x27] @ '' line: {} column: {}''"
| "get_exit_code_str es_unhandled_exception = ''Document '' @ [CHR 0x27] @ ''{}'' @ [CHR 0x27] @ '' unhandled exception''"
| "get_exit_code_str es_connection_error = ''Can'' @ [CHR 0x27] @ ''t connect to db host: {} db {} user {} err: {} error '' @ [CHR 0x27] @ ''{}''"
| "get_exit_code_str es_sql_syntax_err = ''SQL statement {} syntax error {}.''"
| "get_exit_code_str es_not_implemented = ''Not implemented feature.''"
| "get_exit_code_str es_inja_parser_error = ''Document '' @ [CHR 0x27] @ ''{}'' @ [CHR 0x27] @ '' Inja parser error: '' @ [CHR 0x27] @ ''{}'' @ [CHR 0x27]"
| "get_exit_code_str es_inja_render_error = ''Document '' @ [CHR 0x27] @ ''{}'' @ [CHR 0x27] @ '' Inja template rendering error: '' @ [CHR 0x27] @ ''{}'' @ [CHR 0x27]"
| "get_exit_code_str es_inja_file_error = ''Document '' @ [CHR 0x27] @ ''{}'' @ [CHR 0x27] @ '' Inja file error: '' @ [CHR 0x27] @ ''{}'' @ [CHR 0x27]"
| "get_exit_code_str es_inja_data_error = ''Document '' @ [CHR 0x27] @ ''{}'' @ [CHR 0x27] @ '' Inja data error: '' @ [CHR 0x27] @ ''{}'' @ [CHR 0x27]"
| "get_exit_code_str es_inja_general_error = ''Document '' @ [CHR 0x27] @ ''{}'' @ [CHR 0x27] @ '' Inja general error: '' @ [CHR 0x27] @ ''{}'' @ [CHR 0x27]"
| "get_exit_code_str es_error_writing_file = ''Document '' @ [CHR 0x27] @ ''{}'' @ [CHR 0x27] @ '' error writing file: '' @ [CHR 0x27] @ ''{}'' @ [CHR 0x27]"
| "get_exit_code_str es_error_reading_file = ''Document '' @ [CHR 0x27] @ ''{}'' @ [CHR 0x27] @ '' error reading file: '' @ [CHR 0x27] @ ''{}'' @ [CHR 0x27]"
| "get_exit_code_str es_runtime_error = ''Document '' @ [CHR 0x27] @ ''{}'' @ [CHR 0x27] @ '' runtime/internal error: '' @ [CHR 0x27] @ ''{}'' @ [CHR 0x27]"
| "get_exit_code_str es_cmd_help = ''User asked for explanation of program usage description.''"
| "get_exit_code_str es_cmd_all_help = ''User asked for full program usage description.''"
| "get_exit_code_str es_cmd_version = ''User asked for version of the program.''"
| "get_exit_code_str es_cmd_line_parse_error = ''Command line parser error cmd:'' @ [CHR 0x27, CHR 0x27] @ '' error code: {}''"


text \<open>\<open>fmt::format\<close> on a format string whose placeholders are all \<open>{}\<close>.\<close>

fun fmt_args :: "string \<Rightarrow> string list \<Rightarrow> string" where
  "fmt_args [] args = []"
| "fmt_args [c] args = [c]"
| "fmt_args (c # c' # cs) args =
     (if c = CHR 0x7B \<and> c' = CHR 0x7D \<and> args \<noteq> [] then hd args @ fmt_args cs (tl args)
      else c # fmt_args (c' # cs) args)"

subsection \<open>Dialects\<close>

datatype db_type_enum = dt_sql | dt_mariadb | dt_psql | dt_db2

primrec db_type_name :: "db_type_enum \<Rightarrow> string" where
  "db_type_name dt_sql = ''sql''"
| "db_type_name dt_mariadb = ''mariadb''"
| "db_type_name dt_psql = ''psql''"
| "db_type_name dt_db2 = ''db2''"

definition resolve_dialect_sql :: "yaml_lib \<Rightarrow> parse_yaml \<Rightarrow> db_type_enum \<Rightarrow> string \<times> string list" where
  "resolve_dialect_sql lib n db_type =
     (let (sql, l1) = get_or lib (as_string lib) n (db_type_name dt_sql) [];
          (sql', l2) = get_or lib (as_string lib) n (db_type_name db_type) sql
      in (sql', l1 @ l2))"

text \<open>A \<open>before\<close> or \<open>after\<close> block: empty unless it is a map.\<close>

definition block_sql :: "yaml_lib \<Rightarrow> parse_yaml \<Rightarrow> string \<Rightarrow> db_type_enum \<Rightarrow> string \<times> string list" where
  "block_sql lib s key db_type =
     (if is_map lib s key
      then (case get_map lib s key of Inr m \<Rightarrow> resolve_dialect_sql lib m db_type | Inl e \<Rightarrow> ([], []))
      else ([], []))"

subsection \<open>Reading a file\<close>

text \<open>One statement: everything is read first, then the identifier and the text are demanded.\<close>

definition parse_statement ::
  "yaml_lib \<Rightarrow> db_type_enum \<Rightarrow> parse_yaml \<Rightarrow> (exit_status_enum + data_statement) \<times> string list" where
  "parse_statement lib db_type s =
     (let (the_id, l0) = get lib (as_string lib) s ''id'';
          (result_size, l1) = get_or lib (as_size lib) s ''res-buf-size'' 1;
          (param_size, l2) = get_or lib (as_size lib) s ''par-buf-size'' 1;
          (summary, l3) = get_or lib (as_string lib) s ''summary'' [];
          (dscr, l4) = get_or lib (as_string lib) s ''dscr'' [];
          (sql, l5) = resolve_dialect_sql lib s db_type;
          (before_sql, l6) = block_sql lib s ''before'' db_type;
          (after_sql, l7) = block_sql lib s ''after'' db_type;
          (field_len, l8) = get_map_of_sizes_or lib s ''field-len'';
          (result_names, l9) = get_seq_of_strings_or lib s ''result-names'' [];
          (param_names, l10) = get_seq_of_strings_or lib s ''parameter-names'' [];
          l = l0 @ l1 @ l2 @ l3 @ l4 @ l5 @ l6 @ l7 @ l8 @ l9 @ l10
      in case the_id of
           Inl e \<Rightarrow> (Inl es_stmt_unique_id_is_missing, l @ [error_to_string lib e])
         | Inr i \<Rightarrow>
             if sql = [] then (Inl es_no_sql_stmt_found, l @ [''SQL is missing. id: '' @ i])
             else
               (Inr ((set_after_sql after_sql (set_before_sql before_sql (set_sql sql
                   (default_data_statement\<lparr>ds_id := i\<rparr>))))
                   \<lparr>ds_summary := summary, ds_dscr := dscr, ds_res_buf_size := result_size,
                    ds_par_buf_size := param_size, ds_param_names := param_names,
                    ds_result_names := result_names, ds_field_len := field_len\<rparr>), l))"

text \<open>The loop over the statements. \<open>loc\<close> is the place of the source line that reports a duplicate.\<close>

fun parse_statements ::
  "yaml_lib \<Rightarrow> nat \<times> nat \<Rightarrow> string \<Rightarrow> db_type_enum \<Rightarrow> parse_yaml list \<Rightarrow> data_statements
     \<Rightarrow> (exit_status_enum + data_statements) \<times> string list" where
  "parse_statements lib loc filename db_type [] stmts = (Inr stmts, [])"
| "parse_statements lib loc filename db_type (s # ss) stmts =
     (case parse_statement lib db_type s of
        (Inl e, l) \<Rightarrow> (Inl e, l)
      | (Inr statement, l) \<Rightarrow>
          (let (added, stmts', l2) = add_statement statement stmts in
           if \<not> added
           then (Inl es_duplicated_stmt_id, l @ l2 @ [fmt_args (get_exit_code_str es_duplicated_stmt_id)
                  [filename, ds_id statement, dec (fst loc), dec (snd loc)]])
           else let (r, l3) = parse_statements lib loc filename db_type ss stmts' in (r, l @ l2 @ l3)))"

definition parse_yaml_file_json ::
  "yaml_lib \<Rightarrow> nat \<times> nat \<Rightarrow> string \<Rightarrow> parse_yaml \<Rightarrow> db_type_enum \<Rightarrow> (exit_status_enum + data_statements) \<times> string list" where
  "parse_yaml_file_json lib loc filename n db_type =
     (let (summary, l1) = get_or lib (as_string lib) n ''summary'' [];
          (description, l2) = get_or lib (as_string lib) n ''description'' [];
          stmts = default_data_statements\<lparr>dd_summary := summary, dd_description := description, dd_filename := filename\<rparr>
      in case get_seq_of_maps lib n ''statements'' of
           (Inl e, l3) \<Rightarrow>
             (Inl es_statements_attr_missing, l1 @ l2 @ l3 @ [fmt_args (get_exit_code_str es_statements_attr_missing)
                [ye_filename e, error_to_string lib e, dec_int (ye_line e), dec_int (ye_column e)]])
         | (Inr ys, l3) \<Rightarrow>
             (let (r, l4) = parse_statements lib loc filename db_type ys stmts in (r, l1 @ l2 @ l3 @ l4)))"

text \<open>\<open>load_file\<close> and \<open>load_text\<close> are what yaml-cpp answers.\<close>

definition parse_yaml_file ::
  "yaml_lib \<Rightarrow> nat \<times> nat \<Rightarrow> (string \<Rightarrow> yaml_exception + ynode) \<Rightarrow> string \<Rightarrow> db_type_enum
     \<Rightarrow> (exit_status_enum + data_statements) \<times> string list" where
  "parse_yaml_file lib loc load_file filename db_type =
     (case load_yaml (load_file filename) filename of
        Inl e \<Rightarrow> (Inl es_file_cant_be_open, [])
      | Inr d \<Rightarrow> parse_yaml_file_json lib loc filename d db_type)"

definition parse_yaml_string ::
  "yaml_lib \<Rightarrow> nat \<times> nat \<Rightarrow> (string \<Rightarrow> yaml_exception + ynode) \<Rightarrow> string \<Rightarrow> string \<Rightarrow> db_type_enum
     \<Rightarrow> (exit_status_enum + data_statements) \<times> string list" where
  "parse_yaml_string lib loc load_text filename yaml_str db_type =
     (case load_yaml (load_text yaml_str) ''<string>'' of
        Inl e \<Rightarrow> (Inl es_yaml_syntax_error, [])
      | Inr d \<Rightarrow> parse_yaml_file_json lib loc filename d db_type)"

subsection \<open>Describing the statements\<close>

text \<open>The database as the parser sees it. A backend that cannot describe statements has no describer.\<close>

record 'c db_ops =
  dbo_exec :: "string \<Rightarrow> 'c \<Rightarrow> db_sts \<times> 'c"
  dbo_describe :: "(string \<Rightarrow> 'c \<Rightarrow> (db_sts + qry_metadata) \<times> 'c) option"
  dbo_commit :: "'c \<Rightarrow> db_sts \<times> 'c"
  dbo_rollback :: "'c \<Rightarrow> db_sts \<times> 'c"

definition with_metadata :: "nat \<Rightarrow> qry_metadata \<Rightarrow> data_statement \<Rightarrow> data_statement \<times> string list" where
  "with_metadata max_field_len md stmt =
     apply_field_len max_field_len
       (push_column_names (stmt\<lparr>ds_results := qm_columns md, ds_params := qm_params md\<rparr>))"

text \<open>The body of the loop: \<open>before\<close>, describe, \<open>after\<close> whatever the outcome, end the unit of work.\<close>

definition load_statement ::
  "(db_sts \<Rightarrow> string) \<Rightarrow> 'c db_ops \<Rightarrow> (string \<Rightarrow> 'c \<Rightarrow> (db_sts + qry_metadata) \<times> 'c) \<Rightarrow> nat \<Rightarrow> data_statement \<Rightarrow> 'c
     \<Rightarrow> ((exit_status_enum + data_statement) \<times> 'c) \<times> string list" where
  "load_statement sts_name ops describe max_field_len stmt c =
     (let (before_sts, c1) = (if ds_before_sql stmt \<noteq> [] then dbo_exec ops (ds_before_sql stmt) c else (sts_success, c)) in
      if \<not> is_success before_sts
      then ((Inl es_sql_syntax_err, snd (dbo_rollback ops c1)),
            [''before sql '' @ quoted (ds_before_sql stmt) @ '' failed: '' @ sts_name before_sts])
      else
        let (res, c2) = describe (ds_sql stmt) c1;
            (after_sts, c3) = (if ds_after_sql stmt \<noteq> [] then dbo_exec ops (ds_after_sql stmt) c2 else (sts_success, c2));
            l = (if \<not> is_success after_sts
                 then [''after sql '' @ quoted (ds_after_sql stmt) @ '' failed: '' @ sts_name after_sts] else [])
        in case res of
             Inl e \<Rightarrow> ((Inl es_sql_syntax_err, snd (dbo_rollback ops c3)),
                l @ [''Invalid sql '' @ quoted (ds_sql stmt) @ '' status: '' @ dec_int (db_sts_code e) @ '' mnemonic '' @ sts_name e])
           | Inr md \<Rightarrow>
               (let (stmt', w) = with_metadata max_field_len md stmt
                in ((Inr stmt', snd (dbo_commit ops c3)), l @ w)))"

fun load_statements ::
  "(db_sts \<Rightarrow> string) \<Rightarrow> 'c db_ops \<Rightarrow> (string \<Rightarrow> 'c \<Rightarrow> (db_sts + qry_metadata) \<times> 'c) \<Rightarrow> nat
     \<Rightarrow> (string \<times> data_statement) list \<Rightarrow> data_statements \<Rightarrow> 'c
     \<Rightarrow> ((exit_status_enum + data_statements) \<times> 'c) \<times> string list" where
  "load_statements sts_name ops describe mfl [] res c = ((Inr res, c), [])"
| "load_statements sts_name ops describe mfl ((k, stmt) # rest) res c =
     (case load_statement sts_name ops describe mfl stmt c of
        ((Inl e, c'), l) \<Rightarrow> ((Inl e, c'), l)
      | ((Inr stmt', c'), l) \<Rightarrow>
          (let (r, l') = load_statements sts_name ops describe mfl rest (snd (add_statement_with_replace stmt' res)) c'
           in (r, l @ l')))"

definition load_file_meta_data ::
  "(db_sts \<Rightarrow> string) \<Rightarrow> 'c db_ops \<Rightarrow> nat \<Rightarrow> data_statements \<Rightarrow> 'c \<Rightarrow> ((exit_status_enum + data_statements) \<times> 'c) \<times> string list" where
  "load_file_meta_data sts_name ops max_field_len s c =
     (case dbo_describe ops of
        None \<Rightarrow> ((Inl es_not_implemented, c),
          [''the linked-in backend does not support schema introspection (rtl::schema::describer) - cannot generate code.''])
      | Some describe \<Rightarrow> load_statements sts_name ops describe max_field_len (dd_map s) s c)"

subsection \<open>Properties of reading\<close>

lemma as_string_not_null: "\<not> is_null n \<Longrightarrow> as_string lib n = (case y_content n of Y_scalar t \<Rightarrow> Inr t | _ \<Rightarrow> Inl (bad_conversion lib n))"
  by (simp add: as_string_def is_null_def split: ycontent.splits)

text \<open>The text at a key: a scalar that is there.\<close>

definition text_at :: "yaml_lib \<Rightarrow> parse_yaml \<Rightarrow> string \<Rightarrow> string option" where
  "text_at lib d key = (case node_at lib d key of Some n \<Rightarrow> (case y_content n of Y_scalar t \<Rightarrow> Some t | _ \<Rightarrow> None) | None \<Rightarrow> None)"

lemma get_text:
  "fst (get_or lib (as_string lib) d key v) = (case text_at lib d key of Some t \<Rightarrow> t | None \<Rightarrow> v)"
  by (auto simp: get_or_def get_def text_at_def node_at_def as_string_not_null map_sum_def
      split: sum.splits option.splits ycontent.splits if_splits)

lemma get_id:
  "fst (get lib (as_string lib) d key) = Inr t \<longleftrightarrow> text_at lib d key = Some t"
  by (auto simp: get_def text_at_def node_at_def as_string_not_null
      split: sum.splits option.splits ycontent.splits if_splits)

text \<open>The dialect that was asked for wins, then the generic text, then nothing; what is neither there
  nor a scalar does not count.\<close>

lemma dialect_text:
  "fst (resolve_dialect_sql lib n db_type) =
     (case text_at lib n (db_type_name db_type) of
        Some t \<Rightarrow> t
      | None \<Rightarrow> (case text_at lib n ''sql'' of Some t \<Rightarrow> t | None \<Rightarrow> []))"
  by (simp add: resolve_dialect_sql_def split_beta Let_def get_text split: option.splits)

lemma parse_statement_cases:
  "fst (parse_statement lib t s) =
     (case fst (get lib (as_string lib) s ''id'') of
        Inl e \<Rightarrow> Inl es_stmt_unique_id_is_missing
      | Inr i \<Rightarrow> if fst (resolve_dialect_sql lib s t) = [] then Inl es_no_sql_stmt_found
               else Inr ((set_after_sql (fst (block_sql lib s ''after'' t))
                   (set_before_sql (fst (block_sql lib s ''before'' t)) (set_sql (fst (resolve_dialect_sql lib s t))
                   (default_data_statement\<lparr>ds_id := i\<rparr>))))
                   \<lparr>ds_summary := fst (get_or lib (as_string lib) s ''summary'' []),
                    ds_dscr := fst (get_or lib (as_string lib) s ''dscr'' []),
                    ds_res_buf_size := fst (get_or lib (as_size lib) s ''res-buf-size'' 1),
                    ds_par_buf_size := fst (get_or lib (as_size lib) s ''par-buf-size'' 1),
                    ds_param_names := fst (get_seq_of_strings_or lib s ''parameter-names'' []),
                    ds_result_names := fst (get_seq_of_strings_or lib s ''result-names'' []),
                    ds_field_len := fst (get_map_of_sizes_or lib s ''field-len'')\<rparr>))"
  unfolding parse_statement_def
  by (simp only: split_beta Let_def split: sum.split if_split) simp

lemma parse_statement_Inr:
  assumes "fst (parse_statement lib t s) = Inr st"
  shows "text_at lib s ''id'' = Some (ds_id st)
    \<and> fst (resolve_dialect_sql lib s t) \<noteq> []
    \<and> ds_sql st = trim_whitespace_view (fst (resolve_dialect_sql lib s t))
    \<and> ds_results st = [] \<and> ds_params st = []"
proof (cases "fst (get lib (as_string lib) s ''id'')")
  case (Inl e)
  then show ?thesis using assms by (simp add: parse_statement_cases)
next
  case (Inr i)
  then have "text_at lib s ''id'' = Some i" by (simp add: get_id)
  with Inr assms show ?thesis
    by (auto simp: parse_statement_cases set_sql_def set_before_sql_def set_after_sql_def default_data_statement_def
        split: if_splits)
qed

definition keyed :: "data_statement list \<Rightarrow> (string \<times> data_statement) list" where
  "keyed ss = map (\<lambda>s. (ds_id s, s)) ss"

lemma parse_statements_step:
  "fst (parse_statements lib loc f t (s # ss) d) =
     (case fst (parse_statement lib t s) of
        Inl e \<Rightarrow> Inl e
      | Inr st \<Rightarrow> (let (added, d', l) = add_statement st d in
          if \<not> added then Inl es_duplicated_stmt_id else fst (parse_statements lib loc f t ss d')))"
  by (simp add: split_beta Let_def split: prod.splits sum.splits)

definition parse_outcome ::
  "(exit_status_enum + data_statement) list \<Rightarrow> data_statement list \<Rightarrow> exit_status_enum + data_statements \<Rightarrow> bool" where
  "parse_outcome rs seen r \<longleftrightarrow> (case r of
      Inr d \<Rightarrow> (\<exists>ss. rs = map Inr ss \<and> distinct (map ds_id (seen @ ss)) \<and> statements_ok d
                 \<and> stmt_map d = map_of (keyed (seen @ ss)))
    | Inl e \<Rightarrow> (\<exists>i ss. i < length rs \<and> take i rs = map Inr ss \<and> distinct (map ds_id (seen @ ss))
                 \<and> (rs ! i = Inl e
                    \<or> (\<exists>s. rs ! i = Inr s \<and> ds_id s \<in> ds_id ` set (seen @ ss) \<and> e = es_duplicated_stmt_id))))"

lemma map_of_keyed_None: "map_of (keyed ss) k = None \<longleftrightarrow> k \<notin> ds_id ` set ss"
  by (simp add: keyed_def map_of_eq_None_iff image_image)

lemma parse_outcome_Cons:
  assumes "parse_outcome rs (seen @ [s]) r" "distinct (map ds_id (seen @ [s]))"
  shows "parse_outcome (Inr s # rs) seen r"
proof (cases r)
  case (Inr d)
  with assms(1) obtain ss where "rs = map Inr ss" "distinct (map ds_id (seen @ [s] @ ss))" "statements_ok d"
    "stmt_map d = map_of (keyed (seen @ [s] @ ss))" by (auto simp: parse_outcome_def)
  then show ?thesis unfolding parse_outcome_def Inr sum.case by (intro exI [of _ "s # ss"]) simp
next
  case (Inl e)
  with assms(1) obtain i ss where "i < length rs" "take i rs = map Inr ss" "distinct (map ds_id (seen @ [s] @ ss))"
    "rs ! i = Inl e \<or> (\<exists>s'. rs ! i = Inr s' \<and> ds_id s' \<in> ds_id ` set (seen @ [s] @ ss) \<and> e = es_duplicated_stmt_id)"
    by (auto simp: parse_outcome_def)
  then show ?thesis unfolding parse_outcome_def Inl sum.case by (intro exI [of _ "Suc i"] exI [of _ "s # ss"]) simp
qed

lemma parse_statements_outcome:
  assumes "statements_ok d" "stmt_map d = map_of (keyed seen)" "distinct (map ds_id seen)"
  shows "parse_outcome (map (\<lambda>n. fst (parse_statement lib t n)) ns) seen (fst (parse_statements lib loc f t ns d))"
  using assms
proof (induction ns arbitrary: d seen)
  case Nil
  then show ?case by (simp add: parse_outcome_def)
next
  case (Cons n ns)
  show ?case
  proof (cases "fst (parse_statement lib t n)")
    case (Inl e)
    then have "parse_outcome (Inl e # map (\<lambda>n. fst (parse_statement lib t n)) ns) seen (Inl e)"
      using Cons.prems by (auto simp: parse_outcome_def intro!: exI [of _ 0])
    with Inl show ?thesis by (simp add: parse_statements_step del: parse_statements.simps)
  next
    case (Inr st)
    obtain a d' l where ad: "add_statement st d = (a, d', l)" by (metis prod_cases3)
    note r = add_statement_refines [OF Cons.prems(1) ad]
    show ?thesis
    proof (cases a)
      case True
      then have new: "ds_id st \<notin> ds_id ` set seen" using r Cons.prems(2) by (simp add: map_of_keyed_None)
      then have dist: "distinct (map ds_id (seen @ [st]))" using Cons.prems(3) by simp
      have "map_of (keyed seen) (ds_id st) = None" using new by (simp add: map_of_keyed_None)
      then have "stmt_map d' = map_of (keyed (seen @ [st]))"
        using r True Cons.prems(2) by (auto simp: keyed_def map_add_def fun_eq_iff split: option.splits)
      with Cons.IH [of d' "seen @ [st]"] r dist
      have "parse_outcome (map (\<lambda>n. fst (parse_statement lib t n)) ns) (seen @ [st]) (fst (parse_statements lib loc f t ns d'))" by blast
      from parse_outcome_Cons [OF this dist] Inr ad True show ?thesis
        by (simp add: parse_statements_step del: parse_statements.simps)
    next
      case False
      then have "ds_id st \<in> ds_id ` set seen" using r Cons.prems(2) map_of_keyed_None by metis
      then have "parse_outcome (Inr st # map (\<lambda>n. fst (parse_statement lib t n)) ns) seen (Inl es_duplicated_stmt_id)"
        using Cons.prems by (auto simp: parse_outcome_def intro!: exI [of _ 0])
      with Inr ad False show ?thesis by (simp add: parse_statements_step del: parse_statements.simps)
    qed
  qed
qed

text \<open>C7: reading the statements of a document. Without a list of maps under \<open>statements\<close> nothing is
  read. Otherwise the statements are taken in the order of the file: the reading succeeds exactly
  when each of them parses and no identifier occurs twice, and then answers the map from
  identifiers to statements; else it stops at the first statement that does not parse, with that
  statement's code, or that repeats an earlier identifier.\<close>

theorem document_read:
  "case fst (get_seq_of_maps lib n ''statements'') of
     Inl e \<Rightarrow> fst (parse_yaml_file_json lib loc f n t) = Inl es_statements_attr_missing
   | Inr ys \<Rightarrow> parse_outcome (map (\<lambda>y. fst (parse_statement lib t y)) ys) [] (fst (parse_yaml_file_json lib loc f n t))"
proof (cases "fst (get_seq_of_maps lib n ''statements'')")
  case (Inl e)
  then show ?thesis by (cases "get_seq_of_maps lib n ''statements''") (simp add: parse_yaml_file_json_def split_beta Let_def)
next
  case (Inr ys)
  then obtain l where ys: "get_seq_of_maps lib n ''statements'' = (Inr ys, l)" by (metis prod.collapse)
  let ?d = "default_data_statements\<lparr>dd_summary := fst (get_or lib (as_string lib) n ''summary'' []),
      dd_description := fst (get_or lib (as_string lib) n ''description'' []), dd_filename := f\<rparr>"
  have "statements_ok ?d" "stmt_map ?d = map_of (keyed [])"
    by (simp_all add: statements_ok_def stmt_map_def keyed_def default_data_statements_def in_order_def)
  from parse_statements_outcome [OF this, of lib t ys loc f] ys Inr show ?thesis
    by (simp add: parse_yaml_file_json_def split_beta Let_def)
qed

lemma trim_blank:
  assumes "list_all is_space w"
  shows "trim_whitespace_view w = []"
proof (rule ccontr)
  assume ne: "trim_whitespace_view w \<noteq> []"
  obtain pre post where "w = pre @ trim_whitespace_view w @ post" by (rule trim_surrounded)
  with ne have "hd (trim_whitespace_view w) \<in> set w" by (metis Un_iff hd_in_set set_append)
  with assms trim_edges(1) [OF ne] show False by (simp add: list_all_iff)
qed

text \<open>The text of a statement is demanded before it is trimmed: one of blanks only is accepted, and the
  statement has no text.\<close>

theorem blank_sql_accepted:
  assumes "text_at lib s ''id'' = Some i" "text_at lib s (db_type_name t) = Some w" "w \<noteq> []" "list_all is_space w"
  shows "\<exists>st. fst (parse_statement lib t s) = Inr st \<and> ds_id st = i \<and> ds_sql st = []"
proof -
  have "fst (resolve_dialect_sql lib s t) = w" using assms(2) by (simp add: dialect_text)
  then show ?thesis using assms(1,3,4) get_id [of lib s "''id''" i]
    by (simp add: parse_statement_cases set_sql_def set_before_sql_def set_after_sql_def trim_blank)
qed

subsection \<open>Properties of describing\<close>

text \<open>A statement apart from what the database says of it.\<close>

definition same_source :: "data_statement \<Rightarrow> data_statement \<Rightarrow> bool" where
  "same_source s s' \<longleftrightarrow> s' = s\<lparr>ds_results := ds_results s', ds_params := ds_params s'\<rparr>"

lemma with_metadata_source: "same_source s (fst (with_metadata mfl md s))" "ds_id (fst (with_metadata mfl md s)) = ds_id s"
  by (simp_all add: same_source_def with_metadata_def apply_field_len_def push_column_names_def split_beta Let_def)

lemma load_statement_source:
  assumes "load_statement sn ops describe mfl s c = ((r, c'), l)"
  shows "case r of Inr s' \<Rightarrow> (\<exists>md. s' = fst (with_metadata mfl md s)) | Inl e \<Rightarrow> e = es_sql_syntax_err"
  using assms by (auto simp: load_statement_def split_beta Let_def split: if_splits sum.splits)


lemma load_statements_step:
  assumes "load_statement sn ops describe mfl s c = ((Inr s', c1), l1)"
    and "load_statements sn ops describe mfl ((k, s) # rest) res c = ((r, c'), l)"
  shows "\<exists>l2. load_statements sn ops describe mfl rest (snd (add_statement_with_replace s' res)) c1 = ((r, c'), l2)"
  using assms by (cases "load_statements sn ops describe mfl rest (snd (add_statement_with_replace s' res)) c1") simp

text \<open>A run of the loop over the rest of the statements, from the result so far.\<close>

lemma load_statements_source:
  assumes "list_all (\<lambda>(k, s). ds_id s = k \<and> k \<in> dom (stmt_map res)) rest" "distinct (map fst rest)" "statements_ok res"
    and "load_statements sn ops describe mfl rest res c = ((r, c'), l)"
  shows "case r of
      Inr res' \<Rightarrow> statements_ok res' \<and> dom (stmt_map res') = dom (stmt_map res)
        \<and> (\<forall>k. k \<notin> fst ` set rest \<longrightarrow> stmt_map res' k = stmt_map res k)
        \<and> list_all (\<lambda>(k, s). \<exists>md. stmt_map res' k = Some (fst (with_metadata mfl md s))) rest
    | Inl e \<Rightarrow> e = es_sql_syntax_err"
  using assms
proof (induction rest arbitrary: res c l)
  case (Cons ks rest)
  obtain k s where ks: "ks = (k, s)" by force
  obtain r1 c1 l1 where st: "load_statement sn ops describe mfl s c = ((r1, c1), l1)" by (metis prod.collapse)
  show ?case
  proof (cases r1)
    case (Inl e)
    then show ?thesis using Cons.prems(4) load_statement_source [OF st] by (auto simp: ks st)
  next
    case (Inr s')
    then obtain md where s': "s' = fst (with_metadata mfl md s)" using load_statement_source [OF st] by auto
    let ?res = "snd (add_statement_with_replace s' res)"
    have k: "ds_id s = k" "k \<in> dom (stmt_map res)" using Cons.prems(1) by (simp_all add: ks)
    have up: "statements_ok ?res" "stmt_map ?res = (stmt_map res)(k \<mapsto> s')"
      using replace_refines [OF Cons.prems(3), of s'] by (simp_all add: s' with_metadata_source k)
    obtain l2 where rest: "load_statements sn ops describe mfl rest ?res c1 = ((r, c'), l2)"
      using load_statements_step [OF st [unfolded Inr] Cons.prems(4) [unfolded ks]] by blast
    have ex: "\<exists>md. s' = fst (with_metadata mfl md s)" using s' by blast
    have "list_all (\<lambda>(k, s). ds_id s = k \<and> k \<in> dom (stmt_map ?res)) rest"
      using Cons.prems(1) by (auto simp: up list_all_iff)
    from Cons.IH [OF this _ up(1) rest, unfolded up(2)] Cons.prems(2) show ?thesis
      using k ex by (auto simp: ks insert_absorb split: sum.splits)
  qed
qed auto

text \<open>C27: describing the statements of a file. When it succeeds, the result holds the same identifiers in
  the same order, and under each the statement that was there with the columns and parameters the
  database gave it and nothing else changed; when it fails, the code says so and nothing is
  returned.\<close>

theorem description_keeps_statements:
  assumes "statements_ok s"
  shows "case fst (fst (load_file_meta_data sn ops mfl s c)) of
      Inr r \<Rightarrow> statements_ok r \<and> map fst (dd_map r) = map fst (dd_map s)
        \<and> list_all (\<lambda>(k, st). \<exists>md. stmt_map r k = Some (fst (with_metadata mfl md st)) \<and> same_source st (fst (with_metadata mfl md st))) (dd_map s)
    | Inl e \<Rightarrow> e = (if dbo_describe ops = None then es_not_implemented else es_sql_syntax_err)"
proof (cases "dbo_describe ops")
  case None
  then show ?thesis by (simp add: load_file_meta_data_def)
next
  case (Some d)
  obtain r c' l where run: "load_statements sn ops d mfl (dd_map s) s c = ((r, c'), l)" by (metis prod.collapse)
  have o: "in_order (dd_map s)" "list_all (\<lambda>(k, s). ds_id s = k) (dd_map s)" using assms by (simp_all add: statements_ok_def)
  then have "list_all (\<lambda>(k, st). ds_id st = k \<and> k \<in> dom (stmt_map s)) (dd_map s)"
    unfolding list_all_iff stmt_map_def dom_map_of_conv_image_fst by (auto intro: rev_image_eqI)
  from load_statements_source [OF this std_map.keys_distinct [OF o(1), simplified] assms run]
  have src: "case r of
      Inr res' \<Rightarrow> statements_ok res' \<and> dom (stmt_map res') = dom (stmt_map s)
        \<and> list_all (\<lambda>(k, s). \<exists>md. stmt_map res' k = Some (fst (with_metadata mfl md s))) (dd_map s)
    | Inl e \<Rightarrow> e = es_sql_syntax_err" by (auto split: sum.splits)
  show ?thesis
  proof (cases r)
    case (Inl e)
    then show ?thesis using src by (simp add: load_file_meta_data_def Some run)
  next
    case (Inr r')
    then have "dom (stmt_map r') = dom (stmt_map s)" and r': "statements_ok r'" using src by simp_all
    then have "map fst (dd_map r') = map fst (dd_map s)"
      using same_keys_same_order [of "dd_map r'" "dd_map s"] o by (simp add: statements_ok_def stmt_map_def dom_map_of_conv_image_fst)
    then show ?thesis using src Inr by (simp add: load_file_meta_data_def Some run with_metadata_source)
  qed
qed

text \<open>A database that records the calls it gets; what it answers may depend on all of them.\<close>

datatype db_call = Call_exec string | Call_describe string | Call_commit | Call_rollback

definition recorded_describe ::
  "(string \<Rightarrow> db_call list \<Rightarrow> db_sts + qry_metadata) \<Rightarrow> string \<Rightarrow> db_call list \<Rightarrow> (db_sts + qry_metadata) \<times> db_call list" where
  "recorded_describe de q h = (de q h, h @ [Call_describe q])"

definition recording ::
  "(string \<Rightarrow> db_call list \<Rightarrow> db_sts) \<Rightarrow> (string \<Rightarrow> db_call list \<Rightarrow> db_sts + qry_metadata) \<Rightarrow> db_call list db_ops" where
  "recording ex de =
     \<lparr>dbo_exec = (\<lambda>q h. (ex q h, h @ [Call_exec q])),
      dbo_describe = Some (recorded_describe de),
      dbo_commit = (\<lambda>h. (sts_success, h @ [Call_commit])),
      dbo_rollback = (\<lambda>h. (sts_success, h @ [Call_rollback]))\<rparr>"

definition optional_exec :: "string \<Rightarrow> db_call list" where
  "optional_exec q = (if q = [] then [] else [Call_exec q])"

text \<open>The calls of one statement, by how its unit of work ended.\<close>

definition unit_of_work :: "data_statement \<Rightarrow> bool \<Rightarrow> db_call list \<Rightarrow> bool" where
  "unit_of_work s committed u \<longleftrightarrow>
     u = optional_exec (ds_before_sql s) @ [Call_describe (ds_sql s)] @ optional_exec (ds_after_sql s)
         @ [if committed then Call_commit else Call_rollback]
   \<or> (\<not> committed \<and> ds_before_sql s \<noteq> [] \<and> u = [Call_exec (ds_before_sql s), Call_rollback])"

lemma load_statement_calls:
  assumes "load_statement sn (recording ex de) (recorded_describe de) mfl s h = ((r, h'), l)"
  shows "\<exists>u. h' = h @ u \<and> unit_of_work s (\<not> isl r) u"
  using assms
  by (auto simp: load_statement_def recording_def recorded_describe_def unit_of_work_def optional_exec_def is_success_def split_beta Let_def
      split: if_splits sum.splits)

definition units_of_work :: "data_statement list \<Rightarrow> bool \<Rightarrow> db_call list \<Rightarrow> bool" where
  "units_of_work ss ok calls \<longleftrightarrow> (\<exists>us. calls = concat us \<and>
     (if ok then list_all2 (\<lambda>s. unit_of_work s True) ss us
      else \<exists>i < length ss. length us = Suc i \<and> list_all2 (\<lambda>s. unit_of_work s True) (take i ss) (butlast us)
             \<and> unit_of_work (ss ! i) False (last us)))"

lemma units_of_work_Cons:
  assumes "unit_of_work s True u" "units_of_work ss ok calls"
  shows "units_of_work (s # ss) ok (u @ calls)"
proof -
  obtain us where us: "calls = concat us"
    "if ok then list_all2 (\<lambda>s. unit_of_work s True) ss us
      else \<exists>i < length ss. length us = Suc i \<and> list_all2 (\<lambda>s. unit_of_work s True) (take i ss) (butlast us)
             \<and> unit_of_work (ss ! i) False (last us)"
    using assms(2) by (auto simp: units_of_work_def)
  show ?thesis
  proof (cases ok)
    case True
    then show ?thesis unfolding units_of_work_def using us assms(1) by (intro exI [of _ "u # us"]) simp
  next
    case False
    then obtain i where "i < length ss" "length us = Suc i" "list_all2 (\<lambda>s. unit_of_work s True) (take i ss) (butlast us)"
      "unit_of_work (ss ! i) False (last us)" using us by auto
    moreover from this(2) have "us \<noteq> []" by auto
    ultimately show ?thesis unfolding units_of_work_def using us(1) assms(1) False
      by (intro exI [of _ "u # us"]) (auto intro!: exI [of _ "Suc i"])
  qed
qed

lemma load_statements_calls:
  "load_statements sn (recording ex de) (recorded_describe de) mfl rest res h = ((r, h'), l)
   \<Longrightarrow> \<exists>calls. h' = h @ calls \<and> units_of_work (map snd rest) (\<not> isl r) calls"
proof (induction rest arbitrary: res h l)
  case Nil
  then show ?case by (auto simp: units_of_work_def)
next
  case (Cons ks rest)
  obtain k s where ks: "ks = (k, s)" by force
  obtain r1 h1 l1 where st: "load_statement sn (recording ex de) (recorded_describe de) mfl s h = ((r1, h1), l1)"
    by (metis prod.collapse)
  obtain u where u: "h1 = h @ u" "unit_of_work s (\<not> isl r1) u" using load_statement_calls [OF st] by blast
  show ?case
  proof (cases r1)
    case (Inl e)
    then have "units_of_work (map snd (ks # rest)) False u"
      unfolding units_of_work_def using u(2) by (intro exI [of _ "[u]"]) (auto simp: ks intro!: exI [of _ 0])
    moreover have "r = Inl e" "h' = h1" using Cons.prems by (auto simp: ks st Inl)
    ultimately show ?thesis using u(1) by auto
  next
    case (Inr s')
    obtain l2 where "load_statements sn (recording ex de) (recorded_describe de) mfl rest
        (snd (add_statement_with_replace s' res)) h1 = ((r, h'), l2)"
      using load_statements_step [OF st [unfolded Inr] Cons.prems [unfolded ks]] by blast
    from Cons.IH [OF this] obtain calls where "h' = h1 @ calls" "units_of_work (map snd rest) (\<not> isl r) calls" by blast
    moreover have "unit_of_work s True u" using u(2) Inr by simp
    ultimately have "h' = h @ (u @ calls) \<and> units_of_work (map snd (ks # rest)) (\<not> isl r) (u @ calls)"
      using units_of_work_Cons [of s u "map snd rest" "\<not> isl r" calls] u(1) by (simp add: ks)
    then show ?thesis by blast
  qed
qed

text \<open>C10: what the database is asked while a file is described. Each statement is one unit of work: its
  \<open>before\<close> text if it has one, the description, its \<open>after\<close> text if it has one, then one commit;
  the loop stops at the first statement that fails, whose unit ends with one rollback and, when
  \<open>before\<close> itself failed, consists of nothing else. Whatever the answers are.\<close>

theorem description_units_of_work:
  "let ((r, calls), l) = load_file_meta_data sn (recording ex de) mfl s []
   in units_of_work (map snd (dd_map s)) (\<not> isl r) calls"
proof -
  obtain r h l where run: "load_file_meta_data sn (recording ex de) mfl s [] = ((r, h), l)" by (metis prod.collapse)
  then have "load_statements sn (recording ex de) (recorded_describe de) mfl (dd_map s) s [] = ((r, h), l)"
    by (simp add: load_file_meta_data_def recording_def)
  from load_statements_calls [OF this] run show ?thesis by auto
qed

theorem description_keeps_statements_witness:
  "let d = default_data_statements\<lparr>dd_map := [(''q'', default_data_statement\<lparr>ds_id := ''q'', ds_sql := ''select 1''\<rparr>)]\<rparr>
   in case fst (fst (load_file_meta_data (\<lambda>_. []) (recording (\<lambda>q h. sts_success) (\<lambda>q h. Inl sts_error)) 100 d [])) of
        Inr r \<Rightarrow> False | Inl e \<Rightarrow> e = es_sql_syntax_err"
  using description_keeps_statements [where s = "default_data_statements\<lparr>dd_map := [(''q'', default_data_statement\<lparr>ds_id := ''q'', ds_sql := ''select 1''\<rparr>)]\<rparr>"
      and ops = "recording (\<lambda>q h. sts_success) (\<lambda>q h. Inl sts_error)" and sn = "\<lambda>_. []" and mfl = 100 and c = "[]"]
  by (simp add: statements_ok_def in_order_def default_data_statements_def default_data_statement_def
      load_file_meta_data_def recording_def recorded_describe_def load_statement_def is_success_def)

theorem blank_sql_accepted_witness:
  "\<exists>st. fst (parse_statement \<lparr>yl_bad_subscript = (\<lambda>k. k), yl_bad_conversion = [], yl_as_size = (\<lambda>_. None), yl_lines = (\<lambda>_. [])\<rparr> dt_psql
     \<lparr>py_root = YNode 0 0 (Y_map
        [(YNode 0 0 (Y_scalar ''id''), YNode 0 4 (Y_scalar ''q'')),
         (YNode 1 0 (Y_scalar ''psql''), YNode 1 6 (Y_scalar '' ''))]), py_filename = ''f''\<rparr>) = Inr st \<and> ds_id st = ''q'' \<and> ds_sql st = []"
  by (rule blank_sql_accepted [where w = "'' ''"])
     (simp_all add: text_at_def node_at_def subscript_def is_null_def is_space_def)

end
