(* ===== verification/Generator.thy ===== *)
theory Generator
  imports Parser Inja_Ast
begin

text \<open>
  The code generator (\<open>src/dbgen4/gen/generator.hpp\<close>, \<open>generator.cpp\<close>): the fragments of code for a
  column, the document the templates are filled with, the callbacks of the templates and the
  writing of the two files. The template engine inja, the clock, the names of enumerators
  (magic\_enum) and the text of a JSON value are parameters. Lines logged at the levels error and
  critical are returned in order; those below are left out.
\<close>

subsection \<open>Arguments of callbacks\<close>

definition get_size :: "json_lib \<Rightarrow> json \<Rightarrow> nat cpp" where
  "get_size lib j =
     (case j of J_int i \<Rightarrow> Ret (nat (i mod 2 ^ 64)) | J_float t \<Rightarrow> Ret (nat (jl_float_to_int lib t mod 2 ^ 64))
      | _ \<Rightarrow> Throws (jl_type_error lib j))"

definition get_string :: "json_lib \<Rightarrow> json \<Rightarrow> string cpp" where
  "get_string lib j = (case j of J_string t \<Rightarrow> Ret t | _ \<Rightarrow> Throws (jl_type_error lib j))"

subsection \<open>Helpers of the templates\<close>

text \<open>A null pointer is \<open>None\<close>.\<close>

definition to_str :: "json_lib \<Rightarrow> json option \<Rightarrow> string \<Rightarrow> string" where
  "to_str lib arg fallback =
     (case arg of
        None \<Rightarrow> fallback
      | Some j \<Rightarrow> (case j of
            J_null \<Rightarrow> fallback
          | J_string t \<Rightarrow> t
          | J_int i \<Rightarrow> dec_int (sint (word_of_int i :: i64))
          | J_float t \<Rightarrow> dec_int (jl_float_to_int lib t)
          | J_bool b \<Rightarrow> if b then ''true'' else ''false''
          | _ \<Rightarrow> jl_dump lib j))"

definition bind_cpp :: "'a cpp \<Rightarrow> ('a \<Rightarrow> 'b cpp) \<Rightarrow> 'b cpp" where
  "bind_cpp m f = (case m of Ret x \<Rightarrow> f x | Throws e \<Rightarrow> Throws e | Assert_failed \<Rightarrow> Assert_failed
     | Undefined_behaviour \<Rightarrow> Undefined_behaviour)"

text \<open>The common part of \<open>pad_impl\<close> and \<open>lpad_impl\<close>: the framed text, the width and the fill character;
  \<open>deflt\<close> is the character when the fill text is empty.\<close>

definition pad_args :: "json_lib \<Rightarrow> char \<Rightarrow> json list \<Rightarrow> (string \<times> nat \<times> char) cpp" where
  "pad_args lib deflt args =
     (if length args < 2 then Throws ''pad needs at least 2 args''
      else
        bind_cpp (get_size lib (args ! 1)) (\<lambda>len.
        bind_cpp (if length args > 2 then get_string lib (args ! 2) else Ret []) (\<lambda>leading.
        bind_cpp (if length args > 3 then get_string lib (args ! 3) else Ret leading) (\<lambda>trailing.
        bind_cpp (if length args > 4 then get_string lib (args ! 4) else Ret '' '') (\<lambda>fill_char.
          Ret (leading @ to_str lib (Some (args ! 0)) [] @ trailing, len,
               if fill_char \<noteq> [] then hd fill_char else deflt))))))"

definition pad_impl :: "json_lib \<Rightarrow> json list \<Rightarrow> string cpp" where
  "pad_impl lib args =
     bind_cpp (pad_args lib (CHR '' '') args) (\<lambda>(str, len, pad_char).
       Ret (if length str \<ge> len then str else str @ replicate (len - length str) pad_char))"

definition lpad_impl :: "json_lib \<Rightarrow> json list \<Rightarrow> string cpp" where
  "lpad_impl lib args =
     bind_cpp (pad_args lib (CHR ''-'') args) (\<lambda>(str, len, pad_char).
       Ret (if length str \<ge> len then str else replicate (len - length str) pad_char @ str))"

subsection \<open>Fragments of code\<close>

definition unqualified :: "string \<Rightarrow> string" where
  "unqualified type_name = (if take 5 type_name = ''rtl::'' then drop 5 type_name else type_name)"

definition attr_storage_type :: "sql_type \<Rightarrow> string \<Rightarrow> string" where
  "attr_storage_type t name =
     (let dscr = get_sql_mapping t in
      case sm_category dscr of
        cat_atomic \<Rightarrow> if sm_cpp_type_name dscr = ''bool'' then ''uint8_t'' else unqualified (sm_cpp_type_name dscr)
      | cat_structure \<Rightarrow> unqualified (sm_cpp_type_name dscr)
      | cat_c_string \<Rightarrow> ''std::array<'' @ unqualified (sm_cpp_type_name dscr) @ '', l_'' @ name @ ''+1>''
      | cat_w_string \<Rightarrow> ''std::array<'' @ unqualified (sm_cpp_type_name dscr) @ '', l_'' @ name @ ''+1>''
      | cat_b_string \<Rightarrow> ''std::array<'' @ unqualified (sm_cpp_type_name dscr) @ '', l_'' @ name @ ''>'')"

definition attr_storage_raw_type :: "sql_type \<Rightarrow> nat \<Rightarrow> string" where
  "attr_storage_raw_type t len =
     (let dscr = get_sql_mapping t in
      case sm_category dscr of
        cat_atomic \<Rightarrow> sm_cpp_type_name dscr
      | cat_structure \<Rightarrow> sm_cpp_type_name dscr
      | cat_c_string \<Rightarrow> sm_cpp_type_name dscr @ ''['' @ align_right 3 (dec len) @ ''+1]''
      | cat_w_string \<Rightarrow> sm_cpp_type_name dscr @ ''['' @ align_right 3 (dec len) @ ''+1]''
      | cat_b_string \<Rightarrow> sm_cpp_type_name dscr @ ''['' @ align_right 3 (dec len) @ '']'')"

definition attr_base_type :: "sql_type \<Rightarrow> string" where
  "attr_base_type t = sm_cpp_type_name (get_sql_mapping t)"

definition attr_getter_code :: "sql_type \<Rightarrow> string \<Rightarrow> string" where
  "attr_getter_code t name =
     (let dscr = get_sql_mapping t;
          plain = ''{ return '' @ name @ ''_.at(row);}'';
          view = ''{ return {'' @ name @ ''_.at(row).data(), '' @ name @ ''_length(row) };}''
      in case sm_category dscr of
           cat_atomic \<Rightarrow> if sm_cpp_type_name dscr = ''bool''
             then ''{ return static_cast<bool>('' @ name @ ''_.at(row));}'' else plain
         | cat_structure \<Rightarrow> plain
         | cat_c_string \<Rightarrow> view
         | cat_w_string \<Rightarrow> view
         | cat_b_string \<Rightarrow> view)"

definition set_value_code :: "string \<Rightarrow> string \<Rightarrow> string \<Rightarrow> string" where
  "set_value_code char_type cap name =
     ''{rtl::set_value<'' @ char_type @ '','' @ cap @ ''>(v, row, len_'' @ name @ ''_, '' @ name @ ''_);}''"

definition attr_setter_code :: "sql_type \<Rightarrow> string \<Rightarrow> string" where
  "attr_setter_code t name =
     (let dscr = get_sql_mapping t;
          len = '' len_'' @ name @ ''_.at(row) = static_cast<int32_t>(sizeof('' @ name @ ''_.at(0)));}'';
          plain = ''{ '' @ name @ ''_.at(row) = v;'' @ len
      in case sm_category dscr of
           cat_atomic \<Rightarrow> if sm_cpp_type_name dscr = ''bool''
             then ''{ '' @ name @ ''_.at(row) = static_cast<uint8_t>(v);'' @ len else plain
         | cat_structure \<Rightarrow> plain
         | cat_c_string \<Rightarrow> set_value_code ''char'' (''l_'' @ name @ ''+1'') name
         | cat_w_string \<Rightarrow> set_value_code ''wchar_t'' (''l_'' @ name @ ''+1'') name
         | cat_b_string \<Rightarrow> set_value_code ''uint8_t'' (''l_'' @ name) name)"

definition attr_dump_value_to_string :: "sql_type \<Rightarrow> string \<Rightarrow> string" where
  "attr_dump_value_to_string t name =
     (case sm_category (get_sql_mapping t) of
        cat_structure \<Rightarrow> ''fmt::format('' @ [CHR 0x22] @ ''{}'' @ [CHR 0x22] @ '', '' @ name @ ''(n))''
      | cat_atomic \<Rightarrow> name @ ''(n)''
      | cat_c_string \<Rightarrow> name @ ''(n)''
      | cat_w_string \<Rightarrow> ''dbgen4::to_utf8('' @ name @ ''(n))''
      | cat_b_string \<Rightarrow> ''dbgen4::to_hex('' @ name @ ''(n))'')"

subsection \<open>The generator\<close>

datatype inja_tpl_enum = tpl_main_hpp | tpl_main_cpp | tpl_buf_hpp | tpl_buf_cpp

datatype gen_fn_tpl_names = fn_hpp | fn_cpp | fn_json

primrec inja_tpl_name :: "inja_tpl_enum \<Rightarrow> string" where
  "inja_tpl_name tpl_main_hpp = ''main_hpp''"
| "inja_tpl_name tpl_main_cpp = ''main_cpp''"
| "inja_tpl_name tpl_buf_hpp = ''buf_hpp''"
| "inja_tpl_name tpl_buf_cpp = ''buf_cpp''"

definition template_filename :: "inja_tpl_enum \<Rightarrow> string" where
  "template_filename tpl_id = ''template/'' @ inja_tpl_name tpl_id @ ''.jinja''"

primrec fn_tpl :: "gen_fn_tpl_names \<Rightarrow> string" where
  "fn_tpl fn_hpp = ''{}/{}.hpp''"
| "fn_tpl fn_cpp = ''{}/{}.cpp''"
| "fn_tpl fn_json = ''{}/{}.json''"

text \<open>\<open>ge_render\<close> is \<open>env.render\<close>, \<open>ge_parse\<close> is \<open>env.parse\<close>.\<close>

record 't gen_env =
  ge_render :: "'t \<Rightarrow> json \<Rightarrow> inja_error + string"
  ge_parse :: "string \<Rightarrow> inja_error + 't"
  ge_empty_template :: 't
  ge_timestamp :: string
  ge_type_name :: "sql_type \<Rightarrow> string"
  ge_cat_name :: "sql_cat \<Rightarrow> string"
  ge_folder_exists :: "string \<Rightarrow> bool"
  ge_create_folder :: "string \<Rightarrow> (string \<times> int) option"

record 't generator =
  gn_out_folder :: string
  gn_db_type :: db_type_enum
  gn_yaml_fn :: string
  gn_barename :: string
  gn_data :: json
  gn_templates :: "inja_tpl_enum \<rightharpoonup> 't"

definition make_generator :: "string \<Rightarrow> db_type_enum \<Rightarrow> 't generator" where
  "make_generator out_folder db_type = \<lparr>gn_out_folder = out_folder, gn_db_type = db_type, gn_yaml_fn = [],
     gn_barename = [], gn_data = J_null, gn_templates = Map.empty\<rparr>"

definition gen_filename :: "'t generator \<Rightarrow> gen_fn_tpl_names \<Rightarrow> string" where
  "gen_filename g tpl_type = fmt_args (fn_tpl tpl_type) [gn_out_folder g, gn_barename g]"

text \<open>The name and the stem of a path.\<close>

definition path_filename :: "string \<Rightarrow> string" where
  "path_filename p = rev (takeWhile (\<lambda>c. c \<noteq> CHR ''/'') (rev p))"

definition path_stem :: "string \<Rightarrow> string" where
  "path_stem p =
     (let f = path_filename p; before_dot = rev (drop 1 (dropWhile (\<lambda>c. c \<noteq> CHR ''.'') (rev f))) in
      if f = ''.'' \<or> f = ''..'' \<or> before_dot = [] then f else before_dot)"

definition set_yaml_fn_and_barename :: "string \<Rightarrow> 't generator \<Rightarrow> 't generator" where
  "set_yaml_fn_and_barename yaml_fn g = g\<lparr>gn_yaml_fn := yaml_fn, gn_barename := path_stem yaml_fn\<rparr>"

definition load_template :: "'t gen_env \<Rightarrow> file_system \<Rightarrow> inja_tpl_enum \<Rightarrow> (inja_error + exit_status_enum + 't) \<times> string list" where
  "load_template e fs tpl_id =
     (let template_fn = template_filename tpl_id in
      case read_file fs template_fn of
        Inl err \<Rightarrow> (Inr (Inl es_error_reading_file), [fmt_args (get_exit_code_str es_error_reading_file) [template_fn, err]])
      | Inr text \<Rightarrow> (case ge_parse e text of Inl ex \<Rightarrow> (Inl ex, []) | Inr t \<Rightarrow> (Inr (Inr t), [])))"

definition gen_error :: "string \<Rightarrow> string \<Rightarrow> inja_error \<Rightarrow> string" where
  "gen_error filename_tpl template_str ex =
     ''Render error file: '' @ quoted filename_tpl @ '' error: '' @ quoted (ie_what ex) @ '' line: '' @ dec (ie_line ex)
     @ '' col: '' @ dec (ie_column ex) @ '' template: '' @ nl @ template_str @ ''.''"

text \<open>The handlers of \<open>prepare_templates\<close>: the classes without one of their own are caught as \<open>InjaError\<close>.\<close>

definition prepare_code :: "inja_class \<Rightarrow> exit_status_enum option" where
  "prepare_code c = (case c of Inja_render \<Rightarrow> Some es_inja_render_error | Inja_parser \<Rightarrow> Some es_inja_parser_error
     | Not_inja \<Rightarrow> None | _ \<Rightarrow> Some es_inja_general_error)"

definition all_templates :: "inja_tpl_enum list" where
  "all_templates = [tpl_main_hpp, tpl_main_cpp, tpl_buf_hpp, tpl_buf_cpp]"

fun prepare_loop ::
  "'t gen_env \<Rightarrow> file_system \<Rightarrow> inja_tpl_enum list \<Rightarrow> 't generator
     \<Rightarrow> ((exit_status_enum + unit) cpp \<times> 't generator) \<times> string list" where
  "prepare_loop e fs [] g = ((Ret (Inr ()), g), [])"
| "prepare_loop e fs (tpl_id # ids) g =
     (case load_template e fs tpl_id of
        (Inl ex, l) \<Rightarrow>
          (case prepare_code (ie_class ex) of
             Some code \<Rightarrow> ((Ret (Inl code), g), l @ [gen_error (template_filename tpl_id) ''Prepare templates'' ex])
           | None \<Rightarrow> ((Throws (ie_what ex), g), l))
      | (Inr (Inl err), l) \<Rightarrow> ((Ret (Inl es_error_reading_file), g), l)
      | (Inr (Inr t), l) \<Rightarrow>
          (let g' = (if gn_templates g tpl_id = None then g\<lparr>gn_templates := (gn_templates g)(tpl_id \<mapsto> t)\<rparr> else g);
               (r, l') = prepare_loop e fs ids g'
           in (r, l @ l')))"

definition prepare_templates ::
  "'t gen_env \<Rightarrow> file_system \<Rightarrow> 't generator \<Rightarrow> ((exit_status_enum + unit) cpp \<times> 't generator) \<times> string list" where
  "prepare_templates e fs g = prepare_loop e fs all_templates g"

definition render_code :: "inja_class \<Rightarrow> exit_status_enum option" where
  "render_code c = (case c of Inja_render \<Rightarrow> Some es_inja_render_error | Inja_parser \<Rightarrow> Some es_inja_parser_error
     | Inja_file \<Rightarrow> Some es_inja_file_error | Inja_data \<Rightarrow> Some es_inja_data_error | _ \<Rightarrow> None)"

text \<open>A template that was not loaded is the empty one: \<open>templates_[tpl_type]\<close>.\<close>

definition generate_file_through_template ::
  "'t gen_env \<Rightarrow> 't generator \<Rightarrow> json \<Rightarrow> inja_tpl_enum \<Rightarrow> (exit_status_enum + string) cpp \<times> string list" where
  "generate_file_through_template e g data tpl_type =
     (case ge_render e (case gn_templates g tpl_type of Some t \<Rightarrow> t | None \<Rightarrow> ge_empty_template e) data of
        Inr text \<Rightarrow> (Ret (Inr text), [])
      | Inl ex \<Rightarrow>
          (case render_code (ie_class ex) of
             Some code \<Rightarrow> (Ret (Inl code), [gen_error (template_filename tpl_type) ''generate'' ex])
           | None \<Rightarrow> (Throws (ie_what ex), [])))"

subsection \<open>The document\<close>

definition attr_mappings :: "'t gen_env \<Rightarrow> meta_dscr \<Rightarrow> json" where
  "attr_mappings e el =
     (let dscr = get_sql_mapping (md_type el) in
      put_all J_null
        [(''index'', J_int (sint (md_index el))),
         (''name'', J_string (md_name el)),
         (''col-name'', J_string ([CHR 0x22] @ md_name el @ [CHR 0x22])),
         (''base-type'', J_string (sm_cpp_type_name dscr)),
         (''type'', J_string (ge_type_name e (md_type el))),
         (''mnemonic'', J_string (sm_mnemonic dscr)),
         (''size'', J_int (uint (md_size el))),
         (''digits'', J_int (sint (md_digits el))),
         (''nullable'', J_int (sint (md_nullable el))),
         (''category'', J_string (ge_cat_name e (sm_category dscr))),
         (''as-param'', J_string (unqualified (sm_par_type_name dscr))),
         (''as-result'', J_string (unqualified (sm_ret_type_name dscr))),
         (''storage'', J_string (attr_storage_type (md_type el) (md_name el))),
         (''storage-raw'', J_string (attr_storage_raw_type (md_type el) (unat (md_size el)))),
         (''getter-code'', J_string (attr_getter_code (md_type el) (md_name el))),
         (''setter-code'', J_string (attr_setter_code (md_type el) (md_name el))),
         (''dump-value'', J_string (attr_dump_value_to_string (md_type el) (md_name el)))])"

record helper_flags =
  needs_rtl_fmt :: bool
  needs_utf8 :: bool
  needs_hex :: bool

definition note_helpers :: "meta_dscr \<Rightarrow> helper_flags \<Rightarrow> helper_flags" where
  "note_helpers el f =
     (case sm_category (get_sql_mapping (md_type el)) of
        cat_structure \<Rightarrow> f\<lparr>needs_rtl_fmt := True\<rparr>
      | cat_w_string \<Rightarrow> f\<lparr>needs_utf8 := True\<rparr>
      | cat_b_string \<Rightarrow> f\<lparr>needs_hex := True\<rparr>
      | _ \<Rightarrow> f)"

text \<open>A text as a block of comment lines.\<close>

definition comment_block :: "string \<Rightarrow> string \<Rightarrow> string" where
  "comment_block prefix t = join (prefix_split (trim_whitespace_view t) (CHR 0x0A) prefix) nl"

definition stmt_to_json :: "'t gen_env \<Rightarrow> data_statement \<Rightarrow> json" where
  "stmt_to_json e stmt =
     put_all J_null
       [(''id'', J_string (ds_id stmt)),
        (''sql'', J_string (comment_block ''     *   '' (ds_sql stmt))),
        (''summary'', J_string (ds_summary stmt)),
        (''dscr'', J_string (if ds_dscr stmt = [] then [] else comment_block ''   * '' (ds_dscr stmt))),
        (''sql-literal'', J_string (trim_whitespace_view (ds_sql stmt))),
        (''res-set-size'', J_int (int (ds_res_buf_size stmt))),
        (''par-set-size'', J_int (int (ds_par_buf_size stmt))),
        (''result'', J_array (map (attr_mappings e) (ds_results stmt))),
        (''param'', J_array (map (attr_mappings e) (ds_params stmt)))]"

definition stmt_helpers :: "data_statement \<Rightarrow> helper_flags \<Rightarrow> helper_flags" where
  "stmt_helpers stmt f = fold note_helpers (ds_params stmt) (fold note_helpers (ds_results stmt) f)"

definition internal_model_to_json :: "'t gen_env \<Rightarrow> 't generator \<Rightarrow> data_statements \<Rightarrow> json" where
  "internal_model_to_json e g s =
     (let stmts = map snd (dd_map s);
          flags = fold stmt_helpers stmts \<lparr>needs_rtl_fmt = False, needs_utf8 = False, needs_hex = False\<rparr>
      in put_all J_null
        [(''cpp-file'', J_string (gen_filename g fn_cpp)),
         (''hpp-file'', J_string (gen_filename g fn_hpp)),
         (''hpp-include-file'', J_string (path_filename (gen_filename g fn_hpp))),
         (''summary'', J_string (dd_summary s)),
         (''description'', J_string (comment_block '' *   '' (dd_description s))),
         (''version'', J_string ''0.1.0''),
         (''schema'', J_string (map (\<lambda>c. if c = CHR ''-'' then CHR ''_'' else c) (gn_barename g))),
         (''timestamp'', J_string (ge_timestamp e)),
         (''statements'', J_array (map (stmt_to_json e) stmts)),
         (''needs-rtl-fmt'', J_bool (needs_rtl_fmt flags)),
         (''needs-utf8'', J_bool (needs_utf8 flags)),
         (''needs-hex'', J_bool (needs_hex flags))])"

subsection \<open>Callbacks\<close>

definition buffer_data :: "json \<Rightarrow> json \<Rightarrow> string \<Rightarrow> (string \<times> json) list \<Rightarrow> json" where
  "buffer_data j_data buf class_name extra =
     (let is_param = (class_name = ''p'') in
      put_all j_data
        ([(''buf'', buf), (''class-name'', J_string class_name)] @ extra
         @ [(''is-param'', J_bool is_param),
            (''root-class'', J_string (if is_param then ''rtl::parameter_root'' else ''rtl::result_root''))]))"

text \<open>Rendering a template that was loaded before; a missing one is an exception of \<open>at\<close>.\<close>

definition render_buffer :: "'t gen_env \<Rightarrow> 't generator \<Rightarrow> inja_tpl_enum \<Rightarrow> json \<Rightarrow> string cpp" where
  "render_buffer e g tpl data =
     (case gn_templates g tpl of
        None \<Rightarrow> Throws ''map::at''
      | Some t \<Rightarrow>
          (case ge_render e t data of
             Inl ex \<Rightarrow> Throws (ie_what ex)
           | Inr out \<Rightarrow> Ret (trim_trailing_whitespace_view out)))"

definition get_int :: "json_lib \<Rightarrow> json \<Rightarrow> int cpp" where
  "get_int lib j =
     (case j of J_int i \<Rightarrow> Ret (sint (word_of_int i :: i32)) | J_float t \<Rightarrow> Ret (sint (word_of_int (jl_float_to_int lib t) :: i32))
      | J_bool b \<Rightarrow> Ret (if b then 1 else 0) | _ \<Rightarrow> Throws (jl_type_error lib j))"

definition buffer_definition :: "json_lib \<Rightarrow> 't gen_env \<Rightarrow> 't generator \<Rightarrow> json \<Rightarrow> json \<Rightarrow> json \<Rightarrow> string cpp" where
  "buffer_definition lib e g buf class_arg size_arg =
     bind_cpp (get_string lib class_arg) (\<lambda>class_name.
     bind_cpp (get_int lib size_arg) (\<lambda>buf_size.
       render_buffer e g tpl_buf_hpp (buffer_data (gn_data g) buf class_name [(''buf-size'', J_int buf_size)])))"

definition buffer_implementation :: "json_lib \<Rightarrow> 't gen_env \<Rightarrow> 't generator \<Rightarrow> json \<Rightarrow> json \<Rightarrow> string cpp" where
  "buffer_implementation lib e g buf class_arg =
     bind_cpp (get_string lib class_arg) (\<lambda>class_name.
       render_buffer e g tpl_buf_cpp (buffer_data (gn_data g) buf class_name []))"

subsection \<open>Writing the files\<close>

definition write_generated ::
  "'t gen_env \<Rightarrow> 't generator \<Rightarrow> json \<Rightarrow> inja_tpl_enum \<Rightarrow> file_system
     \<Rightarrow> ((exit_status_enum + unit) cpp \<times> file_system) \<times> string list" where
  "write_generated e g data tpl_id fs =
     (let fn = (if tpl_id = tpl_main_hpp then gen_filename g fn_hpp else gen_filename g fn_cpp) in
      case generate_file_through_template e g data tpl_id of
        (Ret (Inr text), l) \<Rightarrow>
          (case write_file fs fn text of
             (Inl _, fs') \<Rightarrow> ((Ret (Inl es_ok), fs'), l)
           | (Inr _, fs') \<Rightarrow> ((Ret (Inr ()), fs'), l))
      | (Ret (Inl code), l) \<Rightarrow> ((Ret (Inl code), fs), l)
      | (Throws what, l) \<Rightarrow> ((Throws what, fs), l)
      | (Assert_failed, l) \<Rightarrow> ((Assert_failed, fs), l)
      | (Undefined_behaviour, l) \<Rightarrow> ((Undefined_behaviour, fs), l))"

fun write_loop ::
  "'t gen_env \<Rightarrow> 't generator \<Rightarrow> json \<Rightarrow> inja_tpl_enum list \<Rightarrow> file_system
     \<Rightarrow> ((exit_status_enum + string) cpp \<times> file_system) \<times> string list" where
  "write_loop e g data [] fs = ((Ret (Inr []), fs), [])"
| "write_loop e g data (tpl_id # ids) fs =
     (case write_generated e g data tpl_id fs of
        ((Ret (Inr _), fs'), l) \<Rightarrow> (let (r, l') = write_loop e g data ids fs' in (r, l @ l'))
      | ((Ret (Inl code), fs'), l) \<Rightarrow> ((Ret (Inl code), fs'), l)
      | ((Throws what, fs'), l) \<Rightarrow> ((Throws what, fs'), l)
      | ((Assert_failed, fs'), l) \<Rightarrow> ((Assert_failed, fs'), l)
      | ((Undefined_behaviour, fs'), l) \<Rightarrow> ((Undefined_behaviour, fs'), l))"

text \<open>\<open>ge_create_folder\<close> answers the error text and code when the folder was not made.\<close>

definition generate ::
  "'t gen_env \<Rightarrow> 't generator \<Rightarrow> data_statements \<Rightarrow> file_system
     \<Rightarrow> ((exit_status_enum + string) cpp \<times> file_system) \<times> string list" where
  "generate e g s fs =
     (let data = internal_model_to_json e g s; path = gn_out_folder g in
      case (if ge_folder_exists e path then None else ge_create_folder e path) of
        Some (message, code) \<Rightarrow>
          (let msg = ''Program was not able to create folder '' @ quoted path @ '' msg: '' @ message @ '' code: '' @ dec_int code
           in ((Throws msg, fs), [msg]))
      | None \<Rightarrow> write_loop e g data [tpl_main_hpp, tpl_main_cpp] fs)"

subsection \<open>Properties\<close>

lemma put_key_fresh: "k \<notin> fst ` set kvs \<Longrightarrow> put_key k v kvs = kvs @ [(k, v)]"
  by (simp add: put_key_def)

lemma foldl_put_fresh:
  "distinct (map fst (kvs @ new)) \<Longrightarrow> foldl put (J_object kvs) new = J_object (kvs @ new)"
proof (induction new arbitrary: kvs)
  case (Cons kv new)
  then have "fst kv \<notin> fst ` set kvs" by (auto simp: image_iff)
  then have "put (J_object kvs) kv = J_object (kvs @ [kv])" by (cases kv) (simp add: put_key_fresh)
  then show ?case using Cons.IH [of "kvs @ [kv]"] Cons.prems by simp
qed simp

text \<open>Keys that are all different are listed in the order they were put.\<close>

lemma put_all_null: "new \<noteq> [] \<Longrightarrow> distinct (map fst new) \<Longrightarrow> put_all J_null new = J_object new"
  using foldl_put_fresh [of "[hd new]" "tl new"] by (cases new) (auto simp: put_all_def)

text \<open>Padding: when \<open>pad\<close> and \<open>lpad\<close> answer, the answer is the framed text filled up on the right or on
  the left with one character to the width that was asked for, and the framed text itself when it
  is that wide already; nothing is ever cut.\<close>

theorem padding_exact:
  "(case pad_args lib d args of
      Ret (t, n, c) \<Rightarrow>
        (d = CHR '' '' \<longrightarrow> (\<exists>r. pad_impl lib args = Ret r \<and> length r = max n (length t) \<and> take (length t) r = t
             \<and> list_all (\<lambda>x. x = c) (drop (length t) r)))
      \<and> (d = CHR ''-'' \<longrightarrow> (\<exists>r. lpad_impl lib args = Ret r \<and> length r = max n (length t) \<and> drop (length r - length t) r = t
             \<and> list_all (\<lambda>x. x = c) (take (length r - length t) r)))
    | Throws w \<Rightarrow> d = CHR '' '' \<longrightarrow> pad_impl lib args = Throws w
    | _ \<Rightarrow> True)"
  by (auto simp: pad_impl_def lpad_impl_def bind_cpp_def list_all_iff max_def split: cpp.splits)

lemma get_sql_mapping_in_table: "get_sql_mapping t \<in> set sql_to_cpp_table"
  unfolding get_sql_mapping_def get_sql_mapping_at_def
  by (auto intro!: nth_mem simp: make_table(2) sql_type_count_eq Let_def)

lemma string_storage_names:
  "case sm_category (get_sql_mapping t) of
     cat_c_string \<Rightarrow> sm_cpp_type_name (get_sql_mapping t) = ''char''
   | cat_w_string \<Rightarrow> sm_cpp_type_name (get_sql_mapping t) = ''wchar_t''
   | cat_b_string \<Rightarrow> sm_cpp_type_name (get_sql_mapping t) = ''uint8_t''
   | _ \<Rightarrow> True"
proof -
  have "list_all (\<lambda>m. case sm_category m of
      cat_c_string \<Rightarrow> sm_cpp_type_name m = ''char'' | cat_w_string \<Rightarrow> sm_cpp_type_name m = ''wchar_t''
    | cat_b_string \<Rightarrow> sm_cpp_type_name m = ''uint8_t'' | _ \<Rightarrow> True) sql_to_cpp_table"
    unfolding sql_to_cpp_table_map by (simp add: entry_defs mapping_of_def)
  then show ?thesis using get_sql_mapping_in_table unfolding list_all_iff by blast
qed

text \<open>C36: the storage of a string column and the code that fills it agree for every such type: the setter
  names the element type and the extent of the very array the column is stored in, although it
  spells the element type out by itself while the storage takes it from the table.\<close>

theorem setter_matches_storage:
  assumes "is_string_cat t"
  shows "\<exists>elem ext. attr_storage_type t name = ''std::array<'' @ elem @ '', '' @ ext @ ''>''
     \<and> attr_setter_code t name = set_value_code elem ext name"
proof -
  let ?n = "sm_cpp_type_name (get_sql_mapping t)"
  have u: "unqualified ''char'' = ''char''" "unqualified ''wchar_t'' = ''wchar_t''" "unqualified ''uint8_t'' = ''uint8_t''"
    by (simp_all add: unqualified_def)
  have "attr_storage_type t name = ''std::array<'' @ ?n @ '', '' @
          (''l_'' @ name @ (if sm_category (get_sql_mapping t) = cat_b_string then [] else ''+1'')) @ ''>''
     \<and> attr_setter_code t name = set_value_code ?n
          (''l_'' @ name @ (if sm_category (get_sql_mapping t) = cat_b_string then [] else ''+1'')) name"
    using assms string_storage_names [of t] u
    by (auto simp: is_string_cat_def Let_def attr_storage_type_def attr_setter_code_def)
  then show ?thesis by blast
qed

theorem setter_matches_storage_witness:
  "\<exists>elem ext. attr_storage_type st_var_char ''a'' = ''std::array<'' @ elem @ '', '' @ ext @ ''>''
     \<and> attr_setter_code st_var_char ''a'' = set_value_code elem ext ''a''"
  by (rule setter_matches_storage [OF varchar_is_string])

lemma json_put_all_field: "distinct (map fst new) \<Longrightarrow> new \<noteq> [] \<Longrightarrow> field (put_all J_null new) k = map_of new k"
  by (simp add: put_all_null)

text \<open>Every column of a file.\<close>

definition all_columns :: "data_statements \<Rightarrow> meta_dscr list" where
  "all_columns s = concat (map (\<lambda>(k, st). ds_results st @ ds_params st) (dd_map s))"

lemma note_helpers_fold:
  "needs_rtl_fmt (fold note_helpers cs f) \<longleftrightarrow> needs_rtl_fmt f \<or> list_ex (\<lambda>c. sm_category (get_sql_mapping (md_type c)) = cat_structure) cs"
  "needs_utf8 (fold note_helpers cs f) \<longleftrightarrow> needs_utf8 f \<or> list_ex (\<lambda>c. sm_category (get_sql_mapping (md_type c)) = cat_w_string) cs"
  "needs_hex (fold note_helpers cs f) \<longleftrightarrow> needs_hex f \<or> list_ex (\<lambda>c. sm_category (get_sql_mapping (md_type c)) = cat_b_string) cs"
  by (induction cs arbitrary: f) (auto simp: note_helpers_def split: sql_cat.splits)

lemma stmt_helpers_fold:
  "fold stmt_helpers (map snd kss) f = fold note_helpers (concat (map (\<lambda>(k, st). ds_results st @ ds_params st) kss)) f"
  by (induction kss arbitrary: f) (auto simp: stmt_helpers_def)

lemma dump_code_helper:
  "attr_dump_value_to_string t name = ''fmt::format('' @ [CHR 0x22] @ ''{}'' @ [CHR 0x22] @ '', '' @ name @ ''(n))''
     \<longleftrightarrow> sm_category (get_sql_mapping t) = cat_structure"
  "attr_dump_value_to_string t name = ''dbgen4::to_utf8('' @ name @ ''(n))'' \<longleftrightarrow> sm_category (get_sql_mapping t) = cat_w_string"
  "attr_dump_value_to_string t name = ''dbgen4::to_hex('' @ name @ ''(n))'' \<longleftrightarrow> sm_category (get_sql_mapping t) = cat_b_string"
  by (auto simp: attr_dump_value_to_string_def dest!: arg_cong [where f = length] split: sql_cat.splits)

lemma model_to_json_fields:
  "field (internal_model_to_json e g s) k =
     map_of [(''cpp-file'', J_string (gen_filename g fn_cpp)),
         (''hpp-file'', J_string (gen_filename g fn_hpp)),
         (''hpp-include-file'', J_string (path_filename (gen_filename g fn_hpp))),
         (''summary'', J_string (dd_summary s)),
         (''description'', J_string (comment_block '' *   '' (dd_description s))),
         (''version'', J_string ''0.1.0''),
         (''schema'', J_string (map (\<lambda>c. if c = CHR ''-'' then CHR ''_'' else c) (gn_barename g))),
         (''timestamp'', J_string (ge_timestamp e)),
         (''statements'', J_array (map (stmt_to_json e) (map snd (dd_map s)))),
         (''needs-rtl-fmt'', J_bool (list_ex (\<lambda>c. sm_category (get_sql_mapping (md_type c)) = cat_structure) (all_columns s))),
         (''needs-utf8'', J_bool (list_ex (\<lambda>c. sm_category (get_sql_mapping (md_type c)) = cat_w_string) (all_columns s))),
         (''needs-hex'', J_bool (list_ex (\<lambda>c. sm_category (get_sql_mapping (md_type c)) = cat_b_string) (all_columns s)))] k"
  unfolding internal_model_to_json_def Let_def stmt_helpers_fold all_columns_def [symmetric]
  by (subst json_put_all_field) (simp_all add: note_helpers_fold)

text \<open>the flags of the document ask for a helper header exactly when the code generated for the dump of
  some column of some statement, result or parameter, calls that helper.\<close>

theorem helper_flags_exact:
  "field (internal_model_to_json e g s) ''needs-utf8'' = Some (J_bool (list_ex (\<lambda>c.
       attr_dump_value_to_string (md_type c) (md_name c) = ''dbgen4::to_utf8('' @ md_name c @ ''(n))'') (all_columns s)))
   \<and> field (internal_model_to_json e g s) ''needs-hex'' = Some (J_bool (list_ex (\<lambda>c.
       attr_dump_value_to_string (md_type c) (md_name c) = ''dbgen4::to_hex('' @ md_name c @ ''(n))'') (all_columns s)))
   \<and> field (internal_model_to_json e g s) ''needs-rtl-fmt'' = Some (J_bool (list_ex (\<lambda>c.
       attr_dump_value_to_string (md_type c) (md_name c)
         = ''fmt::format('' @ [CHR 0x22] @ ''{}'' @ [CHR 0x22] @ '', '' @ md_name c @ ''(n))'') (all_columns s)))"
  unfolding model_to_json_fields dump_code_helper by simp

lemma gen_filename_eq:
  "gen_filename g fn_hpp = gn_out_folder g @ ''/'' @ gn_barename g @ ''.hpp''"
  "gen_filename g fn_cpp = gn_out_folder g @ ''/'' @ gn_barename g @ ''.cpp''"
  by (simp_all add: gen_filename_def)

lemma gen_filename_distinct: "gen_filename g fn_hpp \<noteq> gen_filename g fn_cpp"
  by (simp add: gen_filename_eq)

lemma path_filename_dir: "CHR ''/'' \<notin> set f \<Longrightarrow> path_filename (d @ ''/'' @ f) = f"
proof -
  assume "CHR ''/'' \<notin> set f"
  then have "takeWhile (\<lambda>c. c \<noteq> CHR ''/'') (rev f @ CHR ''/'' # rev d) = rev f"
    by (subst takeWhile_append2) auto
  then show ?thesis by (simp add: path_filename_def)
qed

lemma path_filename_bare: "CHR ''/'' \<notin> set f \<Longrightarrow> path_filename f = f"
proof -
  assume "CHR ''/'' \<notin> set f"
  then have t: "takeWhile (\<lambda>c. c \<noteq> CHR ''/'') (rev f) = rev f" by (auto simp: takeWhile_eq_all_conv)
  show ?thesis unfolding path_filename_def t by simp
qed

lemma path_stem_of:
  assumes "CHR ''/'' \<notin> set (n @ x)" "n \<noteq> []" "CHR ''.'' \<notin> set x" "n @ ''.'' @ x \<noteq> ''..''"
  shows "path_stem (d @ ''/'' @ n @ ''.'' @ x) = n" "path_stem (n @ ''.'' @ x) = n"
proof -
  have f: "path_filename (d @ ''/'' @ n @ ''.'' @ x) = n @ ''.'' @ x" "path_filename (n @ ''.'' @ x) = n @ ''.'' @ x"
    using assms(1) path_filename_dir [of "n @ ''.'' @ x" d] path_filename_bare [of "n @ ''.'' @ x"] by simp_all
  have "dropWhile (\<lambda>c. c \<noteq> CHR ''.'') (rev x @ CHR ''.'' # rev n) = CHR ''.'' # rev n"
    using assms(3) by (subst dropWhile_append2) auto
  then have st: "rev (drop 1 (dropWhile (\<lambda>c. c \<noteq> CHR ''.'') (rev (n @ ''.'' @ x)))) = n" by simp
  have "n @ ''.'' @ x \<noteq> ''.''" using assms(2) by (cases n) auto
  then show "path_stem (d @ ''/'' @ n @ ''.'' @ x) = n" "path_stem (n @ ''.'' @ x) = n"
    unfolding path_stem_def f st Let_def using assms(2,4) by simp_all
qed

text \<open>a file \<open>dir/name.ext\<close> generates \<open>name.hpp\<close> and \<open>name.cpp\<close> in the output folder, includes the header by
  its bare name, and opens a namespace that is the name with its hyphens replaced, so that no
  hyphen is left in the identifier whatever the file is called.\<close>

theorem generated_names:
  assumes "CHR ''/'' \<notin> set (n @ x)" "n \<noteq> []" "CHR ''.'' \<notin> set x" "n @ ''.'' @ x \<noteq> ''..''"
  shows "let g' = set_yaml_fn_and_barename (d @ ''/'' @ n @ ''.'' @ x) g; j = internal_model_to_json e g' s in
      field j ''hpp-file'' = Some (J_string (gn_out_folder g @ ''/'' @ n @ ''.hpp''))
    \<and> field j ''cpp-file'' = Some (J_string (gn_out_folder g @ ''/'' @ n @ ''.cpp''))
    \<and> field j ''hpp-include-file'' = Some (J_string (n @ ''.hpp''))
    \<and> (\<exists>ns. field j ''schema'' = Some (J_string ns) \<and> CHR ''-'' \<notin> set ns \<and> length ns = length n)"
proof -
  have b: "gn_barename (set_yaml_fn_and_barename (d @ ''/'' @ n @ ''.'' @ x) g) = n"
    "gn_out_folder (set_yaml_fn_and_barename (d @ ''/'' @ n @ ''.'' @ x) g) = gn_out_folder g"
    using path_stem_of(1) [OF assms] by (simp_all add: set_yaml_fn_and_barename_def)
  have "path_filename (gn_out_folder g @ ''/'' @ n @ ''.hpp'') = n @ ''.hpp''"
    using assms(1) by (intro path_filename_dir) auto
  then show ?thesis unfolding Let_def model_to_json_fields gen_filename_eq b by auto
qed

definition gen_env0 :: "string gen_env" where
  "gen_env0 = \<lparr>ge_render = (\<lambda>t j. Inr t), ge_parse = (\<lambda>t. Inr t), ge_empty_template = ''x'', ge_timestamp = [],
     ge_type_name = (\<lambda>_. []), ge_cat_name = (\<lambda>_. []), ge_folder_exists = (\<lambda>_. True), ge_create_folder = (\<lambda>_. None)\<rparr>"

theorem generated_names_witness:
  "let g' = set_yaml_fn_and_barename ''q/docs-testing.yaml'' (make_generator ''out'' dt_psql)
   in \<exists>ns. field (internal_model_to_json gen_env0 g' default_data_statements) ''schema'' = Some (J_string ns) \<and> CHR ''-'' \<notin> set ns"
  using generated_names [of "''docs-testing''" "''yaml''" "''q''" "make_generator ''out'' dt_psql" gen_env0 default_data_statements]
  by (auto simp: Let_def)

text \<open>What rendering one of the two main templates answers.\<close>

abbreviation rendered :: "'t gen_env \<Rightarrow> 't generator \<Rightarrow> data_statements \<Rightarrow> inja_tpl_enum \<Rightarrow> (exit_status_enum + string) cpp" where
  "rendered e g s tpl \<equiv> fst (generate_file_through_template e g (internal_model_to_json e g s) tpl)"

lemma write_file_cases: "write_file fs f c = (Inr [], if fs_writable fs f then fs\<lparr>fs_files := (fs_files fs)(f \<mapsto> c)\<rparr> else fs)"
  by (simp add: write_file_def)

lemma write_generated_result:
  "fst (write_generated e g data tpl fs) =
     (let fn = (if tpl = tpl_main_hpp then gen_filename g fn_hpp else gen_filename g fn_cpp) in
      case fst (generate_file_through_template e g data tpl) of
        Ret (Inr text) \<Rightarrow> (Ret (Inr ()), snd (write_file fs fn text))
      | Ret (Inl code) \<Rightarrow> (Ret (Inl code), fs)
      | Throws what \<Rightarrow> (Throws what, fs)
      | Assert_failed \<Rightarrow> (Assert_failed, fs)
      | Undefined_behaviour \<Rightarrow> (Undefined_behaviour, fs))"
  by (auto simp: write_generated_def write_file_def Let_def split: prod.splits cpp.splits sum.splits)

text \<open>C37: generating code into a folder that is there. It succeeds exactly when both templates render, and
  then the header and the source hold what the templates gave, each if its file can be written; a
  file that cannot be written is not noticed. When the header does not render nothing is written;
  when the source does not, the header has been. The result is the code of the first template that
  failed, and an exception that is none of the four of the template engine leaves the function.\<close>

theorem generate_outcome:
  assumes "ge_folder_exists e (gn_out_folder g)"
  shows "case (rendered e g s tpl_main_hpp, rendered e g s tpl_main_cpp) of
      (Ret (Inr h), Ret (Inr c)) \<Rightarrow>
        (\<exists>fs'. fst (generate e g s fs) = (Ret (Inr []), fs')
          \<and> fs_files fs' (gen_filename g fn_hpp) = (if fs_writable fs (gen_filename g fn_hpp) then Some h else fs_files fs (gen_filename g fn_hpp))
          \<and> fs_files fs' (gen_filename g fn_cpp) = (if fs_writable fs (gen_filename g fn_cpp) then Some c else fs_files fs (gen_filename g fn_cpp)))
    | (Ret (Inr h), Ret (Inl code)) \<Rightarrow>
        fst (generate e g s fs) = (Ret (Inl code), snd (write_file fs (gen_filename g fn_hpp) h))
    | (Ret (Inl code), _) \<Rightarrow> fst (generate e g s fs) = (Ret (Inl code), fs)
    | (Throws what, _) \<Rightarrow> fst (generate e g s fs) = (Throws what, fs)
    | (Ret (Inr h), Throws what) \<Rightarrow> fst (fst (generate e g s fs)) = Throws what
    | _ \<Rightarrow> False"
proof -
  let ?j = "internal_model_to_json e g s"
  have g: "fst (generate e g s fs) = fst (write_loop e g ?j [tpl_main_hpp, tpl_main_cpp] fs)"
    using assms by (simp add: generate_def Let_def)
  have step: "fst (write_loop e g ?j (tpl # ids) fs) = (case fst (write_generated e g ?j tpl fs) of
      (Ret (Inr u), fs') \<Rightarrow> fst (write_loop e g ?j ids fs')
    | (Ret (Inl code), fs') \<Rightarrow> (Ret (Inl code), fs') | (Throws w, fs') \<Rightarrow> (Throws w, fs')
    | (Assert_failed, fs') \<Rightarrow> (Assert_failed, fs') | (Undefined_behaviour, fs') \<Rightarrow> (Undefined_behaviour, fs'))" for tpl ids fs
    by (simp add: split_beta Let_def split: prod.splits cpp.splits sum.splits)
  have never: "fst (generate_file_through_template e g ?j tpl) \<noteq> Assert_failed"
    "fst (generate_file_through_template e g ?j tpl) \<noteq> Undefined_behaviour" for tpl
    by (auto simp: generate_file_through_template_def split: sum.splits option.splits)
  show ?thesis unfolding g
    using never [of tpl_main_hpp] never [of tpl_main_cpp] gen_filename_distinct [of g]
    by (auto simp: step write_generated_result write_file_cases Let_def simp del: write_loop.simps(2) split: cpp.splits sum.splits)
qed

theorem generate_outcome_witness:
  "\<exists>fs'. fst (generate gen_env0 (make_generator ''out'' dt_psql) default_data_statements
        \<lparr>fs_files = Map.empty, fs_writable = (\<lambda>_. True)\<rparr>) = (Ret (Inr []), fs')
     \<and> fs_files fs' ''out/.hpp'' = Some ''x'' \<and> fs_files fs' ''out/.cpp'' = Some ''x''"
  using generate_outcome [of gen_env0 "make_generator ''out'' dt_psql" default_data_statements
     "\<lparr>fs_files = Map.empty, fs_writable = (\<lambda>_. True)\<rparr>"]
  by (simp add: generate_file_through_template_def gen_filename_eq make_generator_def gen_env0_def)

subsection \<open>Comments\<close>

lemma comment_block_keeps:
  assumes "occurs_in w t" "\<forall>c \<in> set w. \<not> is_space c" "w \<noteq> []"
  shows "occurs_in w (comment_block p t)"
proof -
  have "CHR 0x0A \<notin> set w" using assms(2) newline_is_space by auto
  then obtain x where "x \<in> set (prefix_split (trim_whitespace_view t) (CHR 0x0A) p)" "occurs_in w x"
    using occurs_in_prefix_split [OF _ assms(3) occurs_in_trim [OF assms]] by blast
  then show ?thesis unfolding comment_block_def by (rule occurs_in_join) simp
qed

text \<open>The text of a statement goes unaltered into a comment of the generated header: a statement that
  holds the end of a C comment, as every SQL text with a comment of its own does, ends the
  comment of the header there, and what follows is read as C++.\<close>

theorem comment_closed_by_statement:
  assumes "occurs_in ''*/'' (ds_sql stmt)"
  shows "\<exists>t. field (stmt_to_json e stmt) ''sql'' = Some (J_string t) \<and> occurs_in ''*/'' t"
proof -
  have "field (stmt_to_json e stmt) ''sql'' = Some (J_string (comment_block ''     *   '' (ds_sql stmt)))"
    unfolding stmt_to_json_def by (subst json_put_all_field) simp_all
  moreover have "occurs_in ''*/'' (comment_block ''     *   '' (ds_sql stmt))"
    using assms by (rule comment_block_keeps) (simp_all add: is_space_def)
  ultimately show ?thesis by blast
qed

theorem comment_closed_by_statement_witness:
  "\<exists>t. field (stmt_to_json e (stmt\<lparr>ds_sql := ''select /* all */ 1''\<rparr>)) ''sql'' = Some (J_string t) \<and> occurs_in ''*/'' t"
proof -
  have "''select /* all */ 1'' = ''select /* all '' @ ''*/'' @ '' 1''" by simp
  then have "occurs_in ''*/'' ''select /* all */ 1''" unfolding occurs_in_def by blast
  then show ?thesis by (intro comment_closed_by_statement) simp
qed

end
