(* ===== verification/Cmd_Line.thy ===== *)
theory Cmd_Line
  imports Parser
begin

text \<open>
  The parameters of the command line (\<open>src/dbgen4/parameters/cmd_line_params.hpp\<close>,
  \<open>cmd_line_params.cpp\<close>). CLI11 is a parameter: what it answers is one of the outcomes the code
  tells apart, with the values it stored in the members; the declarations of the options and the
  check of the database type are the code's own.
\<close>

record cmd_line_params =
  cp_db_name :: string
  cp_db_type :: db_type_enum
  cp_out_folder :: string
  cp_verbose :: bool
  cp_user :: string
  cp_pass :: string
  cp_port :: nat
  cp_host :: string
  cp_files :: "string list"
  cp_max_field_len :: nat
  cp_parallel :: nat

definition all_db_types :: "db_type_enum list" where
  "all_db_types = [dt_sql, dt_mariadb, dt_psql, dt_db2]"

text \<open>\<open>enum_cast\<close>: the enumerator of a name.\<close>

definition db_type_cast :: "string \<Rightarrow> db_type_enum option" where
  "db_type_cast v = find (\<lambda>t. db_type_name t = v) all_db_types"

text \<open>The names that are offered: all but the first, each followed by a comma, the last comma cut.\<close>

definition offered_types :: string where
  "offered_types = butlast (concat (map (\<lambda>t. db_type_name t @ '','') (tl all_db_types)))"

definition check_db_type :: "string \<Rightarrow> cmd_line_params \<Rightarrow> string option \<times> cmd_line_params" where
  "check_db_type v p =
     (let res = db_type_cast v; p1 = p\<lparr>cp_db_type := (case res of Some t \<Rightarrow> t | None \<Rightarrow> dt_sql)\<rparr> in
      case res of
        Some t \<Rightarrow>
          if t \<noteq> dt_sql then (None, p1\<lparr>cp_db_type := t\<rparr>)
          else (Some (''Database type '' @ quoted v @ '' is not valid. Valid values are '' @ quoted offered_types @ ''.''), p1)
      | None \<Rightarrow> (Some (''Database type '' @ quoted v @ '' is not valid. Valid values are '' @ quoted offered_types @ ''.''), p1))"

definition bool_text :: "bool \<Rightarrow> string" where
  "bool_text b = (if b then ''true'' else ''false'')"

definition cmd_dump :: "nat \<Rightarrow> cmd_line_params \<Rightarrow> string" where
  "cmd_dump offs p =
     (let pad = fill offs; s = concat (map (\<lambda>el. ''    '' @ el @ nl) (cp_files p)) in
      nl @ pad @ ''host:       '' @ cp_host p @ nl @ pad @ ''port:       '' @ dec (cp_port p)
      @ nl @ pad @ ''db_name:    '' @ cp_db_name p @ nl @ pad @ ''db_type:    '' @ db_type_name (cp_db_type p)
      @ nl @ pad @ ''user:       '' @ cp_user p @ nl @ pad @ ''pass:       '' @ ''****''
      @ nl @ pad @ ''out folder: '' @ cp_out_folder p @ nl @ pad @ ''verbose:    '' @ bool_text (cp_verbose p)
      @ nl @ pad @ ''parallel:   '' @ dec (cp_parallel p) @ nl @ pad @ ''files:'' @ nl @ s @ nl)"

subsection \<open>The options\<close>

text \<open>What \<open>load_parameters\<close> declares to CLI11, in the order of the code: the names, whether it is a
  flag, the default, the variable of the environment that stands in, whether it is required, how
  many values it takes if that is not one, and the check of a value.\<close>

datatype option_check = No_check | Check_db_type | PositiveNumber | NonNegativeNumber | ExistingFile

datatype default_value = Dv_type db_type_enum | Dv_text string | Dv_number nat | Dv_bool bool

record option_decl =
  od_names :: "string list"
  od_flag :: bool
  od_default :: "default_value option"
  od_envname :: "string option"
  od_required :: bool
  od_expected :: "(nat \<times> nat) option"
  od_check :: option_check

definition add_option :: "string list \<Rightarrow> option_decl" where
  "add_option names = \<lparr>od_names = names, od_flag = False, od_default = None, od_envname = None,
     od_required = False, od_expected = None, od_check = No_check\<rparr>"

definition default_max_field_len :: nat where
  "default_max_field_len = 4096"

definition cli_options :: "nat \<Rightarrow> option_decl list" where
  "cli_options default_port =
     [(add_option [''-t'', ''--db-type''])\<lparr>od_default := Some (Dv_type dt_sql), od_check := Check_db_type\<rparr>,
      (add_option [''--host''])\<lparr>od_default := Some (Dv_text ''localhost'')\<rparr>,
      (add_option [''--port''])\<lparr>od_default := Some (Dv_number default_port)\<rparr>,
      (add_option [''-n'', ''--db-name''])\<lparr>od_required := True\<rparr>,
      (add_option [''-u'', ''--username''])\<lparr>od_required := True\<rparr>,
      (add_option [''-p'', ''--password''])\<lparr>od_envname := Some ''DBGEN4_PASSWORD'', od_required := True\<rparr>,
      (add_option [''-l'', ''--max-field-len''])\<lparr>od_default := Some (Dv_number default_max_field_len), od_check := PositiveNumber\<rparr>,
      (add_option [''-o'', ''--out-folder''])\<lparr>od_default := Some (Dv_text ''./'')\<rparr>,
      (add_option [''-v'', ''--verbose''])\<lparr>od_flag := True, od_default := Some (Dv_bool False)\<rparr>,
      (add_option [''-j'', ''--parallel''])\<lparr>od_default := Some (Dv_number 0), od_expected := Some (0, 1), od_check := NonNegativeNumber\<rparr>,
      (add_option [''files''])\<lparr>od_required := True, od_check := ExistingFile\<rparr>]"

text \<open>No name is declared twice, which CLI11 would refuse with an exception that nothing catches.\<close>

lemma option_names_distinct: "distinct (concat (map od_names (cli_options port)))"
  by (simp add: cli_options_def add_option_def)

text \<open>A required option has no default, so it is missed when it is not given.\<close>

lemma required_without_default: "list_all (\<lambda>d. od_required d \<longleftrightarrow> od_default d = None) (cli_options port)"
  by (simp add: cli_options_def add_option_def)

text \<open>What CLI11 answers: how often \<open>--parallel\<close> was given and its value, or the exception it threw.\<close>

datatype cli_outcome =
    Cli_parsed nat int
  | Cli_all_help
  | Cli_help
  | Cli_version
  | Cli_parse_error string int string
  | Cli_other

definition resolve_parallel :: "nat \<Rightarrow> nat \<Rightarrow> int \<Rightarrow> nat" where
  "resolve_parallel hardware_concurrency given parallel_opt =
     (if given = 0 then 1
      else if parallel_opt = 0 then max 1 hardware_concurrency
      else nat (parallel_opt mod 2 ^ 64))"

definition load_parameters ::
  "nat \<Rightarrow> cli_outcome \<Rightarrow> cmd_line_params \<Rightarrow> exit_status_enum cpp \<times> cmd_line_params \<times> string list" where
  "load_parameters hardware_concurrency outcome p =
     (case outcome of
        Cli_parsed given parallel_opt \<Rightarrow>
          (Ret es_ok, p\<lparr>cp_parallel := resolve_parallel hardware_concurrency given parallel_opt\<rparr>, [])
      | Cli_all_help \<Rightarrow> (Ret es_cmd_all_help, p, [])
      | Cli_help \<Rightarrow> (Ret es_cmd_help, p, [])
      | Cli_version \<Rightarrow> (Ret es_cmd_version, p, [])
      | Cli_parse_error name code what \<Rightarrow>
          (Ret es_connection_error, p,
           [''name: '' @ quoted name @ '' code: '' @ dec_int code @ '' msg: '' @ quoted what,
            ''Parameters with error(s) '' @ nl @ cmd_dump 2 p])
      | Cli_other \<Rightarrow> (Throws [], p, []))"

datatype log_threshold = Thr_trace | Thr_info | Thr_warn

definition set_log_level :: "bool \<Rightarrow> bool \<Rightarrow> log_threshold" where
  "set_log_level is_debug verbose =
     (if is_debug then (if verbose then Thr_trace else Thr_info) else (if verbose then Thr_info else Thr_warn))"

subsection \<open>Properties\<close>

lemma db_type_cast_name: "db_type_cast (db_type_name t) = Some t"
  by (cases t) (simp_all add: db_type_cast_def all_db_types_def)

lemma db_type_cast_Some: "db_type_cast v = Some t \<longleftrightarrow> v = db_type_name t"
proof
  assume "db_type_cast v = Some t"
  then show "v = db_type_name t" unfolding db_type_cast_def find_Some_iff by auto
qed (simp add: db_type_cast_name)

text \<open>The check of the database type accepts exactly the names that are offered, and stores what the name stands for.\<close>

theorem db_type_check:
  "fst (check_db_type v p) = None \<longleftrightarrow> (\<exists>t. t \<noteq> dt_sql \<and> v = db_type_name t \<and> cp_db_type (snd (check_db_type v p)) = t)"
proof (cases "db_type_cast v")
  case None
  then have "v \<noteq> db_type_name t" for t using db_type_cast_name by force
  with None show ?thesis by (simp add: check_db_type_def Let_def)
next
  case (Some t)
  then have "v = db_type_name t' \<longleftrightarrow> t' = t" for t' by (metis db_type_cast_Some option.inject)
  with Some show ?thesis by (simp add: check_db_type_def Let_def)
qed

text \<open>The number of workers is never zero, as long as the value given is not negative.\<close>

lemma resolve_parallel_pos:
  assumes "0 \<le> opt" "opt < 2 ^ 31"
  shows "1 \<le> resolve_parallel hw given opt"
  using assms by (auto simp: resolve_parallel_def)

text \<open>The password has no influence on what is printed of the parameters, nor on anything that is logged.\<close>

theorem password_not_shown:
  "cmd_dump offs (p\<lparr>cp_pass := x\<rparr>) = cmd_dump offs p
   \<and> snd (snd (load_parameters hw o1 (p\<lparr>cp_pass := x\<rparr>))) = snd (snd (load_parameters hw o1 p))"
  by (simp add: load_parameters_def cmd_dump_def split: cli_outcome.splits)

end
