(* ===== verification/Appl.thy ===== *)
theory Appl
  imports Generator Cmd_Line "HOL-Library.Multiset"
begin

text \<open>
  The application (\<open>src/programs/appl.hpp\<close>, \<open>appl.cpp\<close>): one file from parsing to code, the pool of
  worker threads over the list of files, and the sequence of \<open>exec\<close>. A thread is a list of steps
  that interleave with those of the others; what two threads share is the cursor into the list
  and the first error. What a file brings is open in the model of the pool, and is what
  \<open>process_one_file\<close> answers in the code. Lines below the level error are left out, and so are the
  times that are measured.
\<close>

subsection \<open>One file\<close>

record 't appl_lib =
  al_yaml :: yaml_lib
  al_loc :: "nat \<times> nat"
  al_load_file :: "string \<Rightarrow> yaml_exception + ynode"
  al_sts_name :: "db_sts \<Rightarrow> string"
  al_gen :: "'t gen_env"

definition process_one_file ::
  "'t appl_lib \<Rightarrow> 'c db_ops \<Rightarrow> nat \<Rightarrow> 't generator \<Rightarrow> 'c \<Rightarrow> file_system
     \<Rightarrow> (exit_status_enum + data_statements) cpp \<times> 'c \<times> file_system \<times> string list" where
  "process_one_file al ops max_field_len g c fs =
     (case parse_yaml_file (al_yaml al) (al_loc al) (al_load_file al) (gn_yaml_fn g) (gn_db_type g) of
        (Inl e, l) \<Rightarrow> (Ret (Inl e), c, fs, l)
      | (Inr s, l) \<Rightarrow>
          (case load_file_meta_data (al_sts_name al) ops max_field_len s c of
             ((Inl e, c'), l') \<Rightarrow> (Ret (Inl e), c', fs, l @ l')
           | ((Inr s', c'), l') \<Rightarrow>
               (case generate (al_gen al) g s' fs of
                  ((Ret (Inl e), fs'), l'') \<Rightarrow> (Ret (Inl e), c', fs', l @ l' @ l'')
                | ((Ret (Inr _), fs'), l'') \<Rightarrow> (Ret (Inr s'), c', fs', l @ l' @ l'')
                | ((Throws w, fs'), l'') \<Rightarrow> (Throws w, c', fs', l @ l' @ l'')
                | ((Assert_failed, fs'), l'') \<Rightarrow> (Assert_failed, c', fs', l @ l' @ l'')
                | ((Undefined_behaviour, fs'), l'') \<Rightarrow> (Undefined_behaviour, c', fs', l @ l' @ l''))))"

subsection \<open>The pool\<close>

text \<open>Where a worker is: before its connection, at the head of the loop, with a file in hand, past the loop.\<close>

datatype worker_phase = W_start | W_loop | W_busy nat | W_done

record worker =
  wk_phase :: worker_phase
  wk_files_processed :: nat

text \<open>\<open>pl_log\<close> records the outcome of every worker's connection and of every file, in the order in which
  they took effect; the outcome of a file is \<open>None\<close> when it went well.\<close>

datatype pool_event = Ev_connect bool | Ev_file nat "exit_status_enum option"

record pool =
  pl_next_file_idx :: nat
  pl_first_error :: exit_status_enum
  pl_workers :: "worker list"
  pl_log :: "pool_event list"

definition initial_pool :: "nat \<Rightarrow> pool" where
  "initial_pool worker_count = \<lparr>pl_next_file_idx = 0, pl_first_error = es_ok,
     pl_workers = replicate worker_count \<lparr>wk_phase = W_start, wk_files_processed = 0\<rparr>, pl_log = []\<rparr>"

definition set_first_error :: "exit_status_enum \<Rightarrow> pool \<Rightarrow> pool" where
  "set_first_error e p = (if pl_first_error p = es_ok then p\<lparr>pl_first_error := e\<rparr> else p)"

definition put_worker :: "nat \<Rightarrow> worker \<Rightarrow> pool \<Rightarrow> pool" where
  "put_worker w wk p = p\<lparr>pl_workers := (pl_workers p)[w := wk]\<rparr>"

definition note_event :: "pool_event \<Rightarrow> pool \<Rightarrow> pool" where
  "note_event ev p = p\<lparr>pl_log := pl_log p @ [ev]\<rparr>"

definition worker_connect :: "bool \<Rightarrow> nat \<Rightarrow> pool \<Rightarrow> pool" where
  "worker_connect connected w p =
     (let wk = pl_workers p ! w in
      if \<not> connected
      then note_event (Ev_connect False)
             (set_first_error es_connection_error (put_worker w (wk\<lparr>wk_phase := W_done\<rparr>) p))
      else note_event (Ev_connect True) (put_worker w (wk\<lparr>wk_phase := W_loop\<rparr>) p))"

text \<open>\<open>next_file_idx.fetch_add(1)\<close> and the test of the loop.\<close>

definition worker_claim :: "nat \<Rightarrow> nat \<Rightarrow> pool \<Rightarrow> pool" where
  "worker_claim files w p =
     (let idx = pl_next_file_idx p; wk = pl_workers p ! w in
      (put_worker w (wk\<lparr>wk_phase := (if idx < files then W_busy idx else W_done)\<rparr>) p)\<lparr>pl_next_file_idx := idx + 1\<rparr>)"

definition worker_finish :: "exit_status_enum option \<Rightarrow> nat \<Rightarrow> nat \<Rightarrow> pool \<Rightarrow> pool" where
  "worker_finish result idx w p =
     (let wk = pl_workers p ! w;
          p1 = put_worker w (wk\<lparr>wk_phase := W_loop, wk_files_processed := wk_files_processed wk + 1\<rparr>) p
      in note_event (Ev_file idx result) (case result of Some e \<Rightarrow> set_first_error e p1 | None \<Rightarrow> p1))"

inductive pool_step :: "nat \<Rightarrow> pool \<Rightarrow> pool \<Rightarrow> bool" for files where
  connects: "\<lbrakk>w < length (pl_workers p); wk_phase (pl_workers p ! w) = W_start\<rbrakk>
     \<Longrightarrow> pool_step files p (worker_connect connected w p)"
| claims: "\<lbrakk>w < length (pl_workers p); wk_phase (pl_workers p ! w) = W_loop\<rbrakk>
     \<Longrightarrow> pool_step files p (worker_claim files w p)"
| finishes: "\<lbrakk>w < length (pl_workers p); wk_phase (pl_workers p ! w) = W_busy idx\<rbrakk>
     \<Longrightarrow> pool_step files p (worker_finish result idx w p)"

definition pool_joined :: "pool \<Rightarrow> bool" where
  "pool_joined p \<longleftrightarrow> list_all (\<lambda>wk. wk_phase wk = W_done) (pl_workers p)"

subsection \<open>The application\<close>

definition worker_count_for :: "nat \<Rightarrow> nat \<Rightarrow> nat" where
  "worker_count_for parallel files = min parallel (max files 1)"

text \<open>The warning when the dialect that was asked for is not the one of the backend.\<close>

definition dialect_warning :: "db_type_enum \<Rightarrow> string \<Rightarrow> string list" where
  "dialect_warning db_type backend_name =
     (let dialect = db_type_name db_type in
      if db_type \<noteq> dt_sql \<and> dialect \<noteq> backend_name
      then [''Requested sql dialect '' @ quoted dialect @ '' but this executable is built against the '' @ quoted backend_name
            @ '' backend. '' @ ''Statements will be described by '' @ quoted backend_name @ ''.'']
      else [])"

text \<open>\<open>preflight\<close> is the status of the first connection, \<open>templates\<close> what preparing the templates answers,
  \<open>run_pool\<close> the first error once the given number of workers have been joined, and
  \<open>is_runtime_error\<close> tells an exception by its text.\<close>

definition appl_exec ::
  "(string \<Rightarrow> bool) \<Rightarrow> exit_status_enum cpp \<Rightarrow> cmd_line_params \<Rightarrow> string \<Rightarrow> db_sts \<Rightarrow> (exit_status_enum + unit) cpp \<Rightarrow> (nat \<Rightarrow> exit_status_enum)
     \<Rightarrow> exit_status_enum cpp \<times> string list" where
  "appl_exec is_runtime_error loaded p backend_name preflight templates run_pool =
     (case loaded of
        Ret sts \<Rightarrow>
          if sts \<noteq> es_ok then (Ret sts, [])
          else
            let l = dialect_warning (cp_db_type p) backend_name in
            if \<not> is_success preflight
            then (Ret es_connection_error, l @ [''Unable to connect to database '' @ quoted (cp_db_name p)])
            else
              (case templates of
                 Ret (Inl e) \<Rightarrow> (Ret e, l)
               | Ret (Inr _) \<Rightarrow>
                   (let first_error = run_pool (worker_count_for (cp_parallel p) (length (cp_files p)))
                    in (Ret (if first_error \<noteq> es_ok then first_error else sts), l))
               | Throws w \<Rightarrow> (Ret es_unhandled_exception, l @
                   [if is_runtime_error w then ''Runtime error: '' @ quoted w else ''Unexpected error during application execution''])
               | Assert_failed \<Rightarrow> (Assert_failed, l)
               | Undefined_behaviour \<Rightarrow> (Undefined_behaviour, l))
      | Throws w \<Rightarrow> (Throws w, [])
      | Assert_failed \<Rightarrow> (Assert_failed, [])
      | Undefined_behaviour \<Rightarrow> (Undefined_behaviour, []))"

subsection \<open>Properties\<close>

lemma concat_update:
  "w < length xs \<Longrightarrow> mset (concat (map f (xs[w := y]))) + mset (f (xs ! w)) = mset (concat (map f xs)) + mset (f y)"
proof (induction xs arbitrary: w)
  case (Cons x xs)
  then show ?case by (cases w) (auto simp: ac_simps)
qed simp

definition busy_list :: "worker list \<Rightarrow> nat list" where
  "busy_list ws = concat (map (\<lambda>wk. case wk_phase wk of W_busy i \<Rightarrow> [i] | _ \<Rightarrow> []) ws)"

definition count_phase :: "(worker_phase \<Rightarrow> bool) \<Rightarrow> worker list \<Rightarrow> nat" where
  "count_phase P ws = length (concat (map (\<lambda>wk. if P (wk_phase wk) then [()] else []) ws))"

definition total_processed :: "worker list \<Rightarrow> nat" where
  "total_processed ws = sum_list (map wk_files_processed ws)"

lemma busy_update:
  assumes "w < length ws"
  shows "mset (busy_list (ws[w := y])) + mset (busy_list [ws ! w]) = mset (busy_list ws) + mset (busy_list [y])"
  using concat_update [OF assms, of "\<lambda>wk. case wk_phase wk of W_busy i \<Rightarrow> [i] | _ \<Rightarrow> []" y] by (simp add: busy_list_def)

lemma count_update:
  assumes "w < length ws"
  shows "count_phase P (ws[w := y]) + count_phase P [ws ! w] = count_phase P ws + count_phase P [y]"
  using arg_cong [OF concat_update [OF assms, of "\<lambda>wk. if P (wk_phase wk) then [()] else []" y], of size]
  by (simp add: count_phase_def)

lemma total_update:
  assumes "w < length ws"
  shows "total_processed (ws[w := y]) + wk_files_processed (ws ! w) = total_processed ws + wk_files_processed y"
  using assms
proof (induction ws arbitrary: w)
  case (Cons x ws)
  then show ?case by (cases w) (auto simp: total_processed_def)
qed simp

definition processed :: "pool_event list \<Rightarrow> nat list" where
  "processed es = concat (map (\<lambda>e. case e of Ev_file i r \<Rightarrow> [i] | _ \<Rightarrow> []) es)"

definition connects_ok :: "pool_event list \<Rightarrow> nat" where
  "connects_ok es = length (filter (\<lambda>e. e = Ev_connect True) es)"

definition connects_failed :: "pool_event list \<Rightarrow> nat" where
  "connects_failed es = length (filter (\<lambda>e. e = Ev_connect False) es)"

primrec event_error :: "pool_event \<Rightarrow> exit_status_enum" where
  "event_error (Ev_connect connected) = (if connected then es_ok else es_connection_error)"
| "event_error (Ev_file i r) = (case r of Some e \<Rightarrow> e | None \<Rightarrow> es_ok)"

text \<open>The first entry that is an error.\<close>

definition first_failure :: "pool_event list \<Rightarrow> exit_status_enum" where
  "first_failure es = (case find (\<lambda>e. event_error e \<noteq> es_ok) es of Some e \<Rightarrow> event_error e | None \<Rightarrow> es_ok)"

lemma event_append [simp]:
  "processed (es @ [e]) = processed es @ processed [e]" "connects_ok (es @ [e]) = connects_ok es + connects_ok [e]"
  "connects_failed (es @ [e]) = connects_failed es + connects_failed [e]"
  by (simp_all add: processed_def connects_ok_def connects_failed_def)

lemma find_append: "find P (xs @ ys) = (case find P xs of None \<Rightarrow> find P ys | Some x \<Rightarrow> Some x)"
  by (induction xs) auto

lemma first_failure_append:
  "first_failure (es @ [e]) = (if first_failure es = es_ok then event_error e else first_failure es)"
proof (cases "find (\<lambda>e. event_error e \<noteq> es_ok) es")
  case (Some x)
  then have "event_error x \<noteq> es_ok" by (auto simp: find_Some_iff)
  with Some show ?thesis by (simp add: first_failure_def find_append)
qed (simp add: first_failure_def find_append)

definition pool_inv :: "nat \<Rightarrow> nat \<Rightarrow> pool \<Rightarrow> bool" where
  "pool_inv files n p \<longleftrightarrow>
     length (pl_workers p) = n
   \<and> mset (processed (pl_log p)) + mset (busy_list (pl_workers p)) = mset [0..<min (pl_next_file_idx p) files]
   \<and> pl_next_file_idx p \<le> files + count_phase (\<lambda>q. q = W_done) (pl_workers p)
   \<and> (pl_next_file_idx p \<le> files \<longrightarrow> count_phase (\<lambda>q. q = W_done) (pl_workers p) = connects_failed (pl_log p))
   \<and> count_phase (\<lambda>q. q \<noteq> W_start) (pl_workers p) = connects_ok (pl_log p) + connects_failed (pl_log p)
   \<and> (connects_ok (pl_log p) = 0 \<longrightarrow> pl_next_file_idx p = 0)
   \<and> pl_first_error p = first_failure (pl_log p)
   \<and> total_processed (pl_workers p) = length (processed (pl_log p))"

lemma pool_inv_initial: "pool_inv files n (initial_pool n)"
proof -
  have "busy_list (replicate n \<lparr>wk_phase = W_start, wk_files_processed = 0\<rparr>) = []"
    "count_phase (\<lambda>q. q = W_done) (replicate n \<lparr>wk_phase = W_start, wk_files_processed = 0\<rparr>) = 0"
    "count_phase (\<lambda>q. q \<noteq> W_start) (replicate n \<lparr>wk_phase = W_start, wk_files_processed = 0\<rparr>) = 0"
    "total_processed (replicate n \<lparr>wk_phase = W_start, wk_files_processed = 0\<rparr>) = 0"
    by (induction n) (simp_all add: busy_list_def count_phase_def total_processed_def)
  then show ?thesis
    by (simp add: pool_inv_def initial_pool_def processed_def connects_ok_def connects_failed_def first_failure_def)
qed

lemma phase_single [simp]:
  "count_phase P [wk] = (if P (wk_phase wk) then 1 else 0)"
  "busy_list [wk] = (case wk_phase wk of W_busy i \<Rightarrow> [i] | _ \<Rightarrow> [])"
  by (simp_all add: count_phase_def busy_list_def)

lemma pool_frame [simp]:
  "pl_workers (set_first_error e p) = pl_workers p" "pl_next_file_idx (set_first_error e p) = pl_next_file_idx p"
  "pl_log (set_first_error e p) = pl_log p" "pl_first_error (set_first_error e p) = (if pl_first_error p = es_ok then e else pl_first_error p)"
  "pl_workers (put_worker w wk p) = (pl_workers p)[w := wk]" "pl_next_file_idx (put_worker w wk p) = pl_next_file_idx p"
  "pl_log (put_worker w wk p) = pl_log p" "pl_first_error (put_worker w wk p) = pl_first_error p"
  "pl_workers (note_event ev p) = pl_workers p" "pl_next_file_idx (note_event ev p) = pl_next_file_idx p"
  "pl_log (note_event ev p) = pl_log p @ [ev]" "pl_first_error (note_event ev p) = pl_first_error p"
  by (simp_all add: set_first_error_def put_worker_def note_event_def)

lemma event_single [simp]:
  "processed [Ev_connect b] = []" "processed [Ev_file i r] = [i]" "connects_ok [Ev_file i r] = 0" "connects_failed [Ev_file i r] = 0"
  "connects_ok [Ev_connect b] = (if b then 1 else 0)" "connects_failed [Ev_connect b] = (if b then 0 else 1)"
  by (simp_all add: processed_def connects_ok_def connects_failed_def)

lemma pool_inv_connect:
  assumes "pool_inv files n p" "w < length (pl_workers p)" "wk_phase (pl_workers p ! w) = W_start"
  shows "pool_inv files n (worker_connect connected w p)"
proof -
  let ?y = "(pl_workers p ! w)\<lparr>wk_phase := (if connected then W_loop else W_done)\<rparr>"
  note u = busy_update [OF assms(2), of ?y] count_update [OF assms(2), of "\<lambda>q. q = W_done" ?y]
    count_update [OF assms(2), of "\<lambda>q. q \<noteq> W_start" ?y] total_update [OF assms(2), of ?y]
  show ?thesis using assms(1,3) u
    by (cases connected) (auto simp: worker_connect_def pool_inv_def first_failure_append Let_def)
qed

lemma pool_inv_claim:
  assumes "pool_inv files n p" "w < length (pl_workers p)" "wk_phase (pl_workers p ! w) = W_loop" "connects_ok (pl_log p) \<noteq> 0"
  shows "pool_inv files n (worker_claim files w p)"
proof -
  let ?i = "pl_next_file_idx p"
  let ?y = "(pl_workers p ! w)\<lparr>wk_phase := (if ?i < files then W_busy ?i else W_done)\<rparr>"
  let ?ws = "(pl_workers p)[w := ?y]"
  have d: "count_phase (\<lambda>q. q = W_done) ?ws = count_phase (\<lambda>q. q = W_done) (pl_workers p) + (if ?i < files then 0 else 1)"
    using count_update [OF assms(2), of "\<lambda>q. q = W_done" ?y] assms(3) by simp
  have s: "count_phase (\<lambda>q. q \<noteq> W_start) ?ws = count_phase (\<lambda>q. q \<noteq> W_start) (pl_workers p)"
    using count_update [OF assms(2), of "\<lambda>q. q \<noteq> W_start" ?y] assms(3) by (cases "?i < files") simp_all
  have t: "total_processed ?ws = total_processed (pl_workers p)" using total_update [OF assms(2), of ?y] by simp
  have b: "mset (busy_list ?ws) = mset (busy_list (pl_workers p)) + (if ?i < files then {#?i#} else {#})"
    using busy_update [OF assms(2), of ?y] assms(3) by simp
  have m: "mset [0..<min (Suc ?i) files] = mset [0..<min ?i files] + (if ?i < files then {#?i#} else {#})"
    by (auto simp: min_def simp del: mset_upt)
  have "mset (processed (pl_log p)) + mset (busy_list ?ws) = mset [0..<min (Suc ?i) files]"
    using assms(1) unfolding pool_inv_def b m by (simp only: add.assoc [symmetric])
  then show ?thesis using assms(1,4) d s t by (auto simp: worker_claim_def pool_inv_def Let_def simp del: mset_upt)
qed

lemma pool_inv_finish:
  assumes "pool_inv files n p" "w < length (pl_workers p)" "wk_phase (pl_workers p ! w) = W_busy idx"
  shows "pool_inv files n (worker_finish result idx w p)"
proof -
  let ?wk = "pl_workers p ! w"
  let ?y = "?wk\<lparr>wk_phase := W_loop, wk_files_processed := wk_files_processed ?wk + 1\<rparr>"
  let ?ws = "(pl_workers p)[w := ?y]"
  note u = count_update [OF assms(2), of "\<lambda>q. q = W_done" ?y] count_update [OF assms(2), of "\<lambda>q. q \<noteq> W_start" ?y]
    total_update [OF assms(2), of ?y]
  have b: "mset (busy_list (pl_workers p)) = add_mset idx (mset (busy_list ?ws))"
    using busy_update [OF assms(2), of ?y] assms(3) by simp
  have "mset (processed (pl_log p @ [Ev_file idx result])) + mset (busy_list ?ws) = mset [0..<min (pl_next_file_idx p) files]"
    using assms(1) unfolding pool_inv_def b by (simp del: mset_upt)
  then show ?thesis using assms(1,3) u
    by (cases result) (auto simp: worker_finish_def pool_inv_def first_failure_append Let_def simp del: mset_upt)
qed

lemma loop_connected:
  assumes "pool_inv files n p" "w < length (pl_workers p)" "wk_phase (pl_workers p ! w) = W_loop"
  shows "connects_ok (pl_log p) \<noteq> 0"
proof
  assume z: "connects_ok (pl_log p) = 0"
  let ?y = "(pl_workers p ! w)\<lparr>wk_phase := W_start\<rparr>"
  have "count_phase (\<lambda>q. q = W_done) (pl_workers p) = count_phase (\<lambda>q. q \<noteq> W_start) (pl_workers p)"
    using assms(1) z by (auto simp: pool_inv_def)
  moreover have "count_phase (\<lambda>q. q = W_done) ((pl_workers p)[w := ?y]) = count_phase (\<lambda>q. q = W_done) (pl_workers p)"
    "Suc (count_phase (\<lambda>q. q \<noteq> W_start) ((pl_workers p)[w := ?y])) = count_phase (\<lambda>q. q \<noteq> W_start) (pl_workers p)"
    using count_update [OF assms(2), of "\<lambda>q. q = W_done" ?y] count_update [OF assms(2), of "\<lambda>q. q \<noteq> W_start" ?y] assms(3) by simp_all
  moreover have "count_phase (\<lambda>q. q = W_done) ws \<le> count_phase (\<lambda>q. q \<noteq> W_start) ws" for ws
    by (induction ws) (auto simp: count_phase_def)
  ultimately show False by (metis Suc_n_not_le_n)
qed

lemma pool_inv_step: "pool_step files p p' \<Longrightarrow> pool_inv files n p \<Longrightarrow> pool_inv files n p'"
  by (induction rule: pool_step.induct) (auto intro: pool_inv_connect pool_inv_claim pool_inv_finish dest: loop_connected)

lemma pool_inv_run: "(pool_step files)\<^sup>*\<^sup>* (initial_pool n) p \<Longrightarrow> pool_inv files n p"
  by (induction rule: rtranclp_induct) (auto intro: pool_inv_initial pool_inv_step)

lemma joined_counts:
  assumes "pool_joined p"
  shows "busy_list (pl_workers p) = []" "count_phase (\<lambda>q. q = W_done) (pl_workers p) = length (pl_workers p)"
    "count_phase (\<lambda>q. q \<noteq> W_start) (pl_workers p) = length (pl_workers p)"
proof -
  have "list_all (\<lambda>wk. wk_phase wk = W_done) ws \<Longrightarrow> busy_list ws = [] \<and> count_phase (\<lambda>q. q = W_done) ws = length ws
      \<and> count_phase (\<lambda>q. q \<noteq> W_start) ws = length ws" for ws
    by (induction ws) (auto simp: busy_list_def count_phase_def)
  then show "busy_list (pl_workers p) = []" "count_phase (\<lambda>q. q = W_done) (pl_workers p) = length (pl_workers p)"
    "count_phase (\<lambda>q. q \<noteq> W_start) (pl_workers p) = length (pl_workers p)" using assms by (auto simp: pool_joined_def)
qed

lemma joined_pool:
  assumes "(pool_step files)\<^sup>*\<^sup>* (initial_pool n) p" "pool_joined p"
  shows "mset (processed (pl_log p)) = (if connects_ok (pl_log p) = 0 then {#} else mset [0..<files])
    \<and> pl_first_error p = first_failure (pl_log p) \<and> connects_ok (pl_log p) + connects_failed (pl_log p) = n
    \<and> total_processed (pl_workers p) = length (processed (pl_log p)) \<and> pl_next_file_idx p \<le> files + n"
proof -
  have inv: "pool_inv files n p" by (rule pool_inv_run [OF assms(1)])
  note j = joined_counts [OF assms(2)]
  have m: "mset (processed (pl_log p)) = mset [0..<min (pl_next_file_idx p) files]" using inv j(1) by (simp add: pool_inv_def)
  have n: "connects_ok (pl_log p) + connects_failed (pl_log p) = n" using inv j(3) by (simp add: pool_inv_def)
  show ?thesis
  proof (cases "connects_ok (pl_log p) = 0")
    case True
    then show ?thesis using inv j m n by (simp add: pool_inv_def)
  next
    case False
    then have "\<not> pl_next_file_idx p \<le> files" using inv j(2) n by (auto simp: pool_inv_def)
    then show ?thesis using inv j m n False by (simp add: pool_inv_def min_absorb2)
  qed
qed

text \<open>C2: when all workers have been joined, whatever the interleaving was: if any of them had a connection,
  every file of the list was processed exactly once, by whoever it was; if none had, no file was.
  The error that is reported is the first failure, of a connection or of a file, in the order in
  which they took effect, and the statistics of the workers add up to the files processed.\<close>

theorem pool_processes_each_file_once:
  assumes "(pool_step files)\<^sup>*\<^sup>* (initial_pool n) p" "pool_joined p"
  shows "mset (processed (pl_log p)) = (if connects_ok (pl_log p) = 0 then {#} else mset [0..<files])
    \<and> pl_first_error p = first_failure (pl_log p) \<and> connects_ok (pl_log p) + connects_failed (pl_log p) = n
    \<and> total_processed (pl_workers p) = length (processed (pl_log p)) \<and> pl_next_file_idx p \<le> files + n"
  by (rule joined_pool [OF assms])

text \<open>The work that is left: what the workers still have to do and the files nobody has claimed.\<close>

primrec phase_work :: "worker_phase \<Rightarrow> nat" where
  "phase_work W_start = 2" | "phase_work W_loop = 1" | "phase_work (W_busy i) = 2" | "phase_work W_done = 0"

definition pool_work :: "nat \<Rightarrow> pool \<Rightarrow> nat" where
  "pool_work files p = sum_list (map (\<lambda>wk. phase_work (wk_phase wk)) (pl_workers p)) + 2 * (files - pl_next_file_idx p)"

lemma work_update:
  assumes "w < length ws"
  shows "sum_list (map (\<lambda>wk. phase_work (wk_phase wk)) (ws[w := y])) + phase_work (wk_phase (ws ! w))
     = sum_list (map (\<lambda>wk. phase_work (wk_phase wk)) ws) + phase_work (wk_phase y)"
  using assms
proof (induction ws arbitrary: w)
  case (Cons x ws)
  then show ?case by (cases w) auto
qed simp

lemma pool_step_work: "pool_step files p p' \<Longrightarrow> pool_work files p' < pool_work files p"
proof (induction rule: pool_step.induct)
  case (connects w p connected)
  then show ?case using work_update [OF connects(1), of "(pl_workers p ! w)\<lparr>wk_phase := (if connected then W_loop else W_done)\<rparr>"]
    by (cases connected) (simp_all add: worker_connect_def pool_work_def Let_def)
next
  case (claims w p)
  then show ?case using work_update [OF claims(1), of
      "(pl_workers p ! w)\<lparr>wk_phase := (if pl_next_file_idx p < files then W_busy (pl_next_file_idx p) else W_done)\<rparr>"]
    by (cases "pl_next_file_idx p < files") (simp_all add: worker_claim_def pool_work_def Let_def)
next
  case (finishes w p idx result)
  then show ?case using work_update [OF finishes(1), of
      "(pl_workers p ! w)\<lparr>wk_phase := W_loop, wk_files_processed := wk_files_processed (pl_workers p ! w) + 1\<rparr>"]
    by (cases result) (simp_all add: worker_finish_def pool_work_def Let_def)
qed

lemma pool_progress: "\<not> pool_joined p \<Longrightarrow> \<exists>p'. pool_step files p p'"
proof -
  assume "\<not> pool_joined p"
  then obtain w where w: "w < length (pl_workers p)" "wk_phase (pl_workers p ! w) \<noteq> W_done"
    by (auto simp: pool_joined_def list_all_length)
  then show ?thesis using pool_step.intros [OF w(1)] by (cases "wk_phase (pl_workers p ! w)") blast+
qed

text \<open>C31: the join comes to an end: every step of a worker reduces the work that is left, as long as some
  worker has not returned some worker has a step, and so a pool that is run to its end is joined
  after at most as many steps as there was work, whatever the schedule.\<close>

theorem pool_terminates:
  "wfP (\<lambda>p' p. pool_step files p p') \<and> (\<exists>p'. (pool_step files)\<^sup>*\<^sup>* p p' \<and> pool_joined p')
   \<and> (pool_joined p \<or> (\<exists>p'. pool_step files p p' \<and> pool_work files p' < pool_work files p))"
proof -
  have "wfP (\<lambda>p' p. pool_step files p p')"
    by (rule wfp_if_convertible_to_nat [where f = "pool_work files"]) (rule pool_step_work)
  moreover have "\<exists>p'. (pool_step files)\<^sup>*\<^sup>* p p' \<and> pool_joined p'"
  proof (induction "pool_work files p" arbitrary: p rule: less_induct)
    case less
    show ?case
    proof (cases "pool_joined p")
      case False
      then obtain q where q: "pool_step files p q" using pool_progress by blast
      with less pool_step_work obtain p' where "(pool_step files)\<^sup>*\<^sup>* q p'" "pool_joined p'" by blast
      with q show ?thesis by (blast intro: converse_rtranclp_into_rtranclp)
    qed blast
  qed
  moreover have "pool_joined p \<or> (\<exists>p'. pool_step files p p' \<and> pool_work files p' < pool_work files p)"
    using pool_progress pool_step_work by blast
  ultimately show ?thesis by blast
qed

lemma first_failure_ok: "first_failure es = es_ok \<longleftrightarrow> list_all (\<lambda>e. event_error e = es_ok) es"
  by (auto simp: first_failure_def find_None_iff list_all_iff find_Some_iff split: option.splits)

lemma prepare_loop_not_ok: "fst (fst (prepare_loop e fs ids g)) \<noteq> Ret (Inl es_ok)"
proof (induction e fs ids g rule: prepare_loop.induct)
  case (2 e fs tpl_id ids g)
  obtain r l where r: "load_template e fs tpl_id = (r, l)" by force
  show ?case
  proof (cases r)
    case (Inl ex)
    then show ?thesis by (cases "ie_class ex") (simp_all add: r prepare_code_def)
  next
    case (Inr b)
    then show ?thesis using 2 r by (cases b) (simp_all add: split_beta Let_def)
  qed
qed simp

text \<open>C15: the exit status tells the truth: when \<open>exec\<close> returns success after a run of the pool, every worker
  had its connection and every file of the command line was processed exactly once, none of them
  with an error.\<close>

theorem exit_ok_means_all_done:
  assumes "appl_exec rt loaded prm backend preflight (fst (fst (prepare_templates e fs g))) run_pool = (Ret es_ok, l)"
    and "1 \<le> cp_parallel prm" "files = length (cp_files prm)"
    and "(pool_step files)\<^sup>*\<^sup>* (initial_pool (worker_count_for (cp_parallel prm) files)) p" "pool_joined p"
    and "run_pool (worker_count_for (cp_parallel prm) files) = pl_first_error p"
  shows "is_success preflight \<and> fst (fst (prepare_templates e fs g)) = Ret (Inr ()) \<and> list_all (\<lambda>e. event_error e = es_ok) (pl_log p)
     \<and> mset (processed (pl_log p)) = mset [0..<files]"
proof -
  note pool = joined_pool [OF assms(4,5)]
  have run: "is_success preflight" "fst (fst (prepare_templates e fs g)) = Ret (Inr ())" "pl_first_error p = es_ok"
    using assms(1,6) prepare_loop_not_ok [of e fs all_templates g] unfolding assms(3)
    by (auto simp: appl_exec_def prepare_templates_def Let_def split: cpp.splits sum.splits if_splits)
  have ok: "list_all (\<lambda>e. event_error e = es_ok) (pl_log p)" using run(3) pool by (simp add: first_failure_ok)
  then have "connects_failed (pl_log p) = 0" by (auto simp: connects_failed_def filter_empty_conv list_all_iff)
  moreover have "1 \<le> worker_count_for (cp_parallel prm) files" using assms(2) by (simp add: worker_count_for_def)
  ultimately have "connects_ok (pl_log p) \<noteq> 0" using pool by simp
  then show ?thesis using run ok pool by simp
qed

subsection \<open>Witnesses\<close>

definition pool0 :: pool where
  "pool0 = worker_claim 1 0 (worker_finish None 0 0 (worker_claim 1 0 (worker_connect True 0 (initial_pool 1))))"

lemmas pool_ops = worker_connect_def worker_claim_def worker_finish_def put_worker_def note_event_def set_first_error_def
  initial_pool_def

lemma pool0_reached: "(pool_step 1)\<^sup>*\<^sup>* (initial_pool 1) pool0"
proof -
  let ?p1 = "worker_connect True 0 (initial_pool 1)"
  let ?p2 = "worker_claim 1 0 ?p1"
  let ?p3 = "worker_finish None 0 0 ?p2"
  have "pool_step 1 (initial_pool 1) ?p1" by (rule pool_step.connects) (simp_all add: initial_pool_def)
  moreover have "pool_step 1 ?p1 ?p2" by (rule pool_step.claims) (simp_all add: pool_ops)
  moreover have "pool_step 1 ?p2 ?p3" by (rule pool_step.finishes) (simp_all add: pool_ops)
  moreover have "pool_step 1 ?p3 pool0" unfolding pool0_def by (rule pool_step.claims) (simp_all add: pool_ops)
  ultimately show ?thesis by (meson converse_rtranclp_into_rtranclp rtranclp.rtrancl_refl)
qed

lemma pool0_joined: "pool_joined pool0"
  by (simp add: pool0_def pool_ops pool_joined_def)

theorem pool_processes_each_file_once_witness:
  "mset (processed (pl_log pool0)) = mset [0] \<and> pl_first_error pool0 = first_failure (pl_log pool0)
   \<and> total_processed (pl_workers pool0) = 1"
proof -
  have l: "pl_log pool0 = [Ev_connect True, Ev_file 0 None]" by (simp add: pool0_def pool_ops)
  show ?thesis using pool_processes_each_file_once [OF pool0_reached pool0_joined]
    by (simp add: l processed_def connects_ok_def)
qed

definition params0 :: cmd_line_params where
  "params0 = \<lparr>cp_db_name = ''t'', cp_db_type = dt_psql, cp_out_folder = ''out'', cp_verbose = False, cp_user = ''u'', cp_pass = ''p'',
     cp_port = 5432, cp_host = ''localhost'', cp_files = [''a.yaml''], cp_max_field_len = 1000, cp_parallel = 1\<rparr>"

theorem exit_ok_means_all_done_witness:
  "list_all (\<lambda>e. event_error e = es_ok) (pl_log pool0) \<and> mset (processed (pl_log pool0)) = mset [0..<1]"
proof -
  let ?fs = "\<lparr>fs_files = (\<lambda>_. Some ''t''), fs_writable = (\<lambda>_. True)\<rparr>"
  have t: "fst (fst (prepare_templates gen_env0 ?fs (make_generator ''out'' dt_psql))) = Ret (Inr ())"
    by (simp add: prepare_templates_def all_templates_def load_template_def read_file_def gen_env0_def Let_def)
  have e: "appl_exec (\<lambda>_. True) (Ret es_ok) params0 ''psql'' sts_success (fst (fst (prepare_templates gen_env0 ?fs (make_generator ''out'' dt_psql))))
      (\<lambda>_. pl_first_error pool0) = (Ret es_ok, [])"
    unfolding t by (simp add: appl_exec_def params0_def dialect_warning_def is_success_def pool0_def pool_ops)
  have w: "worker_count_for (cp_parallel params0) 1 = 1" by (simp add: params0_def worker_count_for_def)
  show ?thesis
    using exit_ok_means_all_done [OF e, of 1 pool0] pool0_reached pool0_joined unfolding w by (simp add: params0_def del: mset_upt)
qed

end
