(* ===== verification/Psql_Conn.thy ===== *)
theory Psql_Conn
  imports Psql_Types Rtl_Core "HOL-Library.Multiset"
begin

text \<open>
  The connection of the PostgreSQL backend (\<open>src/rtl/psql/psql_rtl.hpp\<close>, \<open>psql_rtl.cpp\<close>):
  connecting and disconnecting, the transaction that is always open, the description of a
  statement, and change notification with its listening thread. The library libpq is a parameter:
  every answer is a function of the history of the calls so far, and the history is part of the
  state. Lines logged at debug level are left out.
\<close>

subsection \<open>The library and the state\<close>

datatype pq_call =
    Pq_connectdb string
  | Pq_finish nat
  | Pq_exec nat string
  | Pq_prepare nat string string
  | Pq_describe nat string

text \<open>What a call made: whether its result is \<open>PGRES_COMMAND_OK\<close> and the connection it opened (0 if none).\<close>

type_synonym pq_history = "(pq_call \<times> bool \<times> nat) list"

record pq_result =
  pr_command_ok :: bool
  pr_message :: string

record libpq =
  lp_connectdb :: "pq_history \<Rightarrow> string \<Rightarrow> nat"
  lp_connected :: "pq_history \<Rightarrow> nat \<Rightarrow> bool"
  lp_error :: "pq_history \<Rightarrow> nat \<Rightarrow> string"
  lp_result :: "pq_history \<Rightarrow> pq_call \<Rightarrow> pq_result option"
  lp_params :: "pq_history \<Rightarrow> oid_t list"
  lp_fields :: "pq_history \<Rightarrow> (string \<times> oid_t \<times> i32 \<times> i32) list"
  lp_thread_error :: "pq_history \<Rightarrow> string option"

datatype listener = L_none | L_running | L_ended

record 'h db_psql =
  pc_conn :: nat
  pc_conn_str :: string
  pc_base :: "unit db_base"
  pc_handlers :: "string \<rightharpoonup> 'h"
  pc_listen_conn :: nat
  pc_listener :: listener
  pc_stop_listen :: bool
  pc_pending :: "string option"
  pc_pending_done :: bool
  pc_pending_result :: db_sts
  pc_history :: pq_history

definition initial_db_psql :: "'h db_psql" where
  "initial_db_psql = \<lparr>pc_conn = 0, pc_conn_str = [], pc_base = \<lparr>db_data = None, db_log = [], db_connection_info = []\<rparr>,
     pc_handlers = Map.empty, pc_listen_conn = 0, pc_listener = L_none, pc_stop_listen = False,
     pc_pending = None, pc_pending_done = False, pc_pending_result = sts_success, pc_history = []\<rparr>"

definition pg_error :: "string \<Rightarrow> 'h db_psql \<Rightarrow> 'h db_psql" where
  "pg_error msg s = s\<lparr>pc_base := (pc_base s)\<lparr>db_log := log_error msg (db_log (pc_base s))\<rparr>\<rparr>"

definition pg_warning :: "string \<Rightarrow> 'h db_psql \<Rightarrow> 'h db_psql" where
  "pg_warning msg s = s\<lparr>pc_base := (pc_base s)\<lparr>db_log := log_warn msg (db_log (pc_base s))\<rparr>\<rparr>"

definition pg_critical :: "string \<Rightarrow> 'h db_psql \<Rightarrow> 'h db_psql" where
  "pg_critical msg s = s\<lparr>pc_base := (pc_base s)\<lparr>db_log := db_log (pc_base s) @ [(Lvl_critical, msg)]\<rparr>\<rparr>"

text \<open>\<open>result_guard\<close>: status and message of a result, which may be missing.\<close>

definition guard_ok :: "pq_result option \<Rightarrow> bool" where
  "guard_ok r = (case r of Some p \<Rightarrow> pr_command_ok p | None \<Rightarrow> False)"

definition guard_error :: "pq_result option \<Rightarrow> string" where
  "guard_error r = (case r of Some p \<Rightarrow> pr_message p | None \<Rightarrow> ''no result'')"

definition pq_issue :: "libpq \<Rightarrow> pq_call \<Rightarrow> 'h db_psql \<Rightarrow> pq_result option \<times> 'h db_psql" where
  "pq_issue lp c s =
     (let r = lp_result lp (pc_history s) c in (r, s\<lparr>pc_history := pc_history s @ [(c, guard_ok r, 0)]\<rparr>))"

definition pq_open :: "libpq \<Rightarrow> string \<Rightarrow> 'h db_psql \<Rightarrow> nat \<times> 'h db_psql" where
  "pq_open lp str s =
     (let h = lp_connectdb lp (pc_history s) str
      in (h, s\<lparr>pc_history := pc_history s @ [(Pq_connectdb str, h \<noteq> 0, h)]\<rparr>))"

definition pq_finish :: "nat \<Rightarrow> 'h db_psql \<Rightarrow> 'h db_psql" where
  "pq_finish h s = s\<lparr>pc_history := pc_history s @ [(Pq_finish h, True, 0)]\<rparr>"

subsection \<open>Connection and transactions\<close>

definition psql_is_connected :: "libpq \<Rightarrow> 'h db_psql \<Rightarrow> bool" where
  "psql_is_connected lp s \<longleftrightarrow> pc_conn s \<noteq> 0 \<and> lp_connected lp (pc_history s) (pc_conn s)"

definition exec_command :: "libpq \<Rightarrow> string \<Rightarrow> 'h db_psql \<Rightarrow> db_sts \<times> 'h db_psql" where
  "exec_command lp sql s =
     (if \<not> psql_is_connected lp s
      then (sts_connection_error, pg_error (quoted sql @ '' attempted on a disconnected database.'') s)
      else
        let (res, s1) = pq_issue lp (Pq_exec (pc_conn s) sql) s in
        if \<not> guard_ok res then (sts_transaction_error, pg_error (quoted sql @ '' failed: '' @ guard_error res) s1)
        else (sts_success, s1))"

definition psql_exec :: "libpq \<Rightarrow> string \<Rightarrow> 'h db_psql \<Rightarrow> db_sts \<times> 'h db_psql" where
  "psql_exec lp sql s = exec_command lp sql s"

definition begin_transaction :: "libpq \<Rightarrow> 'h db_psql \<Rightarrow> db_sts \<times> 'h db_psql" where
  "begin_transaction lp s = exec_command lp ''BEGIN'' s"

definition psql_commit :: "libpq \<Rightarrow> 'h db_psql \<Rightarrow> db_sts \<times> 'h db_psql" where
  "psql_commit lp s =
     (let (ret, s1) = exec_command lp ''COMMIT'' s in
      if ret \<noteq> sts_success then (ret, s1) else begin_transaction lp s1)"

definition psql_rollback :: "libpq \<Rightarrow> 'h db_psql \<Rightarrow> db_sts \<times> 'h db_psql" where
  "psql_rollback lp s =
     (let (ret, s1) = exec_command lp ''ROLLBACK'' s in
      if ret \<noteq> sts_success then (ret, s1) else begin_transaction lp s1)"

definition psql_connect_str :: "libpq \<Rightarrow> string \<Rightarrow> 'h db_psql \<Rightarrow> db_sts \<times> 'h db_psql" where
  "psql_connect_str lp conn_str s =
     (if pc_conn s \<noteq> 0 then (sts_connection_error, pg_error ''Already connected - disconnect first.'' s)
      else
        let (conn, s1) = pq_open lp conn_str s in
        if conn = 0
        then (sts_memory_error, pg_critical ''PQconnectdb returned no connection object - out of memory?'' s1)
        else if \<not> lp_connected lp (pc_history s1) conn
        then (sts_connection_error,
              pq_finish conn (pg_error (''Connection failed: '' @ lp_error lp (pc_history s1) conn) s1))
        else begin_transaction lp (s1\<lparr>pc_conn := conn, pc_conn_str := conn_str\<rparr>))"

definition psql_conn_str :: "string \<Rightarrow> u16 \<Rightarrow> string \<Rightarrow> string \<Rightarrow> string \<Rightarrow> string" where
  "psql_conn_str host port database_name user password =
     (if host \<noteq> [] then ''host='' @ host @ '' '' else [])
   @ (if port \<noteq> 0 then ''port='' @ dec (unat port) @ '' '' else [])
   @ (if database_name \<noteq> [] then ''dbname='' @ database_name @ '' '' else [])
   @ (if user \<noteq> [] then ''user='' @ user @ '' '' else [])
   @ (if password \<noteq> [] then ''password='' @ password @ '' '' else [])"

definition psql_connect ::
  "libpq \<Rightarrow> string \<Rightarrow> u16 \<Rightarrow> string \<Rightarrow> string \<Rightarrow> string \<Rightarrow> 'h db_psql \<Rightarrow> db_sts \<times> 'h db_psql" where
  "psql_connect lp host port database_name user password s =
     (let (ret, s1) = psql_connect_str lp (psql_conn_str host port database_name user password) s
      in (ret, if ret = sts_success
               then s1\<lparr>pc_base := set_connection_info host port database_name user (pc_base s1)\<rparr> else s1))"

text \<open>The join waits until the listening thread has returned; a thread that was never started has no effect.\<close>

definition psql_disconnect :: "libpq \<Rightarrow> 'h db_psql \<Rightarrow> db_sts \<times> 'h db_psql" where
  "psql_disconnect lp s =
     (if pc_conn s = 0 then (sts_success, s)
      else
        let s1 = s\<lparr>pc_stop_listen := True, pc_listener := L_none\<rparr>;
            s2 = (if pc_listen_conn s1 \<noteq> 0 then (pq_finish (pc_listen_conn s1) s1)\<lparr>pc_listen_conn := 0\<rparr> else s1);
            s3 = snd (psql_rollback lp s2)
        in (sts_success, (pq_finish (pc_conn s3) s3)\<lparr>pc_conn := 0\<rparr>))"

definition psql_refresh_statistics :: "libpq \<Rightarrow> string \<Rightarrow> 'h db_psql \<Rightarrow> db_sts \<times> 'h db_psql" where
  "psql_refresh_statistics lp table_name s =
     (let (ret, s1) = exec_command lp ''COMMIT'' s in
      if ret \<noteq> sts_success then (ret, s1)
      else
        let (vacuum_ret, s2) = exec_command lp (''VACUUM ANALYZE '' @ table_name) s1;
            (begin_ret, s3) = exec_command lp ''BEGIN'' s2
        in (if begin_ret \<noteq> sts_success then begin_ret else vacuum_ret, s3))"

text \<open>The destructors.\<close>

definition psql_destroy :: "libpq \<Rightarrow> 'h db_psql \<Rightarrow> 'h db_psql \<times> string list" where
  "psql_destroy lp s =
     (let s1 = snd (psql_disconnect lp s)
      in (s1, if pc_conn s1 \<noteq> 0 then [''libpq connection is not closed.''] else []))"

subsection \<open>Describing a statement\<close>

definition describe_stmt_name :: string where
  "describe_stmt_name = ''dbgen4_describe''"

definition psql_param :: "nat \<Rightarrow> oid_t \<Rightarrow> meta_dscr" where
  "psql_param i oid =
     \<lparr>md_index = of_nat (i + 1), md_name = ''par_'' @ dec (i + 1), md_type = from_oid oid, md_native_type = ucast oid,
      md_size = column_width oid (- 1) (- 1), md_digits = 0, md_nullable = 1\<rparr>"

definition psql_col :: "nat \<Rightarrow> string \<times> oid_t \<times> i32 \<times> i32 \<Rightarrow> meta_dscr" where
  "psql_col i = (\<lambda>(name, oid, typmod, sz).
     \<lparr>md_index = of_nat (i + 1), md_name = lowercase name, md_type = from_oid oid, md_native_type = ucast oid,
      md_size = column_width oid typmod sz, md_digits = column_scale oid typmod, md_nullable = 1\<rparr>)"

primrec psql_params :: "nat \<Rightarrow> oid_t list \<Rightarrow> qry_metadata \<Rightarrow> 'h db_psql \<Rightarrow> qry_metadata \<times> 'h db_psql" where
  "psql_params i [] md s = (md, s)"
| "psql_params i (oid # oids) md s =
     (let par = psql_param i oid;
          s1 = (if md_type par = st_unknown
                then pg_warning (''Parameter '' @ dec (i + 1) @ '' has an unmapped type OID '' @ dec (unat oid)
                       @ ''. Generated code will not compile.'') s else s)
      in psql_params (i + 1) oids (add_par_dscr par md) s1)"

primrec psql_cols ::
  "nat \<Rightarrow> (string \<times> oid_t \<times> i32 \<times> i32) list \<Rightarrow> qry_metadata \<Rightarrow> 'h db_psql \<Rightarrow> qry_metadata \<times> 'h db_psql" where
  "psql_cols i [] md s = (md, s)"
| "psql_cols i (f # fs) md s =
     (let col = psql_col i f;
          s1 = (if md_type col = st_unknown
                then pg_warning (''Column '' @ quoted (md_name col) @ '' has an unmapped type OID '' @ dec (unat (fst (snd f)))
                       @ ''. Generated code will not compile.'') s else s)
      in psql_cols (i + 1) fs (add_col_dscr col md) s1)"

definition psql_get_sql_metadata :: "libpq \<Rightarrow> string \<Rightarrow> 'h db_psql \<Rightarrow> (db_sts + qry_metadata) \<times> 'h db_psql" where
  "psql_get_sql_metadata lp sql s =
     (if \<not> psql_is_connected lp s
      then (Inl sts_connection_error, pg_error ''get_sql_metadata: No active database connection'' s)
      else
        let s1 = snd (pq_issue lp (Pq_exec (pc_conn s) ''DEALLOCATE ALL'') s);
            (prep, s2) = pq_issue lp (Pq_prepare (pc_conn s1) describe_stmt_name sql) s1 in
        if \<not> guard_ok prep
        then (Inl sts_invalid_sql, pg_error (''Invalid sql '' @ quoted sql @ '': '' @ guard_error prep) s2)
        else
          let (desc, s3) = pq_issue lp (Pq_describe (pc_conn s2) describe_stmt_name) s2 in
          if \<not> guard_ok desc
          then (Inl sts_invalid_sql, pg_error (''Describe failed for sql '' @ quoted sql @ '': '' @ guard_error desc) s3)
          else
            let (md1, s4) = psql_params 0 (lp_params lp (pc_history s3)) \<lparr>qm_columns = [], qm_params = []\<rparr> s3;
                (md2, s5) = psql_cols 0 (lp_fields lp (pc_history s3)) md1 s4;
                s6 = snd (pq_issue lp (Pq_exec (pc_conn s5) ''DEALLOCATE ALL'') s5)
            in (Inr md2, s6))"

subsection \<open>Change notification\<close>

definition channel_name :: "string \<Rightarrow> string" where
  "channel_name table_name = ''dbgen4_on_change_'' @ table_name"

text \<open>A statement that ends the unit of work when it fails.\<close>

definition or_rollback ::
  "libpq \<Rightarrow> string \<Rightarrow> ('h db_psql \<Rightarrow> db_sts \<times> 'h db_psql) \<Rightarrow> 'h db_psql \<Rightarrow> db_sts \<times> 'h db_psql" where
  "or_rollback lp sql cont s =
     (let (ret, s1) = exec_command lp sql s in
      if ret \<noteq> sts_success then (ret, snd (psql_rollback lp s1)) else cont s1)"

definition create_change_trigger :: "libpq \<Rightarrow> string \<Rightarrow> 'h db_psql \<Rightarrow> db_sts \<times> 'h db_psql" where
  "create_change_trigger lp table_name s =
     (let channel = channel_name table_name;
          function_sql = ''CREATE OR REPLACE FUNCTION '' @ channel @ ''_fn() RETURNS trigger AS $$ ''
            @ ''BEGIN PERFORM pg_notify('' @ quoted channel @ '', TG_OP); RETURN NULL; END; $$ LANGUAGE plpgsql'';
          drop_sql = ''DROP TRIGGER IF EXISTS '' @ channel @ ''_trg ON '' @ table_name;
          create_sql = ''CREATE TRIGGER '' @ channel @ ''_trg AFTER INSERT OR UPDATE OR DELETE ON '' @ table_name
            @ '' FOR EACH ROW EXECUTE FUNCTION '' @ channel @ ''_fn()''
      in or_rollback lp function_sql (or_rollback lp drop_sql (or_rollback lp create_sql (psql_commit lp))) s)"

definition start_listen_worker :: "libpq \<Rightarrow> 'h db_psql \<Rightarrow> db_sts \<times> 'h db_psql" where
  "start_listen_worker lp s =
     (if pc_listener s \<noteq> L_none then (sts_success, s)
      else
        let (conn, s1) = pq_open lp (pc_conn_str s) s in
        if conn = 0
        then (sts_memory_error,
              pg_critical ''on_change: PQconnectdb (listen connection) returned no connection object - out of memory?'' s1)
        else if \<not> lp_connected lp (pc_history s1) conn
        then (sts_connection_error,
              pq_finish conn (pg_error (''on_change: listen connection failed: '' @ lp_error lp (pc_history s1) conn) s1))
        else
          let s2 = s1\<lparr>pc_listen_conn := conn\<rparr> in
          case lp_thread_error lp (pc_history s2) of
            Some what \<Rightarrow> (sts_os_error,
              (pq_finish (pc_listen_conn s2) (pg_error (''on_change: could not start the listen worker thread: '' @ what) s2))
              \<lparr>pc_listen_conn := 0\<rparr>)
          | None \<Rightarrow> (sts_success, s2\<lparr>pc_listener := L_running\<rparr>))"

definition run_pending_listen :: "libpq \<Rightarrow> 'h db_psql \<Rightarrow> 'h db_psql" where
  "run_pending_listen lp s =
     (case pc_pending s of
        None \<Rightarrow> s
      | Some channel \<Rightarrow>
          let (res, s1) = pq_issue lp (Pq_exec (pc_listen_conn s) (''LISTEN '' @ channel)) s;
              s2 = (if \<not> guard_ok res then pg_error (''on_change: LISTEN '' @ channel @ '' failed: '' @ guard_error res) s1 else s1)
          in s2\<lparr>pc_pending := None, pc_pending_done := True,
                pc_pending_result := (if guard_ok res then sts_success else sts_connection_error)\<rparr>)"

text \<open>What \<open>poll\<close> and \<open>PQconsumeInput\<close> bring: an interruption, a failure, a timeout, or the
  notifications (channel and payload) that are then in the buffer of the library.\<close>

datatype poll_event =
    Poll_interrupted
  | Poll_failed string
  | Poll_timeout
  | Poll_no_input string
  | Poll_ready "(string \<times> string) list"

definition change_op_of :: "string \<Rightarrow> change_op option" where
  "change_op_of op =
     (if op = ''INSERT'' then Some op_insert else if op = ''UPDATE'' then Some op_update
      else if op = ''DELETE'' then Some op_remove else None)"

text \<open>One notification: the handler that is run and with what, if any.\<close>

definition dispatch :: "string \<times> string \<Rightarrow> 'h db_psql \<Rightarrow> 'h db_psql \<times> ('h \<times> change_op) list" where
  "dispatch = (\<lambda>(channel, op) s.
     (case pc_handlers s channel of
        None \<Rightarrow> (s, [])
      | Some handler \<Rightarrow>
          (case change_op_of op of
             Some c \<Rightarrow> (s, [(handler, c)])
           | None \<Rightarrow> (pg_warning (''on_change: unrecognized TG_OP '' @ quoted op @ '' on channel '' @ quoted channel) s, []))))"

primrec dispatch_all :: "(string \<times> string) list \<Rightarrow> 'h db_psql \<Rightarrow> 'h db_psql \<times> ('h \<times> change_op) list" where
  "dispatch_all [] s = (s, [])"
| "dispatch_all (n # ns) s =
     (let (s1, calls) = dispatch n s; (s2, calls') = dispatch_all ns s1 in (s2, calls @ calls'))"

text \<open>One turn of \<open>listen_loop\<close>.\<close>

definition listen_turn :: "libpq \<Rightarrow> poll_event \<Rightarrow> 'h db_psql \<Rightarrow> 'h db_psql \<times> ('h \<times> change_op) list" where
  "listen_turn lp ev s =
     (if pc_stop_listen s then (s\<lparr>pc_listener := L_ended\<rparr>, [])
      else
        let s1 = run_pending_listen lp s in
        case ev of
          Poll_interrupted \<Rightarrow> (s1, [])
        | Poll_failed msg \<Rightarrow>
            ((pg_error (''on_change: poll() on the listen connection failed: '' @ msg) s1)\<lparr>pc_listener := L_ended\<rparr>, [])
        | Poll_timeout \<Rightarrow> (s1, [])
        | Poll_no_input msg \<Rightarrow>
            ((pg_error (''on_change: PQconsumeInput failed: '' @ msg) s1)\<lparr>pc_listener := L_ended\<rparr>, [])
        | Poll_ready ns \<Rightarrow> dispatch_all ns s1)"

text \<open>\<open>on_change\<close> up to the wait on the condition variable, and from there.\<close>

definition on_change_ask :: "libpq \<Rightarrow> string \<Rightarrow> 'h db_psql \<Rightarrow> (db_sts + string) \<times> 'h db_psql" where
  "on_change_ask lp table_name s =
     (let (r1, s1) = create_change_trigger lp table_name s in
      if r1 \<noteq> sts_success then (Inl r1, s1)
      else
        let (r2, s2) = start_listen_worker lp s1 in
        if r2 \<noteq> sts_success then (Inl r2, s2)
        else (Inr (channel_name table_name), s2\<lparr>pc_pending := Some (channel_name table_name), pc_pending_done := False\<rparr>))"

definition on_change_answer :: "string \<Rightarrow> 'h \<Rightarrow> 'h db_psql \<Rightarrow> db_sts \<times> 'h db_psql" where
  "on_change_answer channel handler s =
     (pc_pending_result s,
      if pc_pending_result s = sts_success then s\<lparr>pc_handlers := (pc_handlers s)(channel \<mapsto> handler)\<rparr> else s)"

subsection \<open>The caller and the listening thread\<close>

text \<open>The second component is the call of \<open>on_change\<close> that waits, if there is one: the calls of one
  connection come from one thread. Transaction commands have methods of their own and are not
  handed to \<open>exec\<close>.\<close>

type_synonym 'h psql_config = "'h db_psql \<times> (string \<times> 'h) option"

definition transaction_command :: "string \<Rightarrow> bool" where
  "transaction_command q \<longleftrightarrow> q = ''BEGIN'' \<or> q = ''COMMIT'' \<or> q = ''ROLLBACK''"

inductive psql_step :: "libpq \<Rightarrow> 'h psql_config \<Rightarrow> 'h psql_config \<Rightarrow> bool" for lp where
  do_connect: "psql_step lp (s, None) (snd (psql_connect lp host port database_name user password s), None)"
| do_connect_str: "psql_step lp (s, None) (snd (psql_connect_str lp str s), None)"
| do_disconnect: "psql_step lp (s, None) (snd (psql_disconnect lp s), None)"
| do_exec: "\<not> transaction_command q \<Longrightarrow> psql_step lp (s, None) (snd (psql_exec lp q s), None)"
| do_commit: "psql_step lp (s, None) (snd (psql_commit lp s), None)"
| do_rollback: "psql_step lp (s, None) (snd (psql_rollback lp s), None)"
| do_refresh: "psql_step lp (s, None) (snd (psql_refresh_statistics lp t s), None)"
| do_describe: "psql_step lp (s, None) (snd (psql_get_sql_metadata lp q s), None)"
| ask: "on_change_ask lp t s = (Inr ch, s') \<Longrightarrow> psql_step lp (s, None) (s', Some (ch, h))"
| ask_failed: "on_change_ask lp t s = (Inl e, s') \<Longrightarrow> psql_step lp (s, None) (s', None)"
| answered: "pc_pending_done s \<Longrightarrow> psql_step lp (s, Some (ch, h)) (snd (on_change_answer ch h s), None)"
| listens: "pc_listener s = L_running \<Longrightarrow> psql_step lp (s, w) (fst (listen_turn lp ev s), w)"

inductive_cases psql_step_waiting: "psql_step lp (s, Some w) c'"

subsection \<open>What the operations leave alone\<close>

definition no_open_close :: "pq_history \<Rightarrow> bool" where
  "no_open_close h = list_all (\<lambda>(c, _, _). case c of Pq_connectdb _ \<Rightarrow> False | Pq_finish _ \<Rightarrow> False | _ \<Rightarrow> True) h"

text \<open>Only log lines, and calls that neither open nor close a connection.\<close>

definition keeps :: "'h db_psql \<Rightarrow> 'h db_psql \<Rightarrow> bool" where
  "keeps s s' \<longleftrightarrow> (\<exists>b h. s' = s\<lparr>pc_base := b, pc_history := pc_history s @ h\<rparr> \<and> no_open_close h)"

lemma keeps_refl [simp]: "keeps s s"
  unfolding keeps_def by (rule exI [of _ "pc_base s"], rule exI [of _ "[]"]) (simp add: no_open_close_def)

lemma keeps_trans [trans]:
  assumes "keeps s s'" "keeps s' s''"
  shows "keeps s s''"
proof -
  obtain b h b' h' where s': "s' = s\<lparr>pc_base := b, pc_history := pc_history s @ h\<rparr>"
    and s'': "s'' = s'\<lparr>pc_base := b', pc_history := pc_history s' @ h'\<rparr>" and h: "no_open_close h" "no_open_close h'"
    using assms unfolding keeps_def by blast
  from s' s'' have "s'' = s\<lparr>pc_base := b', pc_history := pc_history s @ (h @ h')\<rparr>" by simp
  with h show ?thesis unfolding keeps_def no_open_close_def by (metis list_all_append)
qed

lemma keeps_log [simp]: "keeps s (pg_error m s)" "keeps s (pg_warning m s)" "keeps s (pg_critical m s)"
  unfolding keeps_def pg_error_def pg_warning_def pg_critical_def no_open_close_def
  by (auto intro!: exI [of _ "[]"])

lemma keeps_issue:
  "pq_issue lp c s = (r, s') \<Longrightarrow> no_open_close [(c, guard_ok r, 0)] \<Longrightarrow> keeps s s'"
  unfolding keeps_def pq_issue_def Let_def by (auto intro!: exI [of _ "pc_base s"])

lemma keeps_frame:
  assumes "keeps s s'"
  shows "pc_conn s' = pc_conn s" "pc_conn_str s' = pc_conn_str s" "pc_listen_conn s' = pc_listen_conn s"
    "pc_listener s' = pc_listener s" "pc_stop_listen s' = pc_stop_listen s" "pc_pending s' = pc_pending s"
    "pc_pending_done s' = pc_pending_done s" "pc_pending_result s' = pc_pending_result s" "pc_handlers s' = pc_handlers s"
  using assms by (auto simp: keeps_def)

lemma log_frame [simp]:
  "pc_history (pg_error m s) = pc_history s" "pc_history (pg_warning m s) = pc_history s" "pc_history (pg_critical m s) = pc_history s"
  "pc_conn (pg_error m s) = pc_conn s" "pc_conn (pg_warning m s) = pc_conn s" "pc_conn (pg_critical m s) = pc_conn s"
  "pc_listen_conn (pg_error m s) = pc_listen_conn s" "pc_listen_conn (pg_warning m s) = pc_listen_conn s"
  "pc_listen_conn (pg_critical m s) = pc_listen_conn s" "pc_listener (pg_error m s) = pc_listener s"
  "pc_listener (pg_warning m s) = pc_listener s" "pc_listener (pg_critical m s) = pc_listener s"
  "pc_pending (pg_error m s) = pc_pending s" "pc_pending_done (pg_error m s) = pc_pending_done s"
  "pc_stop_listen (pg_error m s) = pc_stop_listen s" "pc_handlers (pg_error m s) = pc_handlers s"
  "pc_handlers (pg_warning m s) = pc_handlers s" "pc_pending_result (pg_error m s) = pc_pending_result s"
  by (simp_all add: pg_error_def pg_warning_def pg_critical_def)

lemma exec_command_keeps: "keeps s (snd (exec_command lp q s))"
proof -
  obtain r s1 where i: "pq_issue lp (Pq_exec (pc_conn s) q) s = (r, s1)" by force
  have "keeps s s1" by (rule keeps_issue [OF i]) (simp add: no_open_close_def)
  then show ?thesis by (auto simp: exec_command_def i intro: keeps_trans)
qed

lemma begin_keeps: "keeps s (snd (begin_transaction lp s))"
  by (simp add: begin_transaction_def exec_command_keeps)

lemma transaction_keeps: "keeps s (snd (psql_commit lp s))" "keeps s (snd (psql_rollback lp s))"
  using exec_command_keeps begin_keeps keeps_trans
  by (auto simp: psql_commit_def psql_rollback_def split_beta Let_def) blast+

lemma refresh_keeps: "keeps s (snd (psql_refresh_statistics lp t s))"
  using exec_command_keeps keeps_trans by (auto simp: psql_refresh_statistics_def split_beta Let_def) blast+

lemma or_rollback_keeps:
  assumes "\<And>s. keeps s (snd (cont s))"
  shows "keeps s (snd (or_rollback lp q cont s))"
  using exec_command_keeps transaction_keeps assms keeps_trans by (auto simp: or_rollback_def split_beta Let_def) blast+

lemma trigger_keeps: "keeps s (snd (create_change_trigger lp t s))"
  unfolding create_change_trigger_def Let_def by (intro or_rollback_keeps transaction_keeps)

lemma describe_lists_keep: "keeps s (snd (psql_params i oids md s))" "keeps s (snd (psql_cols i fs md s))"
proof -
  show "keeps s (snd (psql_params i oids md s))"
    by (induction oids arbitrary: i md s) (auto simp: Let_def intro: keeps_trans [OF keeps_log(2)])
  show "keeps s (snd (psql_cols i fs md s))"
    by (induction fs arbitrary: i md s) (auto simp: Let_def intro: keeps_trans [OF keeps_log(2)])
qed

lemma issue_keeps:
  "keeps s (snd (pq_issue lp (Pq_exec c q) s))" "keeps s (snd (pq_issue lp (Pq_prepare c n q) s))"
  "keeps s (snd (pq_issue lp (Pq_describe c n) s))"
  by (rule keeps_issue [OF prod.collapse [symmetric]], simp add: no_open_close_def)+

text \<open>What holds of each part of a description holds of the whole.\<close>

lemma describe_closed:
  assumes trans: "\<And>a b c. R a b \<Longrightarrow> R b c \<Longrightarrow> R a c" and log: "\<And>s m. R s (pg_error m s)"
    and issue: "\<And>s c. R s (snd (pq_issue lp (Pq_exec c ''DEALLOCATE ALL'') s))"
      "\<And>s c n q. R s (snd (pq_issue lp (Pq_prepare c n q) s))" "\<And>s c n. R s (snd (pq_issue lp (Pq_describe c n) s))"
    and lists: "\<And>s i oids md. R s (snd (psql_params i oids md s))" "\<And>s i fs md. R s (snd (psql_cols i fs md s))"
  shows "R s (snd (psql_get_sql_metadata lp q s))"
proof -
  define s1 where "s1 = snd (pq_issue lp (Pq_exec (pc_conn s) ''DEALLOCATE ALL'') s)"
  define p where "p = pq_issue lp (Pq_prepare (pc_conn s1) describe_stmt_name q) s1"
  define d where "d = pq_issue lp (Pq_describe (pc_conn (snd p)) describe_stmt_name) (snd p)"
  define m where "m = psql_params 0 (lp_params lp (pc_history (snd d))) \<lparr>qm_columns = [], qm_params = []\<rparr> (snd d)"
  define n where "n = psql_cols 0 (lp_fields lp (pc_history (snd d))) (fst m) (snd m)"
  have k1: "R s (snd p)" unfolding p_def s1_def by (blast intro: issue trans)
  then have k2: "R s (snd d)" unfolding d_def by (blast intro: issue trans)
  then have k3: "R s (snd n)" unfolding n_def m_def by (blast intro: lists trans)
  then have k4: "R s (snd (pq_issue lp (Pq_exec (pc_conn (snd n)) ''DEALLOCATE ALL'') (snd n)))"
    by (blast intro: issue trans)
  have "psql_get_sql_metadata lp q s =
     (if \<not> psql_is_connected lp s
      then (Inl sts_connection_error, pg_error ''get_sql_metadata: No active database connection'' s)
      else if \<not> guard_ok (fst p)
      then (Inl sts_invalid_sql, pg_error (''Invalid sql '' @ quoted q @ '': '' @ guard_error (fst p)) (snd p))
      else if \<not> guard_ok (fst d)
      then (Inl sts_invalid_sql, pg_error (''Describe failed for sql '' @ quoted q @ '': '' @ guard_error (fst d)) (snd d))
      else (Inr (fst n), snd (pq_issue lp (Pq_exec (pc_conn (snd n)) ''DEALLOCATE ALL'') (snd n))))"
    unfolding psql_get_sql_metadata_def Let_def split_beta s1_def [symmetric] p_def [symmetric] d_def [symmetric]
      m_def [symmetric] n_def [symmetric] by (rule refl)
  then show ?thesis using k1 k2 k4 by (auto intro: trans log)
qed

lemma describe_keeps: "keeps s (snd (psql_get_sql_metadata lp q s))"
  by (rule describe_closed) (auto intro: issue_keeps describe_lists_keep keeps_trans)

subsection \<open>The ledger of connections\<close>

definition pq_opened :: "pq_history \<Rightarrow> nat list" where
  "pq_opened h = concat (map (\<lambda>(c, ok, n). case c of Pq_connectdb _ \<Rightarrow> if n = 0 then [] else [n] | _ \<Rightarrow> []) h)"

definition pq_closed :: "pq_history \<Rightarrow> nat list" where
  "pq_closed h = concat (map (\<lambda>(c, ok, n). case c of Pq_finish m \<Rightarrow> [m] | _ \<Rightarrow> []) h)"

definition live :: "nat \<Rightarrow> nat multiset" where
  "live n = (if n = 0 then {#} else {#n#})"

definition psql_inv :: "'h db_psql \<Rightarrow> bool" where
  "psql_inv s \<longleftrightarrow>
     mset (pq_opened (pc_history s)) = mset (pq_closed (pc_history s)) + live (pc_conn s) + live (pc_listen_conn s)
   \<and> (pc_listener s = L_none \<longleftrightarrow> pc_listen_conn s = 0) \<and> (pc_listen_conn s \<noteq> 0 \<longrightarrow> pc_conn s \<noteq> 0)"

lemma pq_ledger_append [simp]:
  "pq_opened (g @ h) = pq_opened g @ pq_opened h" "pq_closed (g @ h) = pq_closed g @ pq_closed h"
  "pq_opened [] = []" "pq_closed [] = []"
  "pq_opened ((c, ok, n) # h) = (case c of Pq_connectdb _ \<Rightarrow> if n = 0 then [] else [n] | _ \<Rightarrow> []) @ pq_opened h"
  "pq_closed ((c, ok, n) # h) = (case c of Pq_finish m \<Rightarrow> [m] | _ \<Rightarrow> []) @ pq_closed h"
  by (simp_all add: pq_opened_def pq_closed_def)

lemma no_open_close_ledger: "no_open_close h \<Longrightarrow> pq_opened h = [] \<and> pq_closed h = []"
  by (induction h) (auto simp: no_open_close_def pq_opened_def pq_closed_def split: pq_call.splits)

lemma psql_inv_keeps: "psql_inv s \<Longrightarrow> keeps s s' \<Longrightarrow> psql_inv s'"
  by (auto simp: psql_inv_def keeps_def dest: no_open_close_ledger)

lemma finish_frame [simp]:
  "pc_history (pq_finish n s) = pc_history s @ [(Pq_finish n, True, 0)]" "pc_conn (pq_finish n s) = pc_conn s"
  "pc_listen_conn (pq_finish n s) = pc_listen_conn s" "pc_listener (pq_finish n s) = pc_listener s"
  "pc_pending (pq_finish n s) = pc_pending s" "pc_stop_listen (pq_finish n s) = pc_stop_listen s"
  by (simp_all add: pq_finish_def)

lemma psql_inv_connect_str:
  assumes "psql_inv s"
  shows "psql_inv (snd (psql_connect_str lp str s))"
proof (cases "pc_conn s = 0")
  case False
  then show ?thesis using psql_inv_keeps [OF assms keeps_log(1)] by (simp add: psql_connect_str_def)
next
  case True
  define n s1 where "n = lp_connectdb lp (pc_history s) str"
    and "s1 = s\<lparr>pc_history := pc_history s @ [(Pq_connectdb str, n \<noteq> 0, n)]\<rparr>"
  have o: "pq_open lp str s = (n, s1)" by (simp add: pq_open_def n_def s1_def Let_def)
  have "psql_inv (s1\<lparr>pc_conn := n, pc_conn_str := str\<rparr>)" if "n \<noteq> 0"
    using assms True that by (auto simp: psql_inv_def s1_def live_def)
  then have "n \<noteq> 0 \<Longrightarrow> psql_inv (snd (begin_transaction lp (s1\<lparr>pc_conn := n, pc_conn_str := str\<rparr>)))"
    using psql_inv_keeps begin_keeps by blast
  then show ?thesis using assms True
    by (auto simp: psql_connect_str_def o Let_def) (auto simp: psql_inv_def s1_def live_def)
qed

lemma psql_inv_base: "psql_inv (s\<lparr>pc_base := b\<rparr>) = psql_inv s"
  by (simp add: psql_inv_def)

lemma psql_inv_connect: "psql_inv s \<Longrightarrow> psql_inv (snd (psql_connect lp host port db user pw s))"
  using psql_inv_connect_str by (auto simp: psql_connect_def split_beta Let_def psql_inv_base)

lemma disconnect_eq:
  assumes "pc_conn s \<noteq> 0"
  obtains s2 where "keeps (if pc_listen_conn s \<noteq> 0
       then (pq_finish (pc_listen_conn s) (s\<lparr>pc_stop_listen := True, pc_listener := L_none\<rparr>))\<lparr>pc_listen_conn := 0\<rparr>
       else s\<lparr>pc_stop_listen := True, pc_listener := L_none\<rparr>) s2"
    and "snd (psql_disconnect lp s) = (pq_finish (pc_conn s) s2)\<lparr>pc_conn := 0\<rparr>"
proof -
  let ?s = "if pc_listen_conn s \<noteq> 0
       then (pq_finish (pc_listen_conn s) (s\<lparr>pc_stop_listen := True, pc_listener := L_none\<rparr>))\<lparr>pc_listen_conn := 0\<rparr>
       else s\<lparr>pc_stop_listen := True, pc_listener := L_none\<rparr>"
  have k: "keeps ?s (snd (psql_rollback lp ?s))" by (rule transaction_keeps)
  then have "pc_conn (snd (psql_rollback lp ?s)) = pc_conn s" by (simp add: keeps_frame)
  then show thesis using assms by (intro that [OF k]) (simp add: psql_disconnect_def Let_def split: if_splits)
qed

lemma psql_inv_disconnect: "psql_inv s \<Longrightarrow> psql_inv (snd (psql_disconnect lp s))"
proof (cases "pc_conn s = 0")
  case False
  assume inv: "psql_inv s"
  obtain s2 where k: "keeps (if pc_listen_conn s \<noteq> 0
       then (pq_finish (pc_listen_conn s) (s\<lparr>pc_stop_listen := True, pc_listener := L_none\<rparr>))\<lparr>pc_listen_conn := 0\<rparr>
       else s\<lparr>pc_stop_listen := True, pc_listener := L_none\<rparr>) s2"
    and d: "snd (psql_disconnect lp s) = (pq_finish (pc_conn s) s2)\<lparr>pc_conn := 0\<rparr>"
    by (rule disconnect_eq [OF False])
  have "psql_inv (if pc_listen_conn s \<noteq> 0
       then (pq_finish (pc_listen_conn s) (s\<lparr>pc_stop_listen := True, pc_listener := L_none\<rparr>))\<lparr>pc_listen_conn := 0\<rparr>
       else s\<lparr>pc_stop_listen := True, pc_listener := L_none\<rparr>)"
    using inv by (auto simp: psql_inv_def live_def)
  with k have "psql_inv s2" by (blast intro: psql_inv_keeps)
  moreover have "pc_conn s2 = pc_conn s" "pc_listen_conn s2 = 0" using keeps_frame [OF k] by (auto split: if_splits)
  ultimately show ?thesis using False by (auto simp: d psql_inv_def live_def)
qed (simp add: psql_disconnect_def)

lemma psql_inv_listen:
  assumes "psql_inv s" "pc_conn s \<noteq> 0"
  shows "psql_inv (snd (start_listen_worker lp s))"
proof -
  define n s1 where "n = lp_connectdb lp (pc_history s) (pc_conn_str s)"
    and "s1 = s\<lparr>pc_history := pc_history s @ [(Pq_connectdb (pc_conn_str s), n \<noteq> 0, n)]\<rparr>"
  have o: "pq_open lp (pc_conn_str s) s = (n, s1)" by (simp add: pq_open_def n_def s1_def Let_def)
  show ?thesis using assms
    by (auto simp: start_listen_worker_def o Let_def s1_def psql_inv_def live_def split: option.splits)
qed

lemma dispatch_all_keeps: "keeps s (fst (dispatch_all ns s))"
proof (induction ns arbitrary: s)
  case (Cons n ns)
  have "keeps s (fst (dispatch n s))" by (cases n) (auto simp: dispatch_def split: option.splits)
  with Cons [of "fst (dispatch n s)"] show ?case by (auto simp: split_beta Let_def intro: keeps_trans)
qed simp

text \<open>The turn of the listening thread: what it may change besides the log.\<close>

lemma pending_listen_keeps:
  obtains s1 r where "keeps s s1"
    and "run_pending_listen lp s = s1\<lparr>pc_pending := None, pc_pending_done := pc_pending_done s \<or> pc_pending s \<noteq> None,
       pc_pending_result := r\<rparr>"
proof (cases "pc_pending s")
  case None
  then show ?thesis by (intro that [of s "pc_pending_result s"]) (cases s; simp add: run_pending_listen_def)+
next
  case (Some ch)
  obtain r s1 where i: "pq_issue lp (Pq_exec (pc_listen_conn s) (''LISTEN '' @ ch)) s = (r, s1)" by force
  have k: "keeps s s1" by (rule keeps_issue [OF i]) (simp add: no_open_close_def)
  let ?s1 = "if \<not> guard_ok r then pg_error (''on_change: LISTEN '' @ ch @ '' failed: '' @ guard_error r) s1 else s1"
  have "run_pending_listen lp s = ?s1\<lparr>pc_pending := None, pc_pending_done := True,
      pc_pending_result := if guard_ok r then sts_success else sts_connection_error\<rparr>"
    unfolding run_pending_listen_def Some option.case i Let_def prod.case by (rule refl)
  moreover have "keeps s ?s1" using k by (auto intro: keeps_trans)
  ultimately show ?thesis using Some by (intro that [of ?s1]) simp_all
qed

lemma psql_inv_pending: "psql_inv (s\<lparr>pc_pending := p, pc_pending_done := d, pc_pending_result := r\<rparr>) = psql_inv s"
  by (simp add: psql_inv_def)

lemma psql_inv_turn:
  assumes "psql_inv s" "pc_listener s = L_running"
  shows "psql_inv (fst (listen_turn lp ev s))"
proof (cases "pc_stop_listen s")
  case True
  then show ?thesis using assms by (auto simp: listen_turn_def psql_inv_def)
next
  case False
  obtain s1 res where k: "keeps s s1"
    and r: "run_pending_listen lp s = s1\<lparr>pc_pending := None, pc_pending_done := pc_pending_done s \<or> pc_pending s \<noteq> None,
       pc_pending_result := res\<rparr>" by (rule pending_listen_keeps)
  have inv: "psql_inv (run_pending_listen lp s)" using psql_inv_keeps [OF assms(1) k] by (subst r) (simp add: psql_inv_pending)
  have "pc_listener (run_pending_listen lp s) = L_running" using keeps_frame(4) [OF k] assms(2) by (subst r) simp
  then have "psql_inv ((pg_error m (run_pending_listen lp s))\<lparr>pc_listener := L_ended\<rparr>)" for m
    using inv by (auto simp: psql_inv_def)
  then show ?thesis using False inv psql_inv_keeps [OF inv dispatch_all_keeps]
    by (auto simp: listen_turn_def Let_def split: poll_event.splits)
qed

lemma exec_success_connected: "fst (exec_command lp q s) = sts_success \<Longrightarrow> pc_conn s \<noteq> 0"
  by (auto simp: exec_command_def psql_is_connected_def split: if_splits)

lemma or_rollback_connected: "fst (or_rollback lp q cont s) = sts_success \<Longrightarrow> pc_conn s \<noteq> 0"
  by (rule exec_success_connected [of lp q]) (auto simp: or_rollback_def split_beta Let_def split: if_splits)

lemma trigger_connected: "fst (create_change_trigger lp t s) = sts_success \<Longrightarrow> pc_conn s \<noteq> 0"
  unfolding create_change_trigger_def Let_def by (rule or_rollback_connected)

lemma psql_inv_ask:
  assumes "psql_inv s" "on_change_ask lp t s = (r, s')"
  shows "psql_inv s'"
proof -
  let ?s1 = "snd (create_change_trigger lp t s)"
  have inv: "psql_inv ?s1" using assms(1) trigger_keeps psql_inv_keeps by blast
  show ?thesis
  proof (cases "fst (create_change_trigger lp t s) = sts_success")
    case True
    then have "pc_conn ?s1 \<noteq> 0" using trigger_connected keeps_frame(1) [OF trigger_keeps] by metis
    with inv have "psql_inv (snd (start_listen_worker lp ?s1))" by (rule psql_inv_listen)
    then show ?thesis using assms(2) True inv
      by (auto simp: on_change_ask_def split_beta Let_def psql_inv_def split: if_splits)
  next
    case False
    then show ?thesis using assms(2) inv by (auto simp: on_change_ask_def split_beta Let_def)
  qed
qed

lemma psql_inv_step: "psql_step lp c c' \<Longrightarrow> psql_inv (fst c) \<Longrightarrow> psql_inv (fst c')"
proof (induction rule: psql_step.induct)
  case (answered s ch h)
  then show ?case by (auto simp: on_change_answer_def psql_inv_def)
qed (auto simp: psql_exec_def psql_inv_connect psql_inv_connect_str psql_inv_disconnect psql_inv_turn
      intro: psql_inv_ask psql_inv_keeps exec_command_keeps transaction_keeps refresh_keeps describe_keeps)

lemma psql_inv_initial: "psql_inv initial_db_psql"
  by (simp add: psql_inv_def initial_db_psql_def live_def)

lemma psql_inv_run: "(psql_step lp)\<^sup>*\<^sup>* c c' \<Longrightarrow> psql_inv (fst c) \<Longrightarrow> psql_inv (fst c')"
  by (induction rule: rtranclp_induct) (auto intro: psql_inv_step)

text \<open>C12: whatever is done with a connection of the PostgreSQL backend, by its caller and by its
  listening thread, in whatever order and with whatever answers of the library, every libpq
  connection that was opened is closed exactly once when the object is destroyed, its own and the
  one it listens on, and the destructor finds nothing to complain about.\<close>

theorem psql_no_connection_leak:
  assumes "(psql_step lp)\<^sup>*\<^sup>* (initial_db_psql, None) (s, w)"
  shows "let (s', complaints) = psql_destroy lp s in
     mset (pq_opened (pc_history s')) = mset (pq_closed (pc_history s')) \<and> pc_conn s' = 0 \<and> pc_listen_conn s' = 0
     \<and> pc_listener s' = L_none \<and> complaints = []"
proof -
  have "psql_inv s" using psql_inv_run [OF assms] psql_inv_initial by simp
  then have inv: "psql_inv (snd (psql_disconnect lp s))" by (rule psql_inv_disconnect)
  have "pc_conn (snd (psql_disconnect lp s)) = 0" by (cases "pc_conn s = 0") (auto simp: psql_disconnect_def Let_def)
  with inv show ?thesis by (auto simp: psql_destroy_def Let_def psql_inv_def live_def)
qed

subsection \<open>The transaction\<close>

text \<open>Whether a connection is inside a transaction, by the transaction commands that succeeded on it.\<close>

definition tx_effect :: "nat \<Rightarrow> pq_call \<times> bool \<times> nat \<Rightarrow> bool \<Rightarrow> bool" where
  "tx_effect c = (\<lambda>(call, ok, n) b.
     (case call of Pq_exec c' q \<Rightarrow> if c' = c \<and> ok \<and> transaction_command q then q = ''BEGIN'' else b | _ \<Rightarrow> b))"

definition tx_open :: "nat \<Rightarrow> pq_history \<Rightarrow> bool" where
  "tx_open c h = fold (tx_effect c) h False"

lemma tx_open_append [simp]: "tx_open c (h @ g) = fold (tx_effect c) g (tx_open c h)"
  by (simp add: tx_open_def)

lemma fold_tx_effect_idle:
  "list_all (\<lambda>(call, ok, n). case call of Pq_exec c' q \<Rightarrow> \<not> transaction_command q | _ \<Rightarrow> True) h \<Longrightarrow> fold (tx_effect c) h b = b"
proof (induction h arbitrary: b)
  case (Cons x h)
  obtain c' ok n where x: "x = (c', ok, n)" by (metis prod_cases3)
  have "tx_effect c x b = b" using Cons.prems by (cases c') (simp_all add: x tx_effect_def)
  then show ?case using Cons by simp
qed simp

lemma exec_command_conn [simp]: "pc_conn (snd (exec_command lp q s)) = pc_conn s"
  by (rule keeps_frame(1) [OF exec_command_keeps])

text \<open>A library whose connections stay up and on which \<open>BEGIN\<close> succeeds.\<close>

definition stays_up :: "libpq \<Rightarrow> bool" where
  "stays_up lp \<longleftrightarrow> (\<forall>h c. lp_connected lp h c \<and> guard_ok (lp_result lp h (Pq_exec c ''BEGIN'')))"

lemma exec_command_up:
  assumes "stays_up lp" "pc_conn s \<noteq> 0"
  shows "\<exists>ok. pc_history (snd (exec_command lp q s)) = pc_history s @ [(Pq_exec (pc_conn s) q, ok, 0)]
     \<and> (fst (exec_command lp q s) = sts_success \<longleftrightarrow> ok) \<and> (q = ''BEGIN'' \<longrightarrow> ok)"
  using assms by (auto simp: exec_command_def psql_is_connected_def stays_up_def pq_issue_def Let_def)

definition in_transaction :: "'h db_psql \<Rightarrow> bool" where
  "in_transaction s \<longleftrightarrow> (pc_conn s \<noteq> 0 \<longrightarrow> tx_open (pc_conn s) (pc_history s))"

lemma exec_plain:
  assumes "stays_up lp" "\<not> transaction_command q"
  shows "tx_open c (pc_history (snd (exec_command lp q s))) = tx_open c (pc_history s)"
proof (cases "pc_conn s = 0")
  case True
  then show ?thesis by (simp add: exec_command_def psql_is_connected_def)
next
  case False
  from exec_command_up [OF assms(1) False, of q] show ?thesis using assms(2) by (auto simp: tx_effect_def)
qed

lemma begin_opens:
  assumes "stays_up lp" "pc_conn s \<noteq> 0"
  shows "tx_open (pc_conn s) (pc_history (snd (exec_command lp ''BEGIN'' s)))"
  using exec_command_up [OF assms, of "''BEGIN''"] by (auto simp: tx_effect_def transaction_command_def)

lemma exec_refused:
  assumes "stays_up lp" "fst (exec_command lp q s) \<noteq> sts_success"
  shows "tx_open c (pc_history (snd (exec_command lp q s))) = tx_open c (pc_history s)"
proof (cases "pc_conn s = 0")
  case True
  then show ?thesis by (simp add: exec_command_def psql_is_connected_def)
next
  case False
  from exec_command_up [OF assms(1) False, of q] show ?thesis using assms(2) by (auto simp: tx_effect_def)
qed

lemma in_transaction_end:
  assumes "stays_up lp" "in_transaction s"
  shows "in_transaction (snd (psql_commit lp s))" "in_transaction (snd (psql_rollback lp s))"
proof -
  have e: "in_transaction (snd (if fst (exec_command lp q s) \<noteq> sts_success then exec_command lp q s
       else begin_transaction lp (snd (exec_command lp q s))))" for q
  proof (cases "fst (exec_command lp q s) = sts_success")
    case True
    let ?s = "snd (exec_command lp q s)"
    show ?thesis using True begin_opens [OF assms(1), of ?s] by (simp add: in_transaction_def begin_transaction_def)
  next
    case False
    then show ?thesis using exec_refused [OF assms(1) False] assms(2) by (simp add: in_transaction_def)
  qed
  show "in_transaction (snd (psql_commit lp s))" using e [of "''COMMIT''"] by (simp add: psql_commit_def split_beta Let_def split: if_splits)
  show "in_transaction (snd (psql_rollback lp s))" using e [of "''ROLLBACK''"] by (simp add: psql_rollback_def split_beta Let_def split: if_splits)
qed

lemma in_transaction_rollback_cont:
  assumes "stays_up lp" "in_transaction s" "\<not> transaction_command q"
    and "\<And>s. in_transaction s \<Longrightarrow> in_transaction (snd (cont s))"
  shows "in_transaction (snd (or_rollback lp q cont s))"
proof -
  have "in_transaction (snd (exec_command lp q s))"
    using assms(2) exec_plain [OF assms(1,3), of _ s] by (simp add: in_transaction_def)
  then show ?thesis by (simp add: or_rollback_def split_beta Let_def assms(4) in_transaction_end [OF assms(1)])
qed

lemma in_transaction_trigger:
  assumes "stays_up lp" "in_transaction s"
  shows "in_transaction (snd (create_change_trigger lp t s))"
  unfolding create_change_trigger_def Let_def
  by (intro in_transaction_rollback_cont in_transaction_end assms) (simp_all add: transaction_command_def)

lemma in_transaction_refresh:
  assumes "stays_up lp" "in_transaction s"
  shows "in_transaction (snd (psql_refresh_statistics lp t s))"
proof (cases "fst (exec_command lp ''COMMIT'' s) = sts_success")
  case True
  let ?s2 = "snd (exec_command lp (''VACUUM ANALYZE '' @ t) (snd (exec_command lp ''COMMIT'' s)))"
  have "tx_open (pc_conn ?s2) (pc_history (snd (exec_command lp ''BEGIN'' ?s2)))" if "pc_conn ?s2 \<noteq> 0"
    using begin_opens [OF assms(1) that] .
  then show ?thesis using True by (auto simp: psql_refresh_statistics_def split_beta Let_def in_transaction_def)
next
  case False
  then show ?thesis using exec_refused [OF assms(1) False] assms(2)
    by (simp add: psql_refresh_statistics_def split_beta Let_def in_transaction_def)
qed

text \<open>Changes of the history that have nothing to do with transactions.\<close>

definition tx_idle :: "'h db_psql \<Rightarrow> 'h db_psql \<Rightarrow> bool" where
  "tx_idle s s' \<longleftrightarrow> pc_conn s' = pc_conn s \<and> tx_open (pc_conn s) (pc_history s') = tx_open (pc_conn s) (pc_history s)"

lemma tx_idle_in: "tx_idle s s' \<Longrightarrow> in_transaction s \<Longrightarrow> in_transaction s'"
  by (simp add: tx_idle_def in_transaction_def)

lemma tx_idle_trans: "tx_idle s s' \<Longrightarrow> tx_idle s' s'' \<Longrightarrow> tx_idle s s''"
  by (simp add: tx_idle_def)

lemma tx_idle_log [simp]: "tx_idle s (pg_error m s)" "tx_idle s (pg_warning m s)" "tx_idle s (pg_critical m s)" "tx_idle s s"
  by (simp_all add: tx_idle_def)

lemma tx_idle_issue:
  "\<not> transaction_command q \<Longrightarrow> tx_idle s (snd (pq_issue lp (Pq_exec c q) s))"
  "tx_idle s (snd (pq_issue lp (Pq_prepare c n q') s))" "tx_idle s (snd (pq_issue lp (Pq_describe c n) s))"
  by (simp_all add: tx_idle_def pq_issue_def Let_def tx_effect_def)

lemma tx_idle_lists: "tx_idle s (snd (psql_params i oids md s))" "tx_idle s (snd (psql_cols i fs md s))"
proof -
  show "tx_idle s (snd (psql_params i oids md s))"
    by (induction oids arbitrary: i md s) (auto simp: Let_def intro: tx_idle_trans [OF tx_idle_log(2)])
  show "tx_idle s (snd (psql_cols i fs md s))"
    by (induction fs arbitrary: i md s) (auto simp: Let_def intro: tx_idle_trans [OF tx_idle_log(2)])
qed

lemma tx_idle_dispatch: "tx_idle s (fst (dispatch_all ns s))"
proof (induction ns arbitrary: s)
  case (Cons n ns)
  have "tx_idle s (fst (dispatch n s))" by (cases n) (auto simp: dispatch_def split: option.splits)
  with Cons [of "fst (dispatch n s)"] show ?case by (auto simp: split_beta Let_def intro: tx_idle_trans)
qed simp

lemma tx_idle_describe: "tx_idle s (snd (psql_get_sql_metadata lp q s))"
  by (rule describe_closed) (auto intro: tx_idle_issue tx_idle_lists tx_idle_trans simp: transaction_command_def)

lemma tx_idle_listen: "tx_idle s (snd (start_listen_worker lp s))"
  by (auto simp: start_listen_worker_def pq_open_def Let_def tx_idle_def tx_effect_def split: option.splits)

lemma tx_idle_pending: "tx_idle s (run_pending_listen lp s)"
proof (cases "pc_pending s")
  case (Some ch)
  obtain r s1 where i: "pq_issue lp (Pq_exec (pc_listen_conn s) (''LISTEN '' @ ch)) s = (r, s1)" by force
  have "\<not> transaction_command (''LISTEN '' @ ch)" by (simp add: transaction_command_def)
  from tx_idle_issue(1) [OF this, of s lp "pc_listen_conn s"] have "tx_idle s s1" by (simp only: i snd_conv)
  then show ?thesis
    unfolding run_pending_listen_def Some option.case i Let_def prod.case by (simp add: tx_idle_def)
qed (simp add: run_pending_listen_def)

lemma tx_idle_turn: "tx_idle s (fst (listen_turn lp ev s))"
  using tx_idle_pending [of s lp] tx_idle_trans [OF tx_idle_pending tx_idle_dispatch]
  by (auto simp: listen_turn_def Let_def tx_idle_def split: poll_event.splits)

lemma in_transaction_connect_str:
  assumes "stays_up lp" "in_transaction s"
  shows "in_transaction (snd (psql_connect_str lp str s))"
proof (cases "pc_conn s = 0")
  case True
  obtain n s1 where o: "pq_open lp str s = (n, s1)" by force
  have "in_transaction (snd (exec_command lp ''BEGIN'' (s1\<lparr>pc_conn := n, pc_conn_str := str\<rparr>)))"
    using begin_opens [OF assms(1), of "s1\<lparr>pc_conn := n, pc_conn_str := str\<rparr>"] by (simp add: in_transaction_def)
  moreover have "pc_conn s1 = 0" using o True by (auto simp: pq_open_def Let_def)
  ultimately show ?thesis using True
    by (auto simp: psql_connect_str_def o Let_def begin_transaction_def) (auto simp: in_transaction_def)
qed (use tx_idle_in [OF tx_idle_log(1) assms(2)] in \<open>simp add: psql_connect_str_def\<close>)

lemma in_transaction_step:
  assumes "stays_up lp" "psql_step lp c c'" "in_transaction (fst c)"
  shows "in_transaction (fst c')"
  using assms(2,3)
proof (induction rule: psql_step.induct)
  case (do_connect s host port db user pw)
  then show ?case using in_transaction_connect_str [OF assms(1)]
    by (auto simp: psql_connect_def split_beta Let_def in_transaction_def)
next
  case (do_disconnect s)
  then show ?case by (auto simp: psql_disconnect_def Let_def in_transaction_def)
next
  case (do_exec q s)
  then show ?case by (simp add: psql_exec_def in_transaction_def exec_plain [OF assms(1) do_exec(1)])
next
  case (ask t s ch s' h)
  then have "in_transaction (snd (start_listen_worker lp (snd (create_change_trigger lp t s))))"
    by (simp add: in_transaction_trigger [OF assms(1)] tx_idle_in [OF tx_idle_listen])
  then show ?case using ask(1) by (auto simp: on_change_ask_def split_beta Let_def in_transaction_def split: if_splits)
next
  case (ask_failed t s e s')
  then have "in_transaction (snd (create_change_trigger lp t s))"
    "in_transaction (snd (start_listen_worker lp (snd (create_change_trigger lp t s))))"
    by (simp_all add: in_transaction_trigger [OF assms(1)] tx_idle_in [OF tx_idle_listen])
  then show ?case using ask_failed(1) by (auto simp: on_change_ask_def split_beta Let_def split: if_splits)
next
  case (answered s ch h)
  then show ?case by (auto simp: on_change_answer_def in_transaction_def)
next
  case (listens s w ev)
  then show ?case by (simp add: tx_idle_in [OF tx_idle_turn])
qed (use assms(1) in \<open>auto simp: in_transaction_end in_transaction_refresh in_transaction_connect_str
       intro: tx_idle_in [OF tx_idle_describe]\<close>)


subsection \<open>Being told of changes\<close>

lemma dispatch_all_calls:
  "snd (dispatch_all ns s) = concat (map (\<lambda>(ch, op). case (pc_handlers s ch, change_op_of op) of
     (Some h, Some c) \<Rightarrow> [(h, c)] | _ \<Rightarrow> []) ns)"
proof (induction ns arbitrary: s)
  case (Cons n ns)
  have "keeps s (fst (dispatch n s))" by (cases n) (auto simp: dispatch_def split: option.splits)
  then have "pc_handlers (fst (dispatch n s)) = pc_handlers s" by (rule keeps_frame)
  moreover have "snd (dispatch n s) = (\<lambda>(ch, op). case (pc_handlers s ch, change_op_of op) of
     (Some h, Some c) \<Rightarrow> [(h, c)] | _ \<Rightarrow> []) n"
    by (cases n) (simp add: dispatch_def split: option.splits)
  ultimately show ?case using Cons [of "fst (dispatch n s)"] by (simp add: split_beta Let_def)
qed simp

lemma turn_handlers: "pc_handlers (run_pending_listen lp s) = pc_handlers s"
proof -
  obtain s1 r where k: "keeps s s1" and "run_pending_listen lp s = s1\<lparr>pc_pending := None,
      pc_pending_done := pc_pending_done s \<or> pc_pending s \<noteq> None, pc_pending_result := r\<rparr>" by (rule pending_listen_keeps)
  then show ?thesis using keeps_frame(9) [OF k] by simp
qed

text \<open>the handlers a turn of the listening thread runs: one for each notification that names a channel
  with a handler and one of the three operations, in the order the notifications arrived, with
  that operation; nothing when the thread was told to stop or got nothing.\<close>

theorem notifications_dispatched:
  "snd (listen_turn lp ev s) =
     (case ev of
        Poll_ready ns \<Rightarrow> if pc_stop_listen s then []
          else concat (map (\<lambda>(ch, op). case (pc_handlers s ch, change_op_of op) of
                 (Some h, Some c) \<Rightarrow> [(h, c)] | _ \<Rightarrow> []) ns)
      | _ \<Rightarrow> [])"
  by (simp add: listen_turn_def Let_def dispatch_all_calls turn_handlers split: poll_event.splits)

lemma turn_serves:
  assumes "pc_pending s = Some ch" "\<not> pc_stop_listen s"
  shows "pc_pending_done (fst (listen_turn lp ev s)) \<and> pc_pending (fst (listen_turn lp ev s)) = None
    \<and> pc_pending_result (fst (listen_turn lp ev s)) =
        (if guard_ok (lp_result lp (pc_history s) (Pq_exec (pc_listen_conn s) (''LISTEN '' @ ch))) then sts_success else sts_connection_error)"
proof -
  let ?r = "run_pending_listen lp s"
  have r: "pc_pending_done ?r \<and> pc_pending ?r = None \<and> pc_pending_result ?r =
      (if guard_ok (lp_result lp (pc_history s) (Pq_exec (pc_listen_conn s) (''LISTEN '' @ ch))) then sts_success else sts_connection_error)"
    unfolding run_pending_listen_def assms(1) option.case pq_issue_def Let_def prod.case by simp
  have "keeps ?r (fst (dispatch_all ns ?r))" for ns by (rule dispatch_all_keeps)
  then have d: "pc_pending_done (fst (dispatch_all ns ?r)) = pc_pending_done ?r" "pc_pending (fst (dispatch_all ns ?r)) = pc_pending ?r"
    "pc_pending_result (fst (dispatch_all ns ?r)) = pc_pending_result ?r" for ns by (simp_all add: keeps_frame)
  show ?thesis unfolding listen_turn_def Let_def if_not_P [OF assms(2)] using r
    by (cases ev) (simp_all add: d)
qed

text \<open>C32: a call of \<open>on_change\<close> that waits while the listening thread runs and was not told to stop is
  served by the thread's next turn, whatever that turn brings: the call can then return, and it
  returns success, with the handler registered for its channel, exactly when the server accepted
  the \<open>LISTEN\<close>.\<close>

theorem on_change_served:
  assumes "on_change_ask lp t s0 = (Inr ch, s)" "\<not> pc_stop_listen s"
  shows "let s1 = fst (listen_turn lp ev s); (sts, s2) = on_change_answer ch h s1;
             accepted = guard_ok (lp_result lp (pc_history s) (Pq_exec (pc_listen_conn s) (''LISTEN '' @ ch)))
         in psql_step lp (s1, Some (ch, h)) (s2, None) \<and> (sts = sts_success \<longleftrightarrow> accepted)
          \<and> (accepted \<longrightarrow> pc_handlers s2 ch = Some h) \<and> (\<not> accepted \<longrightarrow> s2 = s1)"
proof -
  have p: "pc_pending s = Some ch" using assms(1) by (auto simp: on_change_ask_def split_beta Let_def split: if_splits)
  note t = turn_serves [OF p assms(2), of lp ev]
  obtain sts s2 where a: "on_change_answer ch h (fst (listen_turn lp ev s)) = (sts, s2)" by force
  have "psql_step lp (fst (listen_turn lp ev s), Some (ch, h)) (s2, None)"
    using psql_step.answered [of "fst (listen_turn lp ev s)" lp ch h] t a by simp
  then show ?thesis using t a by (auto simp: on_change_answer_def Let_def split: if_splits)
qed

text \<open>The listening thread is gone, or about to go, and a call waits for it.\<close>

definition deaf :: "'h psql_config \<Rightarrow> bool" where
  "deaf c \<longleftrightarrow> (\<exists>w. snd c = Some w) \<and> \<not> pc_pending_done (fst c) \<and> (pc_listener (fst c) = L_ended \<or> pc_stop_listen (fst c))"

lemma deaf_step:
  assumes "psql_step lp c c'" "deaf c"
  shows "deaf c'"
proof -
  obtain s w where c: "c = (s, Some w)" using assms(2) by (cases c) (auto simp: deaf_def)
  show ?thesis using assms unfolding c by (auto simp: deaf_def listen_turn_def elim!: psql_step_waiting)
qed

lemma deaf_run: "(psql_step lp)\<^sup>*\<^sup>* c c' \<Longrightarrow> deaf c \<Longrightarrow> deaf c'"
  by (induction rule: rtranclp_induct) (auto intro: deaf_step)

text \<open>C33: once the listening thread has returned, or the connection has been disconnected once (which sets a
  flag that nothing resets), a call of \<open>on_change\<close> that reaches the wait never returns, whatever
  happens: nobody is left to serve it, although the thread still counts as started.\<close>

theorem on_change_hangs:
  assumes "on_change_ask lp t s0 = (Inr ch, s)" "pc_listener s = L_ended \<or> pc_stop_listen s"
    and "(psql_step lp)\<^sup>*\<^sup>* (s, Some (ch, h)) (s', w)"
  shows "w \<noteq> None"
proof -
  have "\<not> pc_pending_done s" using assms(1) by (auto simp: on_change_ask_def split_beta Let_def split: if_splits)
  then have "deaf (s, Some (ch, h))" using assms(2) by (simp add: deaf_def)
  from deaf_run [OF assms(3) this] show ?thesis by (auto simp: deaf_def)
qed

subsection \<open>Metadata\<close>

lemma psql_params_eq:
  "fst (psql_params i oids md s) = md\<lparr>qm_params := qm_params md @ map (\<lambda>(j, oid). psql_param j oid) (enumerate i oids)\<rparr>"
  by (induction oids arbitrary: i md s) (simp_all add: Let_def add_par_dscr_def)

lemma psql_cols_eq:
  "fst (psql_cols i fs md s) = md\<lparr>qm_columns := qm_columns md @ map (\<lambda>(j, f). psql_col j f) (enumerate i fs)\<rparr>"
  by (induction fs arbitrary: i md s) (simp_all add: Let_def add_col_dscr_def)

lemma metadata_of:
  assumes "fst (psql_get_sql_metadata lp q s) = Inr md"
  shows "\<exists>h. qm_params md = map (\<lambda>(j, oid). psql_param j oid) (enumerate 0 (lp_params lp h))
     \<and> qm_columns md = map (\<lambda>(j, f). psql_col j f) (enumerate 0 (lp_fields lp h))"
  using assms by (auto simp: psql_get_sql_metadata_def Let_def split_beta psql_params_eq psql_cols_eq split: if_splits)

text \<open>a statement that was described has one description for every parameter and every column the
  server reports, in order, numbered from one (as long as there are fewer than 32768), with the
  type the object identifier stands for; parameters are named by their number and take their
  width from the type alone, columns keep their name in lower case.\<close>

theorem psql_metadata_numbered:
  assumes "fst (psql_get_sql_metadata lp q s) = Inr md"
  shows "\<exists>h. length (qm_params md) = length (lp_params lp h) \<and> length (qm_columns md) = length (lp_fields lp h)
     \<and> (length (lp_params lp h) < 2 ^ 15 \<longrightarrow> map (sint \<circ> md_index) (qm_params md) = map int [1..<Suc (length (lp_params lp h))])
     \<and> (length (lp_fields lp h) < 2 ^ 15 \<longrightarrow> map (sint \<circ> md_index) (qm_columns md) = map int [1..<Suc (length (lp_fields lp h))])
     \<and> map md_type (qm_params md) = map from_oid (lp_params lp h) \<and> map md_type (qm_columns md) = map (\<lambda>(n, oid, m, w). from_oid oid) (lp_fields lp h)
     \<and> distinct (map md_name (qm_params md)) \<and> map md_name (qm_columns md) = map (lowercase \<circ> fst) (lp_fields lp h)"
proof -
  obtain h where p: "qm_params md = map (\<lambda>(j, oid). psql_param j oid) (enumerate 0 (lp_params lp h))"
    and c: "qm_columns md = map (\<lambda>(j, f). psql_col j f) (enumerate 0 (lp_fields lp h))" using metadata_of [OF assms] by blast
  have idx: "sint (of_nat (Suc j) :: i16) = int (Suc j)" if "j < n" "n < 2 ^ 15" for j n
    using that by (simp add: signed_of_nat signed_take_bit_int_eq_self del: of_nat_Suc)
  have "map (sint \<circ> md_index) (qm_params md) = map int [1..<Suc (length (lp_params lp h))]" if "length (lp_params lp h) < 2 ^ 15"
    by (rule nth_equalityI) (use that idx in \<open>auto simp: p psql_param_def nth_enumerate_eq split_beta simp del: upt_Suc\<close>)
  moreover have "map (sint \<circ> md_index) (qm_columns md) = map int [1..<Suc (length (lp_fields lp h))]" if "length (lp_fields lp h) < 2 ^ 15"
    by (rule nth_equalityI) (use that idx in \<open>auto simp: c psql_col_def nth_enumerate_eq split_beta simp del: upt_Suc\<close>)
  moreover have "map md_type (qm_params md) = map from_oid (lp_params lp h)"
    by (rule nth_equalityI) (auto simp: p psql_param_def nth_enumerate_eq split_beta)
  moreover have "map md_type (qm_columns md) = map (\<lambda>(n, oid, m, w). from_oid oid) (lp_fields lp h)"
    by (rule nth_equalityI) (auto simp: c psql_col_def nth_enumerate_eq split_beta)
  moreover have "distinct (map md_name (qm_params md))"
    by (auto simp: p psql_param_def split_beta distinct_conv_nth nth_enumerate_eq dec_inj)
  moreover have "map md_name (qm_columns md) = map (lowercase \<circ> fst) (lp_fields lp h)"
    by (rule nth_equalityI) (auto simp: c psql_col_def nth_enumerate_eq split_beta)
  moreover have "length (qm_params md) = length (lp_params lp h)" "length (qm_columns md) = length (lp_fields lp h)"
    by (simp_all add: p c)
  ultimately show ?thesis by blast
qed

subsection \<open>Witnesses\<close>

definition libpq0 :: libpq where
  "libpq0 = \<lparr>lp_connectdb = (\<lambda>h str. Suc (length h)), lp_connected = (\<lambda>h c. True), lp_error = (\<lambda>h c. []),
     lp_result = (\<lambda>h c. Some \<lparr>pr_command_ok = True, pr_message = []\<rparr>), lp_params = (\<lambda>h. [23]),
     lp_fields = (\<lambda>h. [(''ID'', 23, - 1, 4)]), lp_thread_error = (\<lambda>h. None)\<rparr>"

definition connected0 :: "nat db_psql" where
  "connected0 = snd (psql_connect_str libpq0 ''dbname=t'' initial_db_psql)"

lemma connected0_reached: "(psql_step libpq0)\<^sup>*\<^sup>* (initial_db_psql, None) (connected0, None)"
  unfolding connected0_def by (rule r_into_rtranclp) (rule psql_step.do_connect_str)

theorem psql_no_connection_leak_witness:
  "let (s', complaints) = psql_destroy libpq0 connected0 in
     mset (pq_opened (pc_history s')) = mset (pq_closed (pc_history s')) \<and> pc_conn s' = 0 \<and> pc_listen_conn s' = 0
     \<and> pc_listener s' = L_none \<and> complaints = []"
  by (rule psql_no_connection_leak [OF connected0_reached])


lemma asked0: "\<exists>s. on_change_ask libpq0 ''t'' connected0 = (Inr (channel_name ''t''), s) \<and> \<not> pc_stop_listen s"
  by (simp add: connected0_def on_change_ask_def create_change_trigger_def or_rollback_def psql_commit_def begin_transaction_def
      exec_command_def psql_is_connected_def start_listen_worker_def psql_connect_str_def initial_db_psql_def pq_open_def
      pq_issue_def guard_ok_def libpq0_def Let_def)

theorem on_change_served_witness:
  "\<exists>s s2. on_change_ask libpq0 ''t'' connected0 = (Inr (channel_name ''t''), s)
     \<and> psql_step libpq0 (fst (listen_turn libpq0 Poll_timeout s), Some (channel_name ''t'', 7)) (s2, None)
     \<and> pc_handlers s2 (channel_name ''t'') = Some 7"
proof -
  obtain s where s: "on_change_ask libpq0 ''t'' connected0 = (Inr (channel_name ''t''), s)" "\<not> pc_stop_listen s" using asked0 by blast
  have "guard_ok (lp_result libpq0 h c)" for h c by (simp add: libpq0_def guard_ok_def)
  then show ?thesis using on_change_served [OF s, of Poll_timeout 7] s(1) by (auto simp: Let_def split: prod.splits)
qed

theorem on_change_hangs_witness:
  "let c = snd (psql_connect_str libpq0 ''dbname=t'' (snd (psql_disconnect libpq0 connected0)));
       s = snd (on_change_ask libpq0 ''t'' c)
   in \<not> (\<exists>s'. (psql_step libpq0)\<^sup>*\<^sup>* (s, Some (channel_name ''t'', 7)) (s', None))"
proof -
  let ?c = "snd (psql_connect_str libpq0 ''dbname=t'' (snd (psql_disconnect libpq0 connected0)))"
  have "\<exists>s. on_change_ask libpq0 ''t'' ?c = (Inr (channel_name ''t''), s) \<and> (pc_listener s = L_ended \<or> pc_stop_listen s)"
    by (simp add: connected0_def psql_disconnect_def psql_rollback_def on_change_ask_def create_change_trigger_def or_rollback_def
        psql_commit_def begin_transaction_def exec_command_def psql_is_connected_def start_listen_worker_def
        psql_connect_str_def initial_db_psql_def pq_open_def pq_finish_def pq_issue_def guard_ok_def libpq0_def Let_def)
  then obtain s where s: "on_change_ask libpq0 ''t'' ?c = (Inr (channel_name ''t''), s)" "pc_listener s = L_ended \<or> pc_stop_listen s"
    by blast
  then show ?thesis using on_change_hangs [OF s] by (auto simp: Let_def)
qed

theorem psql_metadata_numbered_witness:
  "\<exists>md. fst (psql_get_sql_metadata libpq0 ''select 1'' connected0) = Inr md \<and> distinct (map md_name (qm_params md))"
proof -
  have "\<exists>md. fst (psql_get_sql_metadata libpq0 ''select 1'' connected0) = Inr md"
    by (simp add: psql_get_sql_metadata_def connected0_def psql_is_connected_def begin_transaction_def exec_command_def
        psql_connect_str_def initial_db_psql_def pq_open_def pq_issue_def guard_ok_def libpq0_def Let_def split_beta)
  then show ?thesis using psql_metadata_numbered [of libpq0 "''select 1''" connected0] by blast
qed

end
