(* ===== verification/Db2_Conn.thy ===== *)
theory Db2_Conn
  imports Db2_Types Rtl_Core
begin

text \<open>
  The connection of the DB2 backend (\<open>src/rtl/db2/db2_rtl.hpp\<close>, \<open>db2_rtl.cpp\<close>): the three driver
  handles, connecting and disconnecting, transactions, direct execution and the description of a
  statement. The driver is a parameter: every answer is a function of the history of the calls
  and answers so far, so that it may behave in any way. The history is part of the state. The
  messages of the driver are taken to fit the array \<open>chk_error\<close> reads them from, and the counts of
  parameters and columns to stay below the last value of the 16-bit loop counter. Lines logged at
  debug and trace level are left out.
\<close>

subsection \<open>The driver and the state\<close>

datatype conn_call =
    Call_alloc handle_type_enum nat
  | Call_free handle_type_enum nat
  | Call_autocommit_off nat
  | Call_connect nat string
  | Call_disconnect nat
  | Call_commit nat
  | Call_rollback nat
  | Call_prepare nat string
  | Call_num_params nat
  | Call_describe_param nat nat
  | Call_num_cols nat
  | Call_describe_col nat nat
  | Call_exec_direct nat string

text \<open>An entry of the history: the call, its return code, and the handle it made (0 if none).\<close>

type_synonym history = "(conn_call \<times> sqlreturn \<times> nat) list"

record conn_driver =
  drv_ret :: "history \<Rightarrow> conn_call \<Rightarrow> sqlreturn"
  drv_handle :: "history \<Rightarrow> conn_call \<Rightarrow> nat"
  drv_diag :: "history \<Rightarrow> (string \<times> i32) list"
  drv_count :: "history \<Rightarrow> conn_call \<Rightarrow> i16"
  drv_param :: "history \<Rightarrow> nat \<Rightarrow> i16 \<times> u64 \<times> i16 \<times> i16"
  drv_col :: "history \<Rightarrow> nat \<Rightarrow> string \<times> i16 \<times> u64 \<times> i16 \<times> i16"

record db_db2 =
  dc_env :: nat
  dc_conn :: nat
  dc_stmt :: nat
  dc_base :: "unit db_base"
  dc_history :: history

definition issue :: "odbc_consts \<Rightarrow> conn_driver \<Rightarrow> conn_call \<Rightarrow> db_db2 \<Rightarrow> sqlreturn \<times> nat \<times> db_db2" where
  "issue k dv c s =
     (let ret = drv_ret dv (dc_history s) c;
          h = (case c of Call_alloc _ _ \<Rightarrow> if is_odbc_success k ret then drv_handle dv (dc_history s) c else 0 | _ \<Rightarrow> 0)
      in (ret, h, s\<lparr>dc_history := dc_history s @ [(c, ret, h)]\<rparr>))"

definition add_error :: "string \<Rightarrow> db_db2 \<Rightarrow> db_db2" where
  "add_error msg s = s\<lparr>dc_base := (dc_base s)\<lparr>db_log := log_error msg (db_log (dc_base s))\<rparr>\<rparr>"

definition add_warning :: "string \<Rightarrow> db_db2 \<Rightarrow> db_db2" where
  "add_warning msg s = s\<lparr>dc_base := (dc_base s)\<lparr>db_log := log_warn msg (db_log (dc_base s))\<rparr>\<rparr>"

definition add_info :: "string \<Rightarrow> db_db2 \<Rightarrow> db_db2" where
  "add_info msg s = s\<lparr>dc_base := (dc_base s)\<lparr>db_log := log_info msg (db_log (dc_base s))\<rparr>\<rparr>"

text \<open>\<open>chk_error\<close>: one error line per diagnostic record of a failed call.\<close>

definition diag_line :: "string \<Rightarrow> string \<times> i32 \<Rightarrow> string" where
  "diag_line operation d =
     nl @ ''  Error in '' @ operation @ nl @ ''  db error '' @ fst d @ nl
     @ ''  native err '' @ dec_int (sint (snd d)) @ nl"

definition chk_error :: "odbc_consts \<Rightarrow> conn_driver \<Rightarrow> sqlreturn \<Rightarrow> string \<Rightarrow> db_db2 \<Rightarrow> db_db2" where
  "chk_error k dv ret operation s =
     (if is_odbc_success k ret then s
      else fold (\<lambda>d. add_error (diag_line operation d)) (drv_diag dv (dc_history s)) s)"

definition free_handle :: "odbc_consts \<Rightarrow> conn_driver \<Rightarrow> nat \<Rightarrow> handle_type_enum \<Rightarrow> string \<Rightarrow> db_db2 \<Rightarrow> db_db2" where
  "free_handle k dv h h_type err s =
     (if h \<noteq> 0
      then let (ret, _, s1) = issue k dv (Call_free h_type h) s
           in if \<not> is_odbc_success k ret then chk_error k dv ret (err @ dec h) s1 else s1
      else s)"

definition free_stmt_handle :: "odbc_consts \<Rightarrow> conn_driver \<Rightarrow> db_db2 \<Rightarrow> db_db2" where
  "free_stmt_handle k dv s =
     free_handle k dv (dc_stmt s) ht_stmt ''error deallocating statement handle '' (s\<lparr>dc_stmt := 0\<rparr>)"

definition free_conn_handle :: "odbc_consts \<Rightarrow> conn_driver \<Rightarrow> db_db2 \<Rightarrow> db_db2" where
  "free_conn_handle k dv s =
     free_handle k dv (dc_conn s) ht_conn ''error deallocating connection handle '' (s\<lparr>dc_conn := 0\<rparr>)"

definition free_env_handle :: "odbc_consts \<Rightarrow> conn_driver \<Rightarrow> db_db2 \<Rightarrow> db_db2" where
  "free_env_handle k dv s =
     free_handle k dv (dc_env s) ht_env ''error deallocating environment handle '' (s\<lparr>dc_env := 0\<rparr>)"

subsection \<open>Connecting\<close>

definition internal_connect :: "odbc_consts \<Rightarrow> conn_driver \<Rightarrow> string \<Rightarrow> db_db2 \<Rightarrow> db_sts \<times> db_db2" where
  "internal_connect k dv conn_str s =
     (let (ret, _, s1) = issue k dv (Call_connect (dc_conn s) conn_str) s in
      if \<not> is_odbc_success k ret
      then (sts_connection_error,
            free_env_handle k dv (free_conn_handle k dv (chk_error k dv ret ''SQLDriverConnect'' s1)))
      else (sts_success, s1))"

definition internal_allocate_handles :: "odbc_consts \<Rightarrow> conn_driver \<Rightarrow> db_db2 \<Rightarrow> db_sts \<times> db_db2" where
  "internal_allocate_handles k dv s =
     (let (r1, h1, t1) = issue k dv (Call_alloc ht_env 0) s; s1 = t1\<lparr>dc_env := h1\<rparr> in
      if \<not> is_odbc_success k r1 then (sts_env_error, chk_error k dv r1 ''Env allocation failed'' s1)
      else
        let (r2, h2, t2) = issue k dv (Call_alloc ht_conn (dc_env s1)) s1; s2 = t2\<lparr>dc_conn := h2\<rparr> in
        if \<not> is_odbc_success k r2
        then (sts_connection_error, free_env_handle k dv (chk_error k dv r2 ''SQLAllocHandle(DBC)'' s2))
        else
          let (r3, _, s3) = issue k dv (Call_autocommit_off (dc_conn s2)) s2 in
          if \<not> is_odbc_success k r3
          then (sts_config_error, chk_error k dv r3 ''SQLSetConnectAttr(AUTOCOMMIT OFF)'' s3)
          else (sts_success, s3))"

definition db2_connect_str :: "odbc_consts \<Rightarrow> conn_driver \<Rightarrow> string \<Rightarrow> db_db2 \<Rightarrow> db_sts \<times> db_db2" where
  "db2_connect_str k dv conn_str s =
     (let (ret, s1) = internal_allocate_handles k dv s in
      if ret = sts_success then internal_connect k dv conn_str s1 else (ret, s1))"

text \<open>The connection string. It starts with a plain literal, so its braces stay doubled.\<close>

definition db2_conn_str :: "string \<Rightarrow> u16 \<Rightarrow> string \<Rightarrow> string \<Rightarrow> string \<Rightarrow> string" where
  "db2_conn_str host port database_name user pass =
     ''DRIVER={{IBM DB2 ODBC DRIVER}}; '' @ ''PROTOCOL=TCPIP; '' @ ''PATCH2=15; ''
     @ ''CURRENTFUNCTIONPATH=CURRENT PATH; ''
     @ (if host \<noteq> [] then ''HOSTNAME='' @ host @ ''; '' else [])
     @ (if port \<noteq> 0 then ''PORT='' @ dec (unat port) @ ''; '' else [])
     @ (if database_name \<noteq> [] then ''DATABASE='' @ database_name @ ''; '' else [])
     @ (if user \<noteq> [] then ''UID='' @ user @ ''; '' else [])
     @ (if pass \<noteq> [] then ''PWD='' @ pass @ ''; '' else [])"

definition db2_connect ::
  "odbc_consts \<Rightarrow> conn_driver \<Rightarrow> string \<Rightarrow> u16 \<Rightarrow> string \<Rightarrow> string \<Rightarrow> string \<Rightarrow> db_db2 \<Rightarrow> db_sts \<times> db_db2" where
  "db2_connect k dv host port database_name user pass s =
     (let (ret, s1) = internal_allocate_handles k dv s in
      if ret = sts_success
      then let (ret', s2) = internal_connect k dv (db2_conn_str host port database_name user pass) s1
           in (ret', if ret' = sts_success
                     then s2\<lparr>dc_base := set_connection_info host port database_name user (dc_base s2)\<rparr> else s2)
      else (ret, s1))"

definition db2_is_connected :: "db_db2 \<Rightarrow> bool" where
  "db2_is_connected s \<longleftrightarrow> dc_conn s \<noteq> 0"

definition db2_disconnect :: "odbc_consts \<Rightarrow> conn_driver \<Rightarrow> db_db2 \<Rightarrow> db_sts \<times> db_db2" where
  "db2_disconnect k dv s =
     (let s1 = (if dc_stmt s \<noteq> 0 then free_stmt_handle k dv s else s);
          (ret, s2) = (if dc_conn s1 \<noteq> 0
             then let (r, _, t) = issue k dv (Call_disconnect (dc_conn s1)) s1
                  in (r, free_conn_handle k dv
                           (if \<not> is_odbc_success k r then chk_error k dv r ''disconnecting from DB2 database'' t else t))
             else (sql_success k, s1));
          s3 = (if dc_env s2 \<noteq> 0 then free_env_handle k dv s2 else s2)
      in (if is_odbc_success k ret then sts_success else sts_error, s3))"

subsection \<open>Transactions\<close>

definition db2_commit :: "odbc_consts \<Rightarrow> conn_driver \<Rightarrow> db_db2 \<Rightarrow> db_sts \<times> db_db2" where
  "db2_commit k dv s =
     (if dc_conn s = 0 then (sts_connection_error, add_error ''Attempted to commit on a disconnected database.'' s)
      else
        let (ret, _, s1) = issue k dv (Call_commit (dc_conn s)) s;
            s2 = chk_error k dv ret ''commit transaction'' s1
        in if is_odbc_success k ret then (sts_success, s2)
           else (sts_error, add_error ''Transaction commit failed.'' s2))"

definition db2_rollback :: "odbc_consts \<Rightarrow> conn_driver \<Rightarrow> db_db2 \<Rightarrow> db_sts \<times> db_db2" where
  "db2_rollback k dv s =
     (if dc_conn s = 0 then (sts_connection_error, add_error ''Attempted to rollback on a disconnected database.'' s)
      else
        let (ret, _, s1) = issue k dv (Call_rollback (dc_conn s)) s;
            s2 = chk_error k dv ret ''rollback transaction'' s1
        in if is_odbc_success k ret then (sts_success, add_info ''Transaction rolled back successfully.'' s2)
           else (sts_error, add_error ''Transaction rollback failed.'' s2))"

definition db2_exec :: "odbc_consts \<Rightarrow> conn_driver \<Rightarrow> string \<Rightarrow> db_db2 \<Rightarrow> db_sts \<times> db_db2" where
  "db2_exec k dv sql s =
     (if dc_conn s = 0 then (sts_connection_error, add_error ''exec: No active database connection'' s)
      else
        let (r1, h, t1) = issue k dv (Call_alloc ht_stmt (dc_conn s)) s; s1 = t1\<lparr>dc_stmt := h\<rparr> in
        if \<not> is_odbc_success k r1
        then (sts_resource_error, chk_error k dv r1 ''allocating statement handle'' s1)
        else
          let (r2, _, s2) = issue k dv (Call_exec_direct (dc_stmt s1) sql) s1 in
          if \<not> is_odbc_success k r2
          then (sts_invalid_sql, free_stmt_handle k dv (snd (db2_rollback k dv
                  (chk_error k dv r2 (''SQLExecDirect sql '' @ quoted sql) s2))))
          else (sts_success, snd (db2_commit k dv (free_stmt_handle k dv s2))))"

definition db2_refresh_statistics :: "odbc_consts \<Rightarrow> conn_driver \<Rightarrow> string \<Rightarrow> db_db2 \<Rightarrow> db_sts \<times> db_db2" where
  "db2_refresh_statistics k dv table_name s =
     db2_exec k dv (''CALL SYSPROC.ADMIN_CMD('' @ quoted (''RUNSTATS ON TABLE '' @ table_name) @ '')'') s"

subsection \<open>Describing a statement\<close>

definition error_cleanup ::
  "odbc_consts \<Rightarrow> conn_driver \<Rightarrow> sqlreturn \<Rightarrow> string \<Rightarrow> db_sts \<Rightarrow> db_db2 \<Rightarrow> (db_sts + qry_metadata) \<times> db_db2" where
  "error_cleanup k dv ret msg err_code s = (Inl err_code, free_stmt_handle k dv (chk_error k dv ret msg s))"

definition describe_param :: "odbc_consts \<Rightarrow> conn_driver \<Rightarrow> nat \<Rightarrow> db_db2 \<Rightarrow> meta_dscr" where
  "describe_param k dv i s =
     (let (native, sz, digits, nullable) = drv_param dv (dc_history s) i in
      \<lparr>md_index = of_nat i, md_name = ''par_'' @ dec i, md_type = from_odbc k native,
       md_native_type = scast native, md_size = ucast sz, md_digits = digits, md_nullable = nullable\<rparr>)"

definition describe_col :: "odbc_consts \<Rightarrow> conn_driver \<Rightarrow> nat \<Rightarrow> db_db2 \<Rightarrow> meta_dscr" where
  "describe_col k dv i s =
     (let (name, native, sz, digits, nullable) = drv_col dv (dc_history s) i in
      \<lparr>md_index = of_nat i, md_name = lowercase name, md_type = from_odbc k native,
       md_native_type = scast native, md_size = ucast sz, md_digits = digits, md_nullable = nullable\<rparr>)"

text \<open>A call of the driver that ends the description when it fails, and the sequence of two parts of a
  description, the first of which may have ended it.\<close>

definition or_cleanup ::
  "odbc_consts \<Rightarrow> conn_driver \<Rightarrow> conn_call \<Rightarrow> string \<Rightarrow> (db_db2 \<Rightarrow> (db_sts + qry_metadata) \<times> db_db2) \<Rightarrow> db_db2
     \<Rightarrow> (db_sts + qry_metadata) \<times> db_db2" where
  "or_cleanup k dv c msg cont s =
     (let (ret, _, s1) = issue k dv c s in
      if \<not> is_odbc_success k ret then error_cleanup k dv ret msg sts_invalid_sql s1 else cont s1)"

definition and_then ::
  "(db_sts + qry_metadata) \<times> db_db2 \<Rightarrow> (qry_metadata \<Rightarrow> db_db2 \<Rightarrow> (db_sts + qry_metadata) \<times> db_db2)
     \<Rightarrow> (db_sts + qry_metadata) \<times> db_db2" where
  "and_then res cont = (case fst res of Inl e \<Rightarrow> res | Inr md \<Rightarrow> cont md (snd res))"

definition warn_unmapped :: "string \<Rightarrow> meta_dscr \<Rightarrow> db_db2 \<Rightarrow> db_db2" where
  "warn_unmapped what d s =
     (if md_type d = st_unknown
      then add_warning (what @ '' has an unmapped db type code '' @ dec_int (sint (md_native_type d))
             @ ''. Generated code will not compile.'') s
      else s)"

primrec describe_params ::
  "odbc_consts \<Rightarrow> conn_driver \<Rightarrow> nat list \<Rightarrow> qry_metadata \<Rightarrow> db_db2 \<Rightarrow> (db_sts + qry_metadata) \<times> db_db2" where
  "describe_params k dv [] result s = (Inr result, s)"
| "describe_params k dv (i # is) result s =
     or_cleanup k dv (Call_describe_param (dc_stmt s) i) (''SQLDescribeParam for parameter '' @ dec i)
       (\<lambda>s1. let par = describe_param k dv i s1
             in describe_params k dv is (add_par_dscr par result) (warn_unmapped (''Parameter '' @ dec i) par s1)) s"

primrec describe_cols ::
  "odbc_consts \<Rightarrow> conn_driver \<Rightarrow> nat list \<Rightarrow> qry_metadata \<Rightarrow> db_db2 \<Rightarrow> (db_sts + qry_metadata) \<times> db_db2" where
  "describe_cols k dv [] result s = (Inr result, s)"
| "describe_cols k dv (i # is) result s =
     or_cleanup k dv (Call_describe_col (dc_stmt s) i) (''SQLDescribeCol for column '' @ dec i)
       (\<lambda>s1. let col = describe_col k dv i s1
             in describe_cols k dv is (add_col_dscr col result) (warn_unmapped (''Column '' @ quoted (md_name col)) col s1)) s"

definition indices :: "i16 \<Rightarrow> nat list" where
  "indices n = [1..<nat (sint n) + 1]"

definition describe_results ::
  "odbc_consts \<Rightarrow> conn_driver \<Rightarrow> string \<Rightarrow> qry_metadata \<Rightarrow> db_db2 \<Rightarrow> (db_sts + qry_metadata) \<times> db_db2" where
  "describe_results k dv sql md s =
     or_cleanup k dv (Call_num_cols (dc_stmt s)) (''SQLNumResultCols sql '' @ sql)
       (\<lambda>s1. describe_cols k dv (indices (drv_count dv (dc_history s1) (Call_num_cols (dc_stmt s1)))) md s1) s"

definition describe_inputs ::
  "odbc_consts \<Rightarrow> conn_driver \<Rightarrow> string \<Rightarrow> db_db2 \<Rightarrow> (db_sts + qry_metadata) \<times> db_db2" where
  "describe_inputs k dv sql s =
     or_cleanup k dv (Call_num_params (dc_stmt s)) (''SQLNumResultCols sql '' @ sql)
       (\<lambda>s1. describe_params k dv (indices (drv_count dv (dc_history s1) (Call_num_params (dc_stmt s1))))
               \<lparr>qm_columns = [], qm_params = []\<rparr> s1) s"

definition db2_get_sql_metadata ::
  "odbc_consts \<Rightarrow> conn_driver \<Rightarrow> string \<Rightarrow> db_db2 \<Rightarrow> (db_sts + qry_metadata) \<times> db_db2" where
  "db2_get_sql_metadata k dv sql s =
     (if dc_conn s = 0
      then (Inl sts_connection_error, add_error ''get_sql_metadata: No active database connection'' s)
      else
        let (r1, h, t1) = issue k dv (Call_alloc ht_stmt (dc_conn s)) s; s1 = t1\<lparr>dc_stmt := h\<rparr> in
        if \<not> is_odbc_success k r1 then error_cleanup k dv r1 ''allocating statement handle'' sts_resource_error s1
        else
          or_cleanup k dv (Call_prepare (dc_stmt s1) sql) (''SQLPrepare sql '' @ sql)
            (\<lambda>s2. and_then (and_then (describe_inputs k dv sql s2) (describe_results k dv sql))
                    (\<lambda>md s6. (Inr md, free_stmt_handle k dv s6))) s1)"

text \<open>The destructors: \<open>db_db2\<close> disconnects, \<open>db_data_db2\<close> complains about handles left over.\<close>

definition leaked_messages :: "db_db2 \<Rightarrow> string list" where
  "leaked_messages s =
     (if dc_stmt s \<noteq> 0 then [''statement handle is not deallocated.''] else [])
   @ (if dc_conn s \<noteq> 0 then [''connection handle is not deallocated.''] else [])
   @ (if dc_env s \<noteq> 0 then [''environment handle is not deallocated.''] else [])"

definition db2_destroy :: "odbc_consts \<Rightarrow> conn_driver \<Rightarrow> db_db2 \<Rightarrow> db_db2 \<times> string list" where
  "db2_destroy k dv s = (let s1 = snd (db2_disconnect k dv s) in (s1, leaked_messages s1))"

subsection \<open>The ledger of handles\<close>

definition opened :: "odbc_consts \<Rightarrow> handle_type_enum \<Rightarrow> history \<Rightarrow> nat list" where
  "opened k t hist = concat (map (\<lambda>(c, r, h). case c of
     Call_alloc t' _ \<Rightarrow> if t' = t \<and> is_odbc_success k r then [h] else [] | _ \<Rightarrow> []) hist)"

definition closed :: "handle_type_enum \<Rightarrow> history \<Rightarrow> nat list" where
  "closed t hist = concat (map (\<lambda>(c, r, h). case c of Call_free t' h' \<Rightarrow> if t' = t then [h'] else [] | _ \<Rightarrow> []) hist)"

text \<open>The transactions that were ended: \<open>True\<close> for a commit, \<open>False\<close> for a rollback.\<close>

definition ended :: "history \<Rightarrow> bool list" where
  "ended hist = concat (map (\<lambda>(c, r, h). case c of Call_commit _ \<Rightarrow> [True] | Call_rollback _ \<Rightarrow> [False] | _ \<Rightarrow> []) hist)"

primrec held :: "handle_type_enum \<Rightarrow> db_db2 \<Rightarrow> nat" where
  "held ht_env s = dc_env s" | "held ht_conn s = dc_conn s" | "held ht_stmt s = dc_stmt s"

definition owned_handles :: "handle_type_enum \<Rightarrow> db_db2 \<Rightarrow> nat list" where
  "owned_handles t s = (if held t s = 0 then [] else [held t s])"

definition balanced :: "odbc_consts \<Rightarrow> db_db2 \<Rightarrow> bool" where
  "balanced k s \<longleftrightarrow> (\<forall>t. opened k t (dc_history s) = closed t (dc_history s) @ owned_handles t s)"

text \<open>A handle the driver grants is never the null handle.\<close>

definition grants_handles :: "conn_driver \<Rightarrow> bool" where
  "grants_handles dv \<longleftrightarrow> (\<forall>hist c. drv_handle dv hist c \<noteq> 0)"

lemma ledger_append [simp]:
  "opened k t (xs @ ys) = opened k t xs @ opened k t ys" "closed t (xs @ ys) = closed t xs @ closed t ys"
  "ended (xs @ ys) = ended xs @ ended ys" "opened k t [] = []" "closed t [] = []" "ended [] = []"
  by (simp_all add: opened_def closed_def ended_def)

lemma ledger_single [simp]:
  "opened k t [(c, r, h)] = (case c of Call_alloc t' _ \<Rightarrow> if t' = t \<and> is_odbc_success k r then [h] else [] | _ \<Rightarrow> [])"
  "closed t [(c, r, h)] = (case c of Call_free t' h' \<Rightarrow> if t' = t then [h'] else [] | _ \<Rightarrow> [])"
  "ended [(c, r, h)] = (case c of Call_commit _ \<Rightarrow> [True] | Call_rollback _ \<Rightarrow> [False] | _ \<Rightarrow> [])"
  by (simp_all add: opened_def closed_def ended_def)

lemma add_log_frame [simp]:
  "dc_history (add_error m s) = dc_history s" "dc_env (add_error m s) = dc_env s" "dc_conn (add_error m s) = dc_conn s"
  "dc_stmt (add_error m s) = dc_stmt s" "dc_history (add_warning m s) = dc_history s" "dc_env (add_warning m s) = dc_env s"
  "dc_conn (add_warning m s) = dc_conn s" "dc_stmt (add_warning m s) = dc_stmt s"
  "dc_history (add_info m s) = dc_history s" "dc_env (add_info m s) = dc_env s"
  "dc_conn (add_info m s) = dc_conn s" "dc_stmt (add_info m s) = dc_stmt s"
  by (simp_all add: add_error_def add_warning_def add_info_def)

lemma fold_errors_frame:
  "let s' = fold (\<lambda>x. add_error (f x)) xs s in
     dc_history s' = dc_history s \<and> dc_env s' = dc_env s \<and> dc_conn s' = dc_conn s \<and> dc_stmt s' = dc_stmt s"
  by (induction xs arbitrary: s) (simp_all add: Let_def)

lemma chk_error_frame [simp]:
  "dc_history (chk_error k dv r op s) = dc_history s" "dc_env (chk_error k dv r op s) = dc_env s"
  "dc_conn (chk_error k dv r op s) = dc_conn s" "dc_stmt (chk_error k dv r op s) = dc_stmt s"
  using fold_errors_frame [of "diag_line op" "drv_diag dv (dc_history s)" s] by (simp_all add: chk_error_def Let_def)

lemma free_handle_frame [simp]:
  "dc_env (free_handle k dv h t e s) = dc_env s" "dc_conn (free_handle k dv h t e s) = dc_conn s"
  "dc_stmt (free_handle k dv h t e s) = dc_stmt s"
  "opened k' t' (dc_history (free_handle k dv h t e s)) = opened k' t' (dc_history s)"
  "closed t' (dc_history (free_handle k dv h t e s)) = closed t' (dc_history s) @ (if h \<noteq> 0 \<and> t = t' then [h] else [])"
  "ended (dc_history (free_handle k dv h t e s)) = ended (dc_history s)"
  by (simp_all add: free_handle_def issue_def Let_def)

lemma free_stmt_frame [simp]:
  "dc_env (free_stmt_handle k dv s) = dc_env s" "dc_conn (free_stmt_handle k dv s) = dc_conn s"
  "dc_stmt (free_stmt_handle k dv s) = 0"
  "opened k' t' (dc_history (free_stmt_handle k dv s)) = opened k' t' (dc_history s)"
  "closed t' (dc_history (free_stmt_handle k dv s)) = closed t' (dc_history s) @ (if t' = ht_stmt then owned_handles ht_stmt s else [])"
  "ended (dc_history (free_stmt_handle k dv s)) = ended (dc_history s)"
  by (simp_all add: free_stmt_handle_def owned_handles_def)

lemma free_conn_frame [simp]:
  "dc_env (free_conn_handle k dv s) = dc_env s" "dc_stmt (free_conn_handle k dv s) = dc_stmt s"
  "dc_conn (free_conn_handle k dv s) = 0"
  "opened k' t' (dc_history (free_conn_handle k dv s)) = opened k' t' (dc_history s)"
  "closed t' (dc_history (free_conn_handle k dv s)) = closed t' (dc_history s) @ (if t' = ht_conn then owned_handles ht_conn s else [])"
  "ended (dc_history (free_conn_handle k dv s)) = ended (dc_history s)"
  by (simp_all add: free_conn_handle_def owned_handles_def)

lemma free_env_frame [simp]:
  "dc_conn (free_env_handle k dv s) = dc_conn s" "dc_stmt (free_env_handle k dv s) = dc_stmt s"
  "dc_env (free_env_handle k dv s) = 0"
  "opened k' t' (dc_history (free_env_handle k dv s)) = opened k' t' (dc_history s)"
  "closed t' (dc_history (free_env_handle k dv s)) = closed t' (dc_history s) @ (if t' = ht_env then owned_handles ht_env s else [])"
  "ended (dc_history (free_env_handle k dv s)) = ended (dc_history s)"
  by (simp_all add: free_env_handle_def owned_handles_def)

lemma all_handle_types: "(\<forall>t. P t) \<longleftrightarrow> P ht_env \<and> P ht_conn \<and> P ht_stmt"
  by (metis handle_type_enum.exhaust)

lemma balanced_iff:
  "balanced k s \<longleftrightarrow>
     opened k ht_env (dc_history s) = closed ht_env (dc_history s) @ owned_handles ht_env s
   \<and> opened k ht_conn (dc_history s) = closed ht_conn (dc_history s) @ owned_handles ht_conn s
   \<and> opened k ht_stmt (dc_history s) = closed ht_stmt (dc_history s) @ owned_handles ht_stmt s"
  unfolding balanced_def by (rule all_handle_types)

lemma balanced_free:
  "balanced k s \<Longrightarrow> balanced k (free_stmt_handle k dv s)" "balanced k s \<Longrightarrow> balanced k (free_conn_handle k dv s)"
  "balanced k s \<Longrightarrow> balanced k (free_env_handle k dv s)"
  by (simp_all add: balanced_iff) (simp_all add: owned_handles_def)

text \<open>Calls that neither make nor free a handle, and log lines, keep the ledger.\<close>

lemma balanced_frame:
  assumes "balanced k s" "dc_env s' = dc_env s" "dc_conn s' = dc_conn s" "dc_stmt s' = dc_stmt s"
    and "\<forall>t. opened k t (dc_history s') = opened k t (dc_history s)" "\<forall>t. closed t (dc_history s') = closed t (dc_history s)"
  shows "balanced k s'"
  using assms by (simp add: balanced_iff owned_handles_def)

lemma issue_handle:
  assumes "grants_handles dv" "issue k dv (Call_alloc t p) s = (r, h, s')"
  shows "is_odbc_success k r \<longleftrightarrow> h \<noteq> 0" "s' = s\<lparr>dc_history := dc_history s @ [(Call_alloc t p, r, h)]\<rparr>"
  using assms by (auto simp: issue_def Let_def grants_handles_def split: if_splits)

lemma balanced_alloc:
  assumes "balanced k s" "grants_handles dv" "issue k dv (Call_alloc t p) s = (r, h, s')"
  shows "t = ht_stmt \<Longrightarrow> dc_stmt s = 0 \<Longrightarrow> balanced k (s'\<lparr>dc_stmt := h\<rparr>)"
    and "t = ht_conn \<Longrightarrow> dc_conn s = 0 \<Longrightarrow> balanced k (s'\<lparr>dc_conn := h\<rparr>)"
    and "t = ht_env \<Longrightarrow> dc_env s = 0 \<Longrightarrow> balanced k (s'\<lparr>dc_env := h\<rparr>)"
  using assms(1) issue_handle [OF assms(2,3)] by (simp_all add: balanced_iff owned_handles_def)

text \<open>A call that neither makes nor frees a handle.\<close>

fun quiet :: "conn_call \<Rightarrow> bool" where
  "quiet (Call_alloc t p) = False" | "quiet (Call_free t h) = False" | "quiet _ = True"

lemma issue_quiet:
  assumes "quiet c" "issue k dv c s = (r, h, s')"
  shows "dc_env s' = dc_env s" "dc_conn s' = dc_conn s" "dc_stmt s' = dc_stmt s"
    and "balanced k s \<Longrightarrow> balanced k s'" and "r = drv_ret dv (dc_history s) c"
    and "ended (dc_history s') = ended (dc_history s)
      @ (case c of Call_commit _ \<Rightarrow> [True] | Call_rollback _ \<Rightarrow> [False] | _ \<Rightarrow> [])"
  using assms by (auto simp: issue_def Let_def balanced_iff owned_handles_def elim: quiet.elims)

lemma balanced_log [simp]:
  "balanced k (add_error m s) = balanced k s" "balanced k (add_warning m s) = balanced k s"
  "balanced k (add_info m s) = balanced k s" "balanced k (chk_error k dv r op s) = balanced k s"
  by (simp_all add: balanced_iff owned_handles_def)

definition conn_inv :: "odbc_consts \<Rightarrow> db_db2 \<Rightarrow> bool" where
  "conn_inv k s \<longleftrightarrow> balanced k s \<and> (dc_conn s = 0 \<longleftrightarrow> dc_env s = 0) \<and> dc_stmt s = 0"

subsection \<open>Every operation keeps the ledger\<close>

lemma commit_frame [simp]:
  "dc_env (snd (db2_commit k dv s)) = dc_env s" "dc_conn (snd (db2_commit k dv s)) = dc_conn s"
  "dc_stmt (snd (db2_commit k dv s)) = dc_stmt s" "balanced k s \<Longrightarrow> balanced k (snd (db2_commit k dv s))"
  "ended (dc_history (snd (db2_commit k dv s))) = ended (dc_history s) @ (if dc_conn s = 0 then [] else [True])"
proof -
  obtain r h s' where c: "issue k dv (Call_commit (dc_conn s)) s = (r, h, s')" by (metis prod_cases3)
  note c' = issue_quiet [OF _ c, simplified]
  show "dc_env (snd (db2_commit k dv s)) = dc_env s" "dc_conn (snd (db2_commit k dv s)) = dc_conn s"
    "dc_stmt (snd (db2_commit k dv s)) = dc_stmt s" "balanced k s \<Longrightarrow> balanced k (snd (db2_commit k dv s))"
    "ended (dc_history (snd (db2_commit k dv s))) = ended (dc_history s) @ (if dc_conn s = 0 then [] else [True])"
    using c' by (simp_all add: db2_commit_def c Let_def)
qed

lemma rollback_frame [simp]:
  "dc_env (snd (db2_rollback k dv s)) = dc_env s" "dc_conn (snd (db2_rollback k dv s)) = dc_conn s"
  "dc_stmt (snd (db2_rollback k dv s)) = dc_stmt s" "balanced k s \<Longrightarrow> balanced k (snd (db2_rollback k dv s))"
  "ended (dc_history (snd (db2_rollback k dv s))) = ended (dc_history s) @ (if dc_conn s = 0 then [] else [False])"
proof -
  obtain r h s' where c: "issue k dv (Call_rollback (dc_conn s)) s = (r, h, s')" by (metis prod_cases3)
  note c' = issue_quiet [OF _ c, simplified]
  show "dc_env (snd (db2_rollback k dv s)) = dc_env s" "dc_conn (snd (db2_rollback k dv s)) = dc_conn s"
    "dc_stmt (snd (db2_rollback k dv s)) = dc_stmt s" "balanced k s \<Longrightarrow> balanced k (snd (db2_rollback k dv s))"
    "ended (dc_history (snd (db2_rollback k dv s))) = ended (dc_history s) @ (if dc_conn s = 0 then [] else [False])"
    using c' by (simp_all add: db2_rollback_def c Let_def)
qed

lemma end_tran_inv:
  "conn_inv k s \<Longrightarrow> conn_inv k (snd (db2_commit k dv s))" "conn_inv k s \<Longrightarrow> conn_inv k (snd (db2_rollback k dv s))"
  by (simp_all add: conn_inv_def)

lemma allocate_inv:
  assumes "conn_inv k s" "dc_conn s = 0" "grants_handles dv"
  shows "conn_inv k (snd (internal_allocate_handles k dv s))
    \<and> (fst (internal_allocate_handles k dv s) \<in> {sts_success, sts_config_error}
         \<longleftrightarrow> dc_conn (snd (internal_allocate_handles k dv s)) \<noteq> 0)
    \<and> fst (internal_allocate_handles k dv s) \<in> {sts_success, sts_config_error, sts_env_error, sts_connection_error}"
proof -
  obtain r1 h1 t1 where i1: "issue k dv (Call_alloc ht_env 0) s = (r1, h1, t1)" by (metis prod_cases3)
  let ?s1 = "t1\<lparr>dc_env := h1\<rparr>"
  obtain r2 h2 t2 where i2: "issue k dv (Call_alloc ht_conn (dc_env ?s1)) ?s1 = (r2, h2, t2)" by (metis prod_cases3)
  let ?s2 = "t2\<lparr>dc_conn := h2\<rparr>"
  obtain r3 h3 s3 where i3: "issue k dv (Call_autocommit_off (dc_conn ?s2)) ?s2 = (r3, h3, s3)" by (metis prod_cases3)
  note h1 = issue_handle [OF assms(3) i1] and h2 = issue_handle [OF assms(3) i2]
  have b1: "balanced k ?s1" using balanced_alloc(3) [OF _ assms(3) i1] assms by (simp add: conn_inv_def)
  have b2: "balanced k ?s2" using balanced_alloc(2) [OF b1 assms(3) i2] assms h1 by simp
  note q3 = issue_quiet [OF _ i3, simplified]
  note facts = b1 b2 q3 h1 h2 assms(1,2) balanced_free(3) [of k "chk_error k dv r2 ''SQLAllocHandle(DBC)'' ?s2" dv]
  show ?thesis
  proof (cases "is_odbc_success k r1 \<and> is_odbc_success k r2")
    case True
    then show ?thesis
      using facts i2 i3 by (simp add: internal_allocate_handles_def i1 Let_def conn_inv_def)
  next
    case False
    then show ?thesis
      using facts i2 by (auto simp: internal_allocate_handles_def i1 Let_def conn_inv_def)
  qed
qed

lemma internal_connect_inv:
  assumes "conn_inv k s" "dc_conn s \<noteq> 0"
  shows "conn_inv k (snd (internal_connect k dv str s))
    \<and> (fst (internal_connect k dv str s) = sts_success \<longleftrightarrow> dc_conn (snd (internal_connect k dv str s)) \<noteq> 0)
    \<and> fst (internal_connect k dv str s) \<in> {sts_success, sts_connection_error}"
proof -
  obtain r h t where i: "issue k dv (Call_connect (dc_conn s) str) s = (r, h, t)" by (metis prod_cases3)
  note q = issue_quiet [OF _ i, simplified]
  have "balanced k t" using q assms by (simp add: conn_inv_def)
  then have "balanced k (free_env_handle k dv (free_conn_handle k dv (chk_error k dv r ''SQLDriverConnect'' t)))"
    by (intro balanced_free) simp
  with q assms \<open>balanced k t\<close> show ?thesis
    by (cases "is_odbc_success k r") (simp_all add: internal_connect_def i conn_inv_def)
qed

lemma connect_outcome:
  assumes "conn_inv k s" "dc_conn s = 0" "grants_handles dv"
  shows "conn_inv k (snd (db2_connect_str k dv str s))
    \<and> (dc_conn (snd (db2_connect_str k dv str s)) \<noteq> 0
         \<longleftrightarrow> fst (db2_connect_str k dv str s) \<in> {sts_success, sts_config_error})"
proof (cases "fst (internal_allocate_handles k dv s) = sts_success")
  case True
  then have "dc_conn (snd (internal_allocate_handles k dv s)) \<noteq> 0" "conn_inv k (snd (internal_allocate_handles k dv s))"
    using allocate_inv [OF assms] by simp_all
  from internal_connect_inv [OF this(2,1), of dv str] True show ?thesis
    by (cases "fst (internal_connect k dv str (snd (internal_allocate_handles k dv s)))")
       (simp_all add: db2_connect_str_def split_beta)
next
  case False
  then show ?thesis using allocate_inv [OF assms] by (simp add: db2_connect_str_def split_beta)
qed

lemma disconnect_inv:
  assumes "conn_inv k s"
  shows "conn_inv k (snd (db2_disconnect k dv s)) \<and> dc_conn (snd (db2_disconnect k dv s)) = 0"
proof (cases "dc_conn s = 0")
  case True
  then show ?thesis using assms by (simp add: db2_disconnect_def conn_inv_def)
next
  case False
  obtain r h t where i: "issue k dv (Call_disconnect (dc_conn s)) s = (r, h, t)" by (metis prod_cases3)
  note q = issue_quiet [OF _ i, simplified]
  let ?t = "if \<not> is_odbc_success k r then chk_error k dv r ''disconnecting from DB2 database'' t else t"
  have t: "balanced k ?t" "dc_stmt ?t = 0" "dc_env ?t \<noteq> 0" using q assms False by (simp_all add: conn_inv_def)
  have "balanced k (free_env_handle k dv (free_conn_handle k dv ?t))" by (intro balanced_free t)
  then show ?thesis
    using assms False t by (simp add: db2_disconnect_def conn_inv_def i del: chk_error_frame)
qed

lemma freed_stmt_inv:
  "balanced k x \<Longrightarrow> (dc_conn x = 0 \<longleftrightarrow> dc_env x = 0) \<Longrightarrow> conn_inv k (free_stmt_handle k dv x)"
  by (simp add: conn_inv_def balanced_free)

lemma exec_inv:
  assumes "conn_inv k s" "grants_handles dv"
  shows "conn_inv k (snd (db2_exec k dv sql s))"
    and "ended (dc_history (snd (db2_exec k dv sql s))) = ended (dc_history s)
      @ (case fst (db2_exec k dv sql s) of sts_success \<Rightarrow> [True] | sts_invalid_sql \<Rightarrow> [False] | _ \<Rightarrow> [])"
proof -
  obtain r h t where i: "issue k dv (Call_alloc ht_stmt (dc_conn s)) s = (r, h, t)" by (metis prod_cases3)
  let ?s1 = "t\<lparr>dc_stmt := h\<rparr>"
  obtain r2 h2 s2 where j: "issue k dv (Call_exec_direct (dc_stmt ?s1) sql) ?s1 = (r2, h2, s2)" by (metis prod_cases3)
  note h = issue_handle [OF assms(2) i] and q = issue_quiet [OF _ j, simplified]
  have b: "balanced k ?s1" using balanced_alloc(1) [OF _ assms(2) i] assms(1) by (simp add: conn_inv_def)
  have b2: "balanced k s2" "dc_conn s2 = dc_conn s" "dc_env s2 = dc_env s" "ended (dc_history s2) = ended (dc_history s)"
    using b q h by simp_all
  define s3 where "s3 = chk_error k dv r2 (''SQLExecDirect sql '' @ quoted sql) s2"
  have b3: "balanced k s3" "dc_conn s3 = dc_conn s" "dc_env s3 = dc_env s" "ended (dc_history s3) = ended (dc_history s)"
    using b2 by (simp_all add: s3_def)
  have iff: "dc_conn s = 0 \<longleftrightarrow> dc_env s = 0" using assms(1) by (simp add: conn_inv_def)
  have ex: "db2_exec k dv sql s =
     (if dc_conn s = 0 then (sts_connection_error, add_error ''exec: No active database connection'' s)
      else if \<not> is_odbc_success k r then (sts_resource_error, chk_error k dv r ''allocating statement handle'' ?s1)
      else if \<not> is_odbc_success k r2 then (sts_invalid_sql, free_stmt_handle k dv (snd (db2_rollback k dv s3)))
      else (sts_success, snd (db2_commit k dv (free_stmt_handle k dv s2))))"
    using j by (simp add: db2_exec_def i Let_def s3_def)
  show "conn_inv k (snd (db2_exec k dv sql s))"
    using assms(1) h b b2 b3 iff by (auto simp: ex conn_inv_def balanced_free)
  show "ended (dc_history (snd (db2_exec k dv sql s))) = ended (dc_history s)
      @ (case fst (db2_exec k dv sql s) of sts_success \<Rightarrow> [True] | sts_invalid_sql \<Rightarrow> [False] | _ \<Rightarrow> [])"
    using h b2 b3 by (simp add: ex)
qed

lemma error_cleanup_inv:
  assumes "balanced k s" "dc_conn s = 0 \<longleftrightarrow> dc_env s = 0"
  shows "conn_inv k (snd (error_cleanup k dv r m e s))"
    and "ended (dc_history (snd (error_cleanup k dv r m e s))) = ended (dc_history s)"
    and "fst (error_cleanup k dv r m e s) = Inl e"
  using assms by (simp_all add: error_cleanup_def freed_stmt_inv)

text \<open>Between the steps of a description the statement handle is held; every failure frees it.\<close>

definition describing :: "odbc_consts \<Rightarrow> bool list \<Rightarrow> nat \<Rightarrow> db_db2 \<Rightarrow> bool" where
  "describing k en h s \<longleftrightarrow> balanced k s \<and> (dc_conn s = 0 \<longleftrightarrow> dc_env s = 0) \<and> dc_stmt s = h \<and> ended (dc_history s) = en"

definition described :: "odbc_consts \<Rightarrow> bool list \<Rightarrow> nat \<Rightarrow> (db_sts + qry_metadata) \<times> db_db2 \<Rightarrow> bool" where
  "described k en h res \<longleftrightarrow> (case fst res of
      Inl e \<Rightarrow> conn_inv k (snd res) \<and> ended (dc_history (snd res)) = en
    | Inr md \<Rightarrow> describing k en h (snd res))"

lemma describing_issue:
  assumes "describing k en h s" "quiet c" "issue k dv c s = (r, g, s')"
    and "\<And>x. c \<noteq> Call_commit x" "\<And>x. c \<noteq> Call_rollback x"
  shows "describing k en h s'"
  using assms(1) issue_quiet [OF assms(2,3)] assms(4,5) by (auto simp: describing_def split: conn_call.splits)

lemma describing_warning [simp]: "describing k en h (add_warning m s) = describing k en h s"
  by (simp add: describing_def)

lemma described_cleanup:
  "describing k en h s \<Longrightarrow> described k en h (error_cleanup k dv r m e s)"
  using error_cleanup_inv [of k s dv r m e] by (simp add: described_def describing_def)

lemma described_or_cleanup:
  assumes "describing k en h s" "quiet c" "\<And>x. c \<noteq> Call_commit x" "\<And>x. c \<noteq> Call_rollback x"
    and "\<And>s1. describing k en h s1 \<Longrightarrow> described k en h (cont s1)"
  shows "described k en h (or_cleanup k dv c msg cont s)"
proof -
  obtain r g s' where i: "issue k dv c s = (r, g, s')" by (metis prod_cases3)
  have "describing k en h s'" by (rule describing_issue [OF assms(1,2) i assms(3,4)])
  then show ?thesis using assms(5) described_cleanup by (simp add: or_cleanup_def i)
qed

lemma describing_warn [simp]: "describing k en h (warn_unmapped w d s) = describing k en h s"
  by (simp add: warn_unmapped_def)

lemma describe_params_described:
  "describing k en h s \<Longrightarrow> described k en h (describe_params k dv is md s)"
  by (induction "is" arbitrary: md s) (auto simp: Let_def described_def [of _ _ _ "(Inr _, _)"] intro!: described_or_cleanup)

lemma describe_cols_described:
  "describing k en h s \<Longrightarrow> described k en h (describe_cols k dv is md s)"
  by (induction "is" arbitrary: md s) (auto simp: Let_def described_def [of _ _ _ "(Inr _, _)"] intro!: described_or_cleanup)

lemma described_parts:
  assumes "describing k en h s"
  shows "described k en h (and_then (describe_inputs k dv sql s) (describe_results k dv sql))"
proof -
  have "described k en h (describe_inputs k dv sql s)"
    unfolding describe_inputs_def using assms by (intro described_or_cleanup describe_params_described) simp_all
  moreover have "described k en h (describe_results k dv sql md s')" if "describing k en h s'" for md s'
    unfolding describe_results_def using that by (intro described_or_cleanup describe_cols_described) simp_all
  ultimately show ?thesis
    by (cases "fst (describe_inputs k dv sql s)") (simp_all add: and_then_def described_def [of _ _ _ "describe_inputs k dv sql s"])
qed

definition settled :: "odbc_consts \<Rightarrow> bool list \<Rightarrow> db_db2 \<Rightarrow> bool" where
  "settled k en s \<longleftrightarrow> conn_inv k s \<and> ended (dc_history s) = en"

lemma settled_finish:
  "described k en h res \<Longrightarrow> settled k en (snd (and_then res (\<lambda>md s6. (Inr md, free_stmt_handle k dv s6))))"
  by (auto simp: and_then_def described_def describing_def settled_def freed_stmt_inv split: sum.splits)

lemma settled_cleanup: "describing k en h s \<Longrightarrow> settled k en (snd (error_cleanup k dv r m e s))"
  using error_cleanup_inv [of k s dv r m e] by (simp add: describing_def settled_def)

lemma metadata_inv:
  assumes "conn_inv k s" "grants_handles dv"
  shows "settled k (ended (dc_history s)) (snd (db2_get_sql_metadata k dv sql s))"
proof -
  let ?en = "ended (dc_history s)"
  obtain r1 h t1 where i1: "issue k dv (Call_alloc ht_stmt (dc_conn s)) s = (r1, h, t1)" by (metis prod_cases3)
  let ?s1 = "t1\<lparr>dc_stmt := h\<rparr>"
  have d1: "describing k ?en h ?s1"
    using balanced_alloc(1) [OF _ assms(2) i1] assms(1) issue_handle [OF assms(2) i1]
    by (simp add: describing_def conn_inv_def)
  obtain r2 h2 s2 where i2: "issue k dv (Call_prepare (dc_stmt ?s1) sql) ?s1 = (r2, h2, s2)" by (metis prod_cases3)
  have d2: "describing k ?en h s2" by (rule describing_issue [OF d1 _ i2]) simp_all
  show ?thesis
    using assms(1) i2 settled_cleanup [OF d1] settled_cleanup [OF d2] settled_finish [OF described_parts [OF d2]]
    by (auto simp: db2_get_sql_metadata_def i1 Let_def or_cleanup_def settled_def conn_inv_def)
qed

subsection \<open>What a program does with a connection\<close>

datatype conn_op =
    Co_connect string u16 string string string
  | Co_exec string
  | Co_refresh string
  | Co_describe string
  | Co_commit
  | Co_rollback
  | Co_disconnect

text \<open>A program that connects only when \<open>is_connected()\<close> is false.\<close>

primrec run_conn :: "odbc_consts \<Rightarrow> conn_driver \<Rightarrow> conn_op \<Rightarrow> db_db2 \<Rightarrow> db_db2" where
  "run_conn k dv (Co_connect h p d u w) s = (if db2_is_connected s then s else snd (db2_connect k dv h p d u w s))"
| "run_conn k dv (Co_exec sql) s = snd (db2_exec k dv sql s)"
| "run_conn k dv (Co_refresh t) s = snd (db2_refresh_statistics k dv t s)"
| "run_conn k dv (Co_describe sql) s = snd (db2_get_sql_metadata k dv sql s)"
| "run_conn k dv Co_commit s = snd (db2_commit k dv s)"
| "run_conn k dv Co_rollback s = snd (db2_rollback k dv s)"
| "run_conn k dv Co_disconnect s = snd (db2_disconnect k dv s)"

lemma db2_connect_by_str:
  "db2_connect k dv h p d u w s =
     (let (r, s2) = db2_connect_str k dv (db2_conn_str h p d u w) s
      in (r, if r = sts_success then s2\<lparr>dc_base := set_connection_info h p d u (dc_base s2)\<rparr> else s2))"
  by (simp add: db2_connect_def db2_connect_str_def split_beta Let_def)

lemma conn_inv_base [simp]: "conn_inv k (s\<lparr>dc_base := b\<rparr>) = conn_inv k s"
  by (simp add: conn_inv_def balanced_iff owned_handles_def)

lemma connect_args_outcome:
  assumes "conn_inv k s" "dc_conn s = 0" "grants_handles dv"
  shows "conn_inv k (snd (db2_connect k dv h p d u w s))
    \<and> (dc_conn (snd (db2_connect k dv h p d u w s)) \<noteq> 0
         \<longleftrightarrow> fst (db2_connect k dv h p d u w s) \<in> {sts_success, sts_config_error})"
  using connect_outcome [OF assms, of "db2_conn_str h p d u w"]
  by (simp add: db2_connect_by_str split_beta Let_def)

lemma run_conn_inv: "grants_handles dv \<Longrightarrow> conn_inv k s \<Longrightarrow> conn_inv k (run_conn k dv op s)"
  by (cases op)
     (use connect_args_outcome exec_inv(1) metadata_inv disconnect_inv in
       \<open>auto simp: db2_is_connected_def db2_refresh_statistics_def settled_def end_tran_inv\<close>)

lemma run_conns_inv: "grants_handles dv \<Longrightarrow> conn_inv k s \<Longrightarrow> conn_inv k (fold (run_conn k dv) ops s)"
  by (induction ops arbitrary: s) (simp_all add: run_conn_inv)


text \<open>\<open>exec\<close> ends the transaction it runs in: it commits when the statement ran and rolls back when it
  did not, so a statement cannot be run inside a transaction its caller means to end. It answers
  success as soon as the statement ran, whether or not that commit succeeded. Describing a
  statement, in contrast, never ends a transaction.\<close>

theorem db2_exec_ends_transaction:
  assumes "grants_handles dv" "conn_inv k s" "dc_conn s \<noteq> 0"
  shows "ended (dc_history (snd (db2_exec k dv sql s))) = ended (dc_history s)
      @ (case fst (db2_exec k dv sql s) of sts_success \<Rightarrow> [True] | sts_invalid_sql \<Rightarrow> [False] | _ \<Rightarrow> [])
    \<and> ended (dc_history (snd (db2_get_sql_metadata k dv sql s))) = ended (dc_history s)
    \<and> (let c1 = Call_alloc ht_stmt (dc_conn s); h = drv_handle dv (dc_history s) c1;
           r1 = drv_ret dv (dc_history s) c1; hist = dc_history s @ [(c1, r1, h)] in
       is_odbc_success k r1 \<and> is_odbc_success k (drv_ret dv hist (Call_exec_direct h sql))
         \<longrightarrow> fst (db2_exec k dv sql s) = sts_success)"
  using exec_inv(2) [OF assms(2,1), of sql] metadata_inv [OF assms(2,1), of sql] assms(3)
  by (auto simp: settled_def db2_exec_def issue_def Let_def)

text \<open>a connection object counts as connected after a failed \<open>connect\<close> when (and only when) switching
  autocommit off was what failed: that path returns without freeing the handles, so a caller that
  retries without disconnecting first overwrites them.\<close>

theorem connect_failure_state:
  assumes "grants_handles dv" "conn_inv k s" "\<not> db2_is_connected s"
  shows "db2_is_connected (snd (db2_connect k dv host port name user pass s))
    \<longleftrightarrow> fst (db2_connect k dv host port name user pass s) \<in> {sts_success, sts_config_error}"
  using connect_args_outcome [OF assms(2) _ assms(1)] assms(3) by (simp add: db2_is_connected_def)

subsection \<open>The description of a statement\<close>

lemma or_cleanup_Inr:
  "or_cleanup k dv c msg cont s = (Inr md, s') \<Longrightarrow> \<exists>s1. cont s1 = (Inr md, s')"
  by (auto simp: or_cleanup_def error_cleanup_def split_beta Let_def split: if_splits)

lemma and_then_Inr:
  "and_then res cont = (Inr md, s') \<Longrightarrow> \<exists>md1 s1. res = (Inr md1, s1) \<and> cont md1 s1 = (Inr md, s')"
  by (cases res; cases "fst res") (auto simp: and_then_def)

lemma describe_params_names:
  assumes "describe_params k dv is md s = (Inr md', s')"
  shows "map md_name (qm_params md') = map md_name (qm_params md) @ map (\<lambda>i. ''par_'' @ dec i) is
    \<and> map md_index (qm_params md') = map md_index (qm_params md) @ map of_nat is
    \<and> qm_columns md' = qm_columns md"
  using assms
proof (induction "is" arbitrary: md s)
  case (Cons i "is")
  from or_cleanup_Inr [OF Cons.prems [simplified]] obtain s1 where
    "describe_params k dv is (add_par_dscr (describe_param k dv i s1) md) (warn_unmapped (''Parameter '' @ dec i) (describe_param k dv i s1) s1) = (Inr md', s')"
    by (auto simp: Let_def)
  from Cons.IH [OF this] show ?case by (simp add: add_par_dscr_def describe_param_def split_beta Let_def)
qed simp

lemma describe_cols_names:
  assumes "describe_cols k dv is md s = (Inr md', s')"
  shows "map md_index (qm_columns md') = map md_index (qm_columns md) @ map of_nat is
    \<and> (list_all (\<lambda>c. lowercase (md_name c) = md_name c) (qm_columns md)
        \<longrightarrow> list_all (\<lambda>c. lowercase (md_name c) = md_name c) (qm_columns md'))
    \<and> qm_params md' = qm_params md"
  using assms
proof (induction "is" arbitrary: md s)
  case (Cons i "is")
  from or_cleanup_Inr [OF Cons.prems [simplified]] obtain s1 where
    "describe_cols k dv is (add_col_dscr (describe_col k dv i s1) md)
       (warn_unmapped (''Column '' @ quoted (md_name (describe_col k dv i s1))) (describe_col k dv i s1) s1) = (Inr md', s')"
    by (auto simp: Let_def)
  from Cons.IH [OF this] show ?case by (simp add: add_col_dscr_def describe_col_def split_beta Let_def)
qed simp

text \<open>a statement that could be described has its parameters and its columns numbered from 1 in
  order, the parameters named \<open>par_1\<close>, \<open>par_2\<close>, ... (so no two share a name), the columns in lower
  case.\<close>

theorem db2_metadata_numbered:
  assumes "db2_get_sql_metadata k dv sql s = (Inr md, s')"
  shows "\<exists>n m. map md_index (qm_params md) = map of_nat [1..<n + 1]
    \<and> map md_name (qm_params md) = map (\<lambda>i. ''par_'' @ dec i) [1..<n + 1]
    \<and> distinct (map md_name (qm_params md))
    \<and> map md_index (qm_columns md) = map of_nat [1..<m + 1]
    \<and> list_all (\<lambda>c. lowercase (md_name c) = md_name c) (qm_columns md)"
proof -
  from assms obtain c msg s1 s2 where "or_cleanup k dv c msg
     (\<lambda>s2. and_then (and_then (describe_inputs k dv sql s2) (describe_results k dv sql))
             (\<lambda>md s6. (Inr md, free_stmt_handle k dv s6))) s1 = (Inr md, s2)"
    by (auto simp: db2_get_sql_metadata_def error_cleanup_def split_beta Let_def split: if_splits)
  from or_cleanup_Inr [OF this] obtain s3 s4 md1 s5 where
    i: "describe_inputs k dv sql s3 = (Inr md1, s5)" and r: "describe_results k dv sql md1 s5 = (Inr md, s4)"
    by (auto dest!: and_then_Inr)
  obtain s6 where p: "describe_params k dv (indices (drv_count dv (dc_history s6) (Call_num_params (dc_stmt s6))))
      \<lparr>qm_columns = [], qm_params = []\<rparr> s6 = (Inr md1, s5)"
    using or_cleanup_Inr [OF i [unfolded describe_inputs_def]] by auto
  obtain s7 where c: "describe_cols k dv (indices (drv_count dv (dc_history s7) (Call_num_cols (dc_stmt s7)))) md1 s7 = (Inr md, s4)"
    using or_cleanup_Inr [OF r [unfolded describe_results_def]] by auto
  have "distinct (map (\<lambda>i. ''par_'' @ dec i) [1..<n + 1])" for n
    by (auto simp: distinct_map inj_on_def dec_inj)
  with describe_params_names [OF p] describe_cols_names [OF c] show ?thesis
    unfolding indices_def by fastforce
qed

subsection \<open>A concrete driver\<close>

text \<open>Everything succeeds, except that committing is refused; two parameters, one column.\<close>

definition conn_driver0 :: conn_driver where
  "conn_driver0 = \<lparr>drv_ret = (\<lambda>hist c. case c of Call_commit _ \<Rightarrow> - 1 | _ \<Rightarrow> 0),
     drv_handle = (\<lambda>hist c. length hist + 1), drv_diag = (\<lambda>hist. [(''refused'', - 911)]),
     drv_count = (\<lambda>hist c. case c of Call_num_params _ \<Rightarrow> 2 | _ \<Rightarrow> 1),
     drv_param = (\<lambda>hist i. (1, 4, 0, 1)), drv_col = (\<lambda>hist i. (''NAME'', 2, 10, 0, 0))\<rparr>"

definition conn0 :: db_db2 where
  "conn0 = \<lparr>dc_env = 0, dc_conn = 0, dc_stmt = 0,
     dc_base = \<lparr>db_data = None, db_log = [], db_connection_info = []\<rparr>, dc_history = []\<rparr>"

lemma conn_driver0_grants: "grants_handles conn_driver0"
  by (simp add: grants_handles_def conn_driver0_def)


definition conn1 :: db_db2 where
  "conn1 = snd (db2_connect odbc_consts0 conn_driver0 ''h'' 0 ''d'' ''u'' ''p'' conn0)"

lemma conn1_ok: "conn_inv odbc_consts0 conn1" "dc_conn conn1 = 2" "dc_history conn1 \<noteq> []"
proof -
  have "conn_inv odbc_consts0 conn0" by (simp add: conn_inv_def conn0_def balanced_iff owned_handles_def)
  then show "conn_inv odbc_consts0 conn1"
    unfolding conn1_def using connect_args_outcome [OF _ _ conn_driver0_grants] by (simp add: conn0_def)
  have ok: "is_odbc_success odbc_consts0 0" by (simp add: is_odbc_success_def odbc_consts0_def)
  show "dc_conn conn1 = 2" "dc_history conn1 \<noteq> []"
    by (simp_all add: conn1_def db2_connect_def internal_allocate_handles_def internal_connect_def issue_def ok
        conn_driver0_def conn0_def Let_def)
qed

theorem db2_exec_ends_transaction_witness:
  "ended (dc_history (snd (db2_get_sql_metadata odbc_consts0 conn_driver0 ''x'' conn1))) = ended (dc_history conn1)
   \<and> fst (db2_exec odbc_consts0 conn_driver0 ''x'' conn1) = sts_success"
  using db2_exec_ends_transaction [OF conn_driver0_grants conn1_ok(1), of "''x''"]
  by (simp add: conn1_ok(2) conn_driver0_def is_odbc_success_def odbc_consts0_def Let_def)

theorem connect_failure_state_witness:
  "db2_is_connected (snd (db2_connect odbc_consts0 (conn_driver0\<lparr>drv_ret := \<lambda>hist c. case c of Call_autocommit_off _ \<Rightarrow> - 1 | _ \<Rightarrow> 0\<rparr>)
     ''h'' 0 ''d'' ''u'' ''p'' conn0))"
proof -
  let ?dv = "conn_driver0\<lparr>drv_ret := \<lambda>hist c. case c of Call_autocommit_off _ \<Rightarrow> - 1 | _ \<Rightarrow> 0\<rparr>"
  have g: "grants_handles ?dv" by (simp add: grants_handles_def conn_driver0_def)
  have i: "conn_inv odbc_consts0 conn0" "\<not> db2_is_connected conn0"
    by (simp_all add: conn_inv_def conn0_def balanced_iff owned_handles_def db2_is_connected_def)
  have "fst (db2_connect odbc_consts0 ?dv ''h'' 0 ''d'' ''u'' ''p'' conn0) = sts_config_error"
    by (simp add: db2_connect_def internal_allocate_handles_def issue_def is_odbc_success_def odbc_consts0_def
        conn_driver0_def conn0_def Let_def)
  with connect_failure_state [OF g i, of "''h''" 0 "''d''" "''u''" "''p''"] show ?thesis by simp
qed

theorem db2_metadata_numbered_witness:
  "\<exists>md s'. db2_get_sql_metadata odbc_consts0 conn_driver0 ''x'' conn1 = (Inr md, s') \<and> distinct (map md_name (qm_params md))"
proof -
  have ok: "is_odbc_success odbc_consts0 0" by (simp add: is_odbc_success_def odbc_consts0_def)
  have ix: "indices 2 = [1, 2]" "indices 1 = [1]" by (simp_all add: indices_def upt_rec)
  have "\<exists>md s'. db2_get_sql_metadata odbc_consts0 conn_driver0 ''x'' conn1 = (Inr md, s')"
    by (simp add: db2_get_sql_metadata_def conn1_ok(2) or_cleanup_def and_then_def describe_inputs_def describe_results_def
        issue_def conn_driver0_def ok ix Let_def)
  then show ?thesis using db2_metadata_numbered by blast
qed

end
