(* ===== verification/Backends.thy ===== *)
theory Backends
  imports Parser Psql_Conn Db2_Conn
begin

text \<open>
  The two backends under the parser: the operations of \<open>rtl::db\<close> that describing a file uses
  (\<open>parser.cpp\<close>), as \<open>psql_rtl.cpp\<close> and \<open>db2_rtl.cpp\<close> implement them, and what that makes of the unit
  of work of a statement.
\<close>

subsection \<open>The interface\<close>

text \<open>What a backend promises: how many transactions each operation ends at most. \<open>cost\<close> is the number
  that running a text ends.\<close>

locale describing_db =
  fixes ops :: "'c db_ops"
    and describe :: "string \<Rightarrow> 'c \<Rightarrow> (db_sts + qry_metadata) \<times> 'c"
    and ended_tx :: "'c \<Rightarrow> nat"
    and ok :: "'c \<Rightarrow> bool"
    and plain :: "string \<Rightarrow> bool"
    and cost :: nat
  assumes describe_neutral: "ok c \<Longrightarrow> ok (snd (describe q c)) \<and> ended_tx (snd (describe q c)) = ended_tx c"
    and exec_bound: "ok c \<Longrightarrow> plain q \<Longrightarrow> ok (snd (dbo_exec ops q c)) \<and> ended_tx (snd (dbo_exec ops q c)) \<le> ended_tx c + cost"
    and commit_bound: "ok c \<Longrightarrow> ok (snd (dbo_commit ops c)) \<and> ended_tx (snd (dbo_commit ops c)) \<le> ended_tx c + 1"
    and rollback_bound: "ok c \<Longrightarrow> ok (snd (dbo_rollback ops c)) \<and> ended_tx (snd (dbo_rollback ops c)) \<le> ended_tx c + 1"
begin

definition block_cost :: "string \<Rightarrow> nat" where
  "block_cost q = (if q = [] then 0 else cost)"

lemma block_bound:
  assumes "ok c" "q = [] \<or> plain q"
  shows "ok (snd (if q \<noteq> [] then dbo_exec ops q c else (sts_success, c)))
    \<and> ended_tx (snd (if q \<noteq> [] then dbo_exec ops q c else (sts_success, c))) \<le> ended_tx c + block_cost q"
  using assms exec_bound by (auto simp: block_cost_def)

lemma statement_bound:
  assumes "ok c" "ds_before_sql s = [] \<or> plain (ds_before_sql s)" "ds_after_sql s = [] \<or> plain (ds_after_sql s)"
    and "load_statement sn ops describe mfl s c = ((r, c'), l)"
  shows "ok c' \<and> ended_tx c' \<le> ended_tx c + 1 + block_cost (ds_before_sql s) + block_cost (ds_after_sql s)"
proof -
  define b where "b = (if ds_before_sql s \<noteq> [] then dbo_exec ops (ds_before_sql s) c else (sts_success, c))"
  define d where "d = describe (ds_sql s) (snd b)"
  define a where "a = (if ds_after_sql s \<noteq> [] then dbo_exec ops (ds_after_sql s) (snd d) else (sts_success, snd d))"
  have b: "ok (snd b)" "ended_tx (snd b) \<le> ended_tx c + block_cost (ds_before_sql s)"
    using block_bound [OF assms(1,2)] by (simp_all add: b_def)
  have d: "ok (snd d)" "ended_tx (snd d) = ended_tx (snd b)" using describe_neutral [OF b(1)] by (simp_all add: d_def)
  have a: "ok (snd a)" "ended_tx (snd a) \<le> ended_tx (snd d) + block_cost (ds_after_sql s)"
    using block_bound [OF d(1) assms(3)] by (simp_all add: a_def)
  have "c' = (if \<not> is_success (fst b) then snd (dbo_rollback ops (snd b))
      else case fst d of Inl e \<Rightarrow> snd (dbo_rollback ops (snd a)) | Inr md \<Rightarrow> snd (dbo_commit ops (snd a)))"
    using assms(4) unfolding load_statement_def b_def [symmetric] split_beta Let_def d_def [symmetric] a_def [symmetric]
    by (auto split: sum.splits if_splits)
  then show ?thesis using b d a rollback_bound [OF b(1)] rollback_bound [OF a(1)] commit_bound [OF a(1)]
    by (auto split: sum.splits)
qed

definition blocks_plain :: "data_statement \<Rightarrow> bool" where
  "blocks_plain s \<longleftrightarrow> (ds_before_sql s = [] \<or> plain (ds_before_sql s)) \<and> (ds_after_sql s = [] \<or> plain (ds_after_sql s))"

lemma statements_bound:
  assumes "ok c" "list_all (blocks_plain \<circ> snd) rest"
    and "load_statements sn ops describe mfl rest res c = ((r, c'), l)"
  shows "ok c' \<and> ended_tx c' \<le> ended_tx c + (1 + 2 * cost) * length rest"
  using assms
proof (induction rest arbitrary: res c l)
  case (Cons ks rest)
  obtain k s where ks: "ks = (k, s)" by force
  obtain r1 c1 l1 where st: "load_statement sn ops describe mfl s c = ((r1, c1), l1)" by (metis prod.collapse)
  have "block_cost q \<le> cost" for q by (simp add: block_cost_def)
  then have one: "ok c1" "ended_tx c1 \<le> ended_tx c + (1 + 2 * cost)"
    using statement_bound [OF Cons.prems(1) _ _ st] Cons.prems(2) add_mono [of "block_cost (ds_before_sql s)" cost "block_cost (ds_after_sql s)" cost]
    by (fastforce simp: ks blocks_plain_def)+
  show ?case
  proof (cases r1)
    case (Inl e)
    then show ?thesis using Cons.prems(3) one by (simp add: ks st)
  next
    case (Inr s')
    obtain l2 where "load_statements sn ops describe mfl rest (snd (add_statement_with_replace s' res)) c1 = ((r, c'), l2)"
      using load_statements_step [OF st [unfolded Inr] Cons.prems(3) [unfolded ks]] by blast
    from Cons.IH [OF one(1) _ this] Cons.prems(2) one(2) show ?thesis by (simp add: ks)
  qed
qed simp

end

subsection \<open>PostgreSQL\<close>

definition psql_ops :: "libpq \<Rightarrow> 'h db_psql db_ops" where
  "psql_ops lp = \<lparr>dbo_exec = psql_exec lp, dbo_describe = Some (psql_get_sql_metadata lp), dbo_commit = psql_commit lp,
     dbo_rollback = psql_rollback lp\<rparr>"

definition ends_tx :: "pq_call \<times> bool \<times> nat \<Rightarrow> bool" where
  "ends_tx = (\<lambda>(c, ok, n). case c of Pq_exec c' q \<Rightarrow> ok \<and> (q = ''COMMIT'' \<or> q = ''ROLLBACK'') | _ \<Rightarrow> False)"

definition pq_ended :: "'h db_psql \<Rightarrow> nat" where
  "pq_ended s = length (filter ends_tx (pc_history s))"

lemma pq_ended_log [simp]: "pq_ended (pg_error m s) = pq_ended s" "pq_ended (pg_warning m s) = pq_ended s"
  by (simp_all add: pq_ended_def)

lemma pq_ended_issue:
  "pq_ended (snd (pq_issue lp (Pq_exec c q) s)) \<le> pq_ended s + (if q = ''COMMIT'' \<or> q = ''ROLLBACK'' then 1 else 0)"
  "pq_ended (snd (pq_issue lp (Pq_prepare c n q) s)) = pq_ended s" "pq_ended (snd (pq_issue lp (Pq_describe c n) s)) = pq_ended s"
  by (simp_all add: pq_ended_def pq_issue_def ends_tx_def Let_def)

lemma pq_ended_issue_plain: "q \<noteq> ''COMMIT'' \<Longrightarrow> q \<noteq> ''ROLLBACK'' \<Longrightarrow> pq_ended (snd (pq_issue lp (Pq_exec c q) s)) = pq_ended s"
  by (simp add: pq_ended_def pq_issue_def ends_tx_def Let_def)

lemma pq_ended_exec:
  "pq_ended (snd (exec_command lp q s)) \<le> pq_ended s + (if q = ''COMMIT'' \<or> q = ''ROLLBACK'' then 1 else 0)"
  using pq_ended_issue(1) [of lp "pc_conn s" q s] by (auto simp: exec_command_def split_beta Let_def split: if_splits)

lemma pq_ended_end: "pq_ended (snd (psql_commit lp s)) \<le> pq_ended s + 1" "pq_ended (snd (psql_rollback lp s)) \<le> pq_ended s + 1"
proof -
  have b: "pq_ended (snd (begin_transaction lp t)) \<le> pq_ended t" for t
    using pq_ended_exec [of lp "''BEGIN''" t] by (simp add: begin_transaction_def)
  show "pq_ended (snd (psql_commit lp s)) \<le> pq_ended s + 1"
    using pq_ended_exec [of lp "''COMMIT''" s] b [of "snd (exec_command lp ''COMMIT'' s)"]
    by (simp add: psql_commit_def split_beta Let_def)
  show "pq_ended (snd (psql_rollback lp s)) \<le> pq_ended s + 1"
    using pq_ended_exec [of lp "''ROLLBACK''" s] b [of "snd (exec_command lp ''ROLLBACK'' s)"]
    by (simp add: psql_rollback_def split_beta Let_def)
qed

lemma pq_ended_lists: "pq_ended (snd (psql_params i oids md s)) = pq_ended s" "pq_ended (snd (psql_cols i fs md s)) = pq_ended s"
proof -
  show "pq_ended (snd (psql_params i oids md s)) = pq_ended s" by (induction oids arbitrary: i md s) (auto simp: Let_def)
  show "pq_ended (snd (psql_cols i fs md s)) = pq_ended s" by (induction fs arbitrary: i md s) (auto simp: Let_def)
qed

lemma pq_ended_describe: "pq_ended (snd (psql_get_sql_metadata lp q s)) = pq_ended s"
  by (rule describe_closed [where R = "\<lambda>a b. pq_ended b = pq_ended a"])
     (simp_all add: pq_ended_issue pq_ended_lists pq_ended_issue_plain)

interpretation psql_unit: describing_db "psql_ops lp" "psql_get_sql_metadata lp" pq_ended "\<lambda>_. True" "\<lambda>q. \<not> transaction_command q" 0
  for lp
proof (unfold_locales, goal_cases)
  case (2 c q)
  then show ?case using pq_ended_exec [of lp q c] by (auto simp: psql_ops_def psql_exec_def transaction_command_def)
qed (simp_all add: psql_ops_def pq_ended_describe pq_ended_end [simplified])


subsection \<open>DB2\<close>

definition db2_ops :: "odbc_consts \<Rightarrow> conn_driver \<Rightarrow> db_db2 db_ops" where
  "db2_ops k dv = \<lparr>dbo_exec = db2_exec k dv, dbo_describe = Some (db2_get_sql_metadata k dv), dbo_commit = db2_commit k dv,
     dbo_rollback = db2_rollback k dv\<rparr>"

lemma conn_inv_end: "conn_inv k s \<Longrightarrow> conn_inv k (snd (db2_commit k dv s))" "conn_inv k s \<Longrightarrow> conn_inv k (snd (db2_rollback k dv s))"
  by (simp_all add: conn_inv_def)

interpretation db2_unit: describing_db "db2_ops k dv" "db2_get_sql_metadata k dv" "\<lambda>s. length (ended (dc_history s))"
    "\<lambda>s. conn_inv k s \<and> grants_handles dv" "\<lambda>q. True" 1 for k dv
proof (unfold_locales, goal_cases)
  case (1 c q)
  then show ?case using metadata_inv [of k c dv q] by (simp add: settled_def)
next
  case (2 c q)
  then show ?case using exec_inv [of k c dv q] by (simp add: db2_ops_def split: db_sts.splits)
qed (simp_all add: db2_ops_def conn_inv_end)

text \<open>C35: on DB2 the \<open>before\<close> text of a statement is not part of its unit of work: once it has run, it has been
  committed on its own before the statement is described, and neither a failed description nor a
  failed \<open>after\<close> text can take it back; a file ends up to three transactions per statement.\<close>

theorem db2_before_block_committed:
  assumes "conn_inv k c" "grants_handles dv" "ds_before_sql s \<noteq> []" "is_success (fst (db2_exec k dv (ds_before_sql s) c))"
  shows "\<exists>rest. ended (dc_history (snd (fst (load_statement sn (db2_ops k dv) (db2_get_sql_metadata k dv) mfl s c))))
       = ended (dc_history c) @ True # rest \<and> length rest \<le> 2"
proof -
  let ?c1 = "snd (db2_exec k dv (ds_before_sql s) c)"
  have st: "fst (db2_exec k dv (ds_before_sql s) c) = sts_success"
    using assms(4) by (auto simp: db2_exec_def is_success_def split_beta Let_def split: if_splits)
  then have c1: "conn_inv k ?c1" "ended (dc_history ?c1) = ended (dc_history c) @ [True]"
    using exec_inv [OF assms(1,2), of "ds_before_sql s"] by simp_all
  define d where "d = db2_get_sql_metadata k dv (ds_sql s) ?c1"
  define a where "a = (if ds_after_sql s \<noteq> [] then db2_exec k dv (ds_after_sql s) (snd d) else (sts_success, snd d))"
  have d: "conn_inv k (snd d)" "ended (dc_history (snd d)) = ended (dc_history c) @ [True]"
    using metadata_inv [OF c1(1) assms(2), of "ds_sql s"] c1(2) by (simp_all add: d_def settled_def)
  have "\<exists>e. ended (dc_history (snd a)) = ended (dc_history c) @ True # e \<and> length e \<le> 1"
    using exec_inv(2) [OF d(1) assms(2), of "ds_after_sql s"] d(2) by (auto simp: a_def split: db_sts.splits)
  then obtain e where e: "ended (dc_history (snd a)) = ended (dc_history c) @ True # e" "length e \<le> 1" by blast
  have "snd (fst (load_statement sn (db2_ops k dv) (db2_get_sql_metadata k dv) mfl s c)) =
      (case fst d of Inl x \<Rightarrow> snd (db2_rollback k dv (snd a)) | Inr md \<Rightarrow> snd (db2_commit k dv (snd a)))"
    using assms(3,4) by (simp add: load_statement_def db2_ops_def d_def a_def split_beta Let_def split: sum.splits)
  then show ?thesis using e by (auto split: sum.splits)
qed

theorem db2_before_block_committed_witness:
  "\<exists>rest. ended (dc_history (snd (fst (load_statement (\<lambda>_. []) (db2_ops odbc_consts0 conn_driver0)
        (db2_get_sql_metadata odbc_consts0 conn_driver0) 100 (default_data_statement\<lparr>ds_before_sql := ''create table t''\<rparr>) conn1))))
      = ended (dc_history conn1) @ True # rest"
proof -
  have "fst (db2_exec odbc_consts0 conn_driver0 ''create table t'' conn1) = sts_success"
    by (simp add: db2_exec_def conn1_ok(2) issue_def conn_driver0_def is_odbc_success_def odbc_consts0_def Let_def)
  then show ?thesis
    using db2_before_block_committed [OF conn1_ok(1) conn_driver0_grants, of "default_data_statement\<lparr>ds_before_sql := ''create table t''\<rparr>" "\<lambda>_. []" 100]
    by (auto simp: is_success_def)
qed


end
