(* ===== verification/Program.thy ===== *)
theory Program
  imports Appl Backends
begin

text \<open>
  The program as a whole (\<open>src/programs/appl.cpp\<close>, \<open>src/dbgen4.cpp\<close>): the body of a worker thread on
  a connection of either backend, from \<open>connect\<close> to the destructor, run without other workers (the
  default, \<open>-j1\<close>), and the exit status of the process. Here the steps of \<open>Appl\<close>, the parser, the
  generator and the connections meet: what one worker does is shown to be a path of the pool, and
  what the connections promise is carried over a whole run.
\<close>

subsection \<open>A worker\<close>

text \<open>The virtual interface of \<open>rtl::db\<close> as a worker uses it; the connection arguments are the ones of the
  command line, and the destructor answers its complaints.\<close>

record 'c db_object =
  do_connect :: "'c \<Rightarrow> db_sts \<times> 'c"
  do_ops :: "'c db_ops"
  do_disconnect :: "'c \<Rightarrow> db_sts \<times> 'c"
  do_destroy :: "'c \<Rightarrow> 'c \<times> string list"

definition psql_object :: "libpq \<Rightarrow> string \<Rightarrow> u16 \<Rightarrow> string \<Rightarrow> string \<Rightarrow> string \<Rightarrow> 'h db_psql db_object" where
  "psql_object lp host port name user pass = \<lparr>do_connect = psql_connect lp host port name user pass,
     do_ops = psql_ops lp, do_disconnect = psql_disconnect lp, do_destroy = psql_destroy lp\<rparr>"

definition db2_object :: "odbc_consts \<Rightarrow> conn_driver \<Rightarrow> string \<Rightarrow> u16 \<Rightarrow> string \<Rightarrow> string \<Rightarrow> string \<Rightarrow> db_db2 db_object" where
  "db2_object k dv host port name user pass = \<lparr>do_connect = db2_connect k dv host port name user pass,
     do_ops = db2_ops k dv, do_disconnect = db2_disconnect k dv, do_destroy = db2_destroy k dv\<rparr>"

text \<open>The loop over the files, \<open>i\<close> being the index that is drawn next. An exception leaves the loop, and
  with it the thread.\<close>

fun worker_files ::
  "'t appl_lib \<Rightarrow> 'c db_ops \<Rightarrow> nat \<Rightarrow> 't generator \<Rightarrow> string list \<Rightarrow> nat \<Rightarrow> 'c \<Rightarrow> file_system
     \<Rightarrow> pool_event list cpp \<times> 'c \<times> file_system" where
  "worker_files al ops mfl g [] i c fs = (Ret [], c, fs)"
| "worker_files al ops mfl g (f # rest) i c fs =
     (case process_one_file al ops mfl (set_yaml_fn_and_barename f g) c fs of
        (Ret r, c1, fs1, l) \<Rightarrow>
          (let (es, c2, fs2) = worker_files al ops mfl g rest (Suc i) c1 fs1
           in (bind_cpp es (\<lambda>es. Ret (Ev_file i (case r of Inl e \<Rightarrow> Some e | Inr s \<Rightarrow> None) # es)), c2, fs2))
      | (Throws w, c1, fs1, l) \<Rightarrow> (Throws w, c1, fs1)
      | (Assert_failed, c1, fs1, l) \<Rightarrow> (Assert_failed, c1, fs1)
      | (Undefined_behaviour, c1, fs1, l) \<Rightarrow> (Undefined_behaviour, c1, fs1))"

text \<open>\<open>worker_run\<close>, with the destructor of the connection object at its returns. An exception ends the
  program before any destructor runs.\<close>

definition worker_run ::
  "'t appl_lib \<Rightarrow> 'c db_object \<Rightarrow> nat \<Rightarrow> 't generator \<Rightarrow> string list \<Rightarrow> 'c \<Rightarrow> file_system
     \<Rightarrow> pool_event list cpp \<times> 'c \<times> file_system" where
  "worker_run al db mfl g files c fs =
     (let (r, c1) = do_connect db c in
      if \<not> is_success r then (Ret [Ev_connect False], fst (do_destroy db c1), fs)
      else case worker_files al (do_ops db) mfl g files 0 c1 fs of
        (Ret es, c2, fs2) \<Rightarrow>
          (let c3 = snd (dbo_rollback (do_ops db) c2); c4 = snd (do_disconnect db c3)
           in (Ret (Ev_connect True # es), fst (do_destroy db c4), fs2))
      | (r, c2, fs2) \<Rightarrow> (r, c2, fs2))"

subsection \<open>The process\<close>

text \<open>\<open>main\<close>: whether the logger could be built, and what \<open>exec\<close> did. The operating system sees the value
  modulo 256.\<close>

definition program_main :: "bool \<Rightarrow> exit_status_enum cpp \<Rightarrow> int cpp" where
  "program_main has_logger run =
     (if \<not> has_logger then Ret (- 1)
      else case run of
        Ret sts \<Rightarrow> Ret (int (exit_status_value sts))
      | Throws what \<Rightarrow> Ret (- 1)
      | Assert_failed \<Rightarrow> Assert_failed
      | Undefined_behaviour \<Rightarrow> Undefined_behaviour)"

definition process_status :: "int \<Rightarrow> int" where
  "process_status v = v mod 256"

subsection \<open>One worker is a path of the pool\<close>

lemma worker_run_Ret:
  assumes "worker_run al db mfl g files c fs = (Ret log, c', fs')"
  obtains (refused) "\<not> is_success (fst (do_connect db c))" "log = [Ev_connect False]" "c' = fst (do_destroy db (snd (do_connect db c)))"
      "fs' = fs"
  | (ran) es c2 where "is_success (fst (do_connect db c))"
      "worker_files al (do_ops db) mfl g files 0 (snd (do_connect db c)) fs = (Ret es, c2, fs')" "log = Ev_connect True # es"
      "c' = fst (do_destroy db (snd (do_disconnect db (snd (dbo_rollback (do_ops db) c2)))))"
proof (cases "is_success (fst (do_connect db c))")
  case True
  obtain r c2 fs2 where "worker_files al (do_ops db) mfl g files 0 (snd (do_connect db c)) fs = (r, c2, fs2)"
    by (metis prod.collapse)
  with assms True ran show thesis by (cases r) (auto simp: worker_run_def split_beta Let_def)
qed (use assms refused in \<open>auto simp: worker_run_def split_beta Let_def\<close>)

lemma worker_files_path:
  assumes "pl_workers p = [wk]" "wk_phase wk = W_loop" "pl_next_file_idx p = i" "n = i + length files"
    and "worker_files al ops mfl g files i c fs = (Ret es, c', fs')"
  shows "\<exists>p'. (pool_step n)\<^sup>*\<^sup>* p p' \<and> pool_joined p' \<and> pl_log p' = pl_log p @ es \<and> processed es = [i..<n]"
  using assms
proof (induction files arbitrary: p wk i c fs es)
  case Nil
  have s: "pool_step n p (worker_claim n 0 p)" using Nil(1,2) by (intro pool_step.claims) simp_all
  moreover have "pool_joined (worker_claim n 0 p)" "pl_log (worker_claim n 0 p) = pl_log p"
    using Nil(1,3,4) by (simp_all add: pool_joined_def worker_claim_def Let_def)
  ultimately show ?case using Nil(4,5) by (auto simp: processed_def)
next
  case (Cons f files)
  obtain r c1 fs1 l where one: "process_one_file al ops mfl (set_yaml_fn_and_barename f g) c fs = (Ret r, c1, fs1, l)"
    using Cons.prems(5) by (auto split: prod.splits cpp.splits)
  obtain es1 where rest: "worker_files al ops mfl g files (Suc i) c1 fs1 = (Ret es1, c', fs')"
    and es: "es = Ev_file i (case r of Inl e \<Rightarrow> Some e | Inr s \<Rightarrow> None) # es1"
    using Cons.prems(5) one by (auto simp: bind_cpp_def split: prod.splits cpp.splits)
  let ?res = "case r of Inl e \<Rightarrow> Some e | Inr s \<Rightarrow> None"
  let ?p1 = "worker_claim n 0 p"
  let ?p2 = "worker_finish ?res i 0 ?p1"
  have "i < n" using Cons.prems(4) by simp
  then have p1: "pl_workers ?p1 = [wk\<lparr>wk_phase := W_busy i\<rparr>]" "pl_next_file_idx ?p1 = Suc i" "pl_log ?p1 = pl_log p"
    using Cons.prems(1,3) by (simp_all add: worker_claim_def Let_def)
  have p2: "\<exists>wk'. pl_workers ?p2 = [wk'] \<and> wk_phase wk' = W_loop" "pl_next_file_idx ?p2 = Suc i"
    "pl_log ?p2 = pl_log p @ [Ev_file i ?res]"
    using p1 by (simp_all add: worker_finish_def Let_def split: option.splits)
  then obtain wk' where "pl_workers ?p2 = [wk']" "wk_phase wk' = W_loop" by blast
  from Cons.IH [OF this p2(2) _ rest] Cons.prems(4)
  obtain p' where p': "(pool_step n)\<^sup>*\<^sup>* ?p2 p'" "pool_joined p'" "pl_log p' = pl_log ?p2 @ es1" "processed es1 = [Suc i..<n]"
    by auto
  have "pool_step n p ?p1" using Cons.prems(1,2) by (intro pool_step.claims) simp_all
  moreover have "pool_step n ?p1 ?p2" using p1(1) by (intro pool_step.finishes) simp_all
  ultimately have "(pool_step n)\<^sup>*\<^sup>* p p'" using p'(1) by (meson converse_rtranclp_into_rtranclp)
  moreover have "processed es = [i..<n]" using es p'(4) \<open>i < n\<close> by (simp add: processed_def upt_conv_Cons)
  ultimately show ?case using p' p2(3) es by auto
qed

text \<open>C16: the run of a lone worker refines the pool: whatever its files bring, what it does, step by step, is
  a path of the pool with one worker from its start to the join, with the same record of events. So it
  takes the files in the order of the command line, each once, and what it reports is the first
  failure.\<close>

theorem lone_worker_refines_pool:
  assumes "worker_run al db mfl g files c fs = (Ret log, c', fs')"
  shows "\<exists>p. (pool_step (length files))\<^sup>*\<^sup>* (initial_pool 1) p \<and> pool_joined p \<and> pl_log p = log
    \<and> pl_first_error p = first_failure log
    \<and> (processed log = (if is_success (fst (do_connect db c)) then [0..<length files] else []))"
proof -
  let ?n = "length files" and ?ok = "is_success (fst (do_connect db c))"
  let ?p = "worker_connect ?ok 0 (initial_pool 1)"
  have c: "pool_step ?n (initial_pool 1) ?p" by (intro pool_step.connects) (simp_all add: initial_pool_def)
  have "\<exists>p. (pool_step ?n)\<^sup>*\<^sup>* (initial_pool 1) p \<and> pool_joined p \<and> pl_log p = log
    \<and> processed log = (if ?ok then [0..<?n] else [])"
  using assms
  proof (cases rule: worker_run_Ret)
    case refused
    with c show ?thesis
      by (intro exI [of _ ?p]) (auto simp: worker_connect_def initial_pool_def pool_joined_def processed_def Let_def)
  next
    case (ran es c2)
    note True = ran(1) and w = ran(2) and log = ran(3)
    have p: "pl_workers ?p = [\<lparr>wk_phase = W_loop, wk_files_processed = 0\<rparr>]" "pl_next_file_idx ?p = 0" "pl_log ?p = [Ev_connect True]"
      using True by (simp_all add: worker_connect_def initial_pool_def)
    from worker_files_path [OF p(1) _ p(2) _ w, of ?n]
    obtain p' where "(pool_step ?n)\<^sup>*\<^sup>* ?p p'" "pool_joined p'" "pl_log p' = pl_log ?p @ es" "processed es = [0..<?n]" by auto
    with c True p(3) log show ?thesis
      by (intro exI [of _ p']) (auto simp: processed_def intro: converse_rtranclp_into_rtranclp)
  qed
  then show ?thesis using joined_pool by blast
qed

subsection \<open>What a run leaves in the database client\<close>

text \<open>An invariant of the connection that the operations keep is kept by a file and by the loop.\<close>

context describing_db
begin

lemma file_keeps:
  assumes "ok c" "\<And>q. plain q" "dbo_describe ops = Some describe" "process_one_file al ops mfl g c fs = (r, c', fs', l)"
  shows "ok c'"
proof (cases "fst (parse_yaml_file (al_yaml al) (al_loc al) (al_load_file al) (gn_yaml_fn g) (gn_db_type g))")
  case (Inl e)
  then show ?thesis using assms(1,4) by (auto simp: process_one_file_def split: prod.splits)
next
  case (Inr s)
  obtain r1 c1 l1 where m: "load_file_meta_data (al_sts_name al) ops mfl s c = ((r1, c1), l1)" by (metis prod.collapse)
  have "list_all (blocks_plain \<circ> snd) (dd_map s)" using assms(2) by (simp add: blocks_plain_def list_all_iff)
  then have "ok c1" using statements_bound [OF assms(1)] m assms(3) by (fastforce simp: load_file_meta_data_def)
  moreover have "c' = c1" using assms(4) m Inr
    by (cases r1) (auto simp: process_one_file_def split: prod.splits cpp.splits sum.splits)
  ultimately show ?thesis by simp
qed

lemma files_keep:
  assumes "ok c" "\<And>q. plain q" "dbo_describe ops = Some describe" "worker_files al ops mfl g files i c fs = (r, c', fs')"
  shows "ok c'"
  using assms(1,4)
proof (induction files arbitrary: i c fs r c' fs')
  case (Cons f files)
  obtain r1 c1 fs1 l where one: "process_one_file al ops mfl (set_yaml_fn_and_barename f g) c fs = (r1, c1, fs1, l)"
    by (metis prod.collapse)
  have c1: "ok c1" by (rule file_keeps [OF Cons.prems(1) assms(2,3) one])
  obtain es c2 fs2 where rest: "worker_files al ops mfl g files (Suc i) c1 fs1 = (es, c2, fs2)" by (metis prod.collapse)
  have "ok c2" by (rule Cons.IH [OF c1 rest])
  then show ?case using Cons.prems(2) one rest c1 by (cases r1) auto
qed simp

end

interpretation psql_ledger: describing_db "psql_ops lp" "psql_get_sql_metadata lp" "\<lambda>_. 0" psql_inv "\<lambda>_. True" 0
  for lp
  by unfold_locales (auto simp: psql_ops_def psql_exec_def
      intro: psql_inv_keeps describe_keeps exec_command_keeps transaction_keeps)

lemma psql_destroyed:
  assumes "psql_inv s"
  shows "mset (pq_opened (pc_history (fst (psql_destroy lp s)))) = mset (pq_closed (pc_history (fst (psql_destroy lp s))))
    \<and> pc_conn (fst (psql_destroy lp s)) = 0 \<and> pc_listen_conn (fst (psql_destroy lp s)) = 0"
proof -
  have "psql_inv (snd (psql_disconnect lp s))" by (rule psql_inv_disconnect [OF assms])
  moreover have "pc_conn (snd (psql_disconnect lp s)) = 0" by (cases "pc_conn s = 0") (auto simp: psql_disconnect_def Let_def)
  ultimately show ?thesis by (auto simp: psql_destroy_def Let_def psql_inv_def live_def)
qed

lemma db2_destroyed:
  "conn_inv k s \<Longrightarrow> opened k t (dc_history (fst (db2_destroy k dv s))) = closed t (dc_history (fst (db2_destroy k dv s)))"
  using disconnect_inv [of k s dv]
  by (cases t) (auto simp: db2_destroy_def conn_inv_def balanced_iff owned_handles_def Let_def)


subsection \<open>What a run leaves in the file system\<close>

text \<open>The two files that a description generates.\<close>

definition outputs_of :: "'t generator \<Rightarrow> string \<Rightarrow> string set" where
  "outputs_of g f = {gen_filename (set_yaml_fn_and_barename f g) fn_hpp, gen_filename (set_yaml_fn_and_barename f g) fn_cpp}"

lemma write_file_frame: "f \<noteq> n \<Longrightarrow> fs_files (snd (write_file fs n text)) f = fs_files fs f"
  by (simp add: write_file_def)

lemma write_generated_frame:
  "f \<notin> {gen_filename g fn_hpp, gen_filename g fn_cpp} \<Longrightarrow> fs_files (snd (fst (write_generated e g data tpl fs))) f = fs_files fs f"
  by (auto simp: write_generated_result write_file_frame Let_def split: cpp.splits sum.splits)

lemma write_loop_frame:
  "f \<notin> {gen_filename g fn_hpp, gen_filename g fn_cpp} \<Longrightarrow> fs_files (snd (fst (write_loop e g data ids fs))) f = fs_files fs f"
proof (induction ids arbitrary: fs)
  case (Cons tpl ids)
  obtain r fs1 l where w: "write_generated e g data tpl fs = ((r, fs1), l)" by (metis prod.collapse)
  have "fs_files fs1 f = fs_files fs f" using write_generated_frame [OF Cons.prems, of e data tpl fs] w by simp
  with w Cons show ?case by (auto simp: split_beta Let_def split: cpp.splits sum.splits)
qed simp

lemma process_one_file_frame:
  assumes "process_one_file al ops mfl (set_yaml_fn_and_barename y g) c fs = (r, c', fs', l)" "f \<notin> outputs_of g y"
  shows "fs_files fs' f = fs_files fs f"
proof -
  let ?g = "set_yaml_fn_and_barename y g"
  have gen: "fs_files (snd (fst (generate (al_gen al) ?g s fs))) f = fs_files fs f" for s
    using write_loop_frame [of f ?g] assms(2) by (auto simp: generate_def outputs_of_def Let_def simp del: write_loop.simps split: option.splits)
  have "fs' = fs \<or> (\<exists>s. fs' = snd (fst (generate (al_gen al) ?g s fs)))"
  proof (cases "fst (parse_yaml_file (al_yaml al) (al_loc al) (al_load_file al) (gn_yaml_fn ?g) (gn_db_type ?g))")
    case (Inl e)
    then show ?thesis using assms(1) by (auto simp: process_one_file_def split: prod.splits)
  next
    case (Inr s)
    obtain r1 c1 l1 where m: "load_file_meta_data (al_sts_name al) ops mfl s c = ((r1, c1), l1)" by (metis prod.collapse)
    show ?thesis
    proof (cases r1)
      case (Inl e)
      then show ?thesis using assms(1) Inr m by (auto simp: process_one_file_def split: prod.splits)
    next
      case (Inr s')
      obtain r2 fs2 l2 where "generate (al_gen al) ?g s' fs = ((r2, fs2), l2)" by (metis prod.collapse)
      moreover from this have "fs' = fs2"
        using assms(1) \<open>fst (parse_yaml_file _ _ _ _ _) = Inr s\<close> m Inr
        by (auto simp: process_one_file_def split: prod.splits cpp.splits sum.splits)
      ultimately show ?thesis by (metis fst_conv snd_conv)
    qed
  qed
  with gen show ?thesis by auto
qed

lemma worker_files_frame:
  assumes "worker_files al ops mfl g files i c fs = (r, c', fs')" "\<forall>y \<in> set files. f \<notin> outputs_of g y"
  shows "fs_files fs' f = fs_files fs f"
  using assms
proof (induction files arbitrary: i c fs r c' fs')
  case (Cons y files)
  obtain r1 c1 fs1 l where one: "process_one_file al ops mfl (set_yaml_fn_and_barename y g) c fs = (r1, c1, fs1, l)"
    by (metis prod.collapse)
  obtain es c2 fs2 where rest: "worker_files al ops mfl g files (Suc i) c1 fs1 = (es, c2, fs2)" by (metis prod.collapse)
  have "fs_files fs1 f = fs_files fs f" by (rule process_one_file_frame [OF one]) (use Cons.prems(2) in simp)
  moreover have "fs_files fs2 f = fs_files fs1 f" by (rule Cons.IH [OF rest]) (use Cons.prems(2) in simp)
  ultimately show ?case using Cons.prems(1) one rest by (cases r1) auto
qed simp

text \<open>C17: a run touches no file but the header and the source of its descriptions: every other file is what it
  was, whether the run went well, failed or ended with an exception.\<close>

theorem only_outputs_written:
  assumes "worker_run al db mfl g files c fs = (r, c', fs')" "\<forall>y \<in> set files. f \<notin> outputs_of g y"
  shows "fs_files fs' f = fs_files fs f"
proof (cases "is_success (fst (do_connect db c))")
  case True
  obtain es c2 fs2 where w: "worker_files al (do_ops db) mfl g files 0 (snd (do_connect db c)) fs = (es, c2, fs2)"
    by (metis prod.collapse)
  with assms(1) True have "fs' = fs2" by (cases es) (auto simp: worker_run_def split_beta Let_def)
  then show ?thesis using worker_files_frame [OF w assms(2)] by simp
qed (use assms(1) in \<open>auto simp: worker_run_def split_beta Let_def\<close>)

subsection \<open>What the operating system sees\<close>

text \<open>the process answers 0 exactly when the run was a success; every other status of the program reaches
  the operating system as its own number, none shared with another, but 255: that is both the status
  \<open>not_implemented\<close> and what is left of the \<open>-1\<close> of a program that could not build its logger or died
  of an exception.\<close>

theorem process_status_faithful:
  assumes "program_main lg run = Ret v" "program_main lg' run' = Ret v'"
  shows "(process_status v = 0 \<longleftrightarrow> lg \<and> run = Ret es_ok)
    \<and> (process_status v = process_status v' \<and> process_status v \<noteq> 255 \<longrightarrow> lg \<and> lg' \<and> run = run')
    \<and> (process_status v = 255 \<longleftrightarrow> \<not> lg \<or> run = Ret es_not_implemented \<or> (\<exists>what. run = Throws what))"
proof -
  have val: "exit_status_value e \<le> 255" "exit_status_value e = 0 \<longleftrightarrow> e = es_ok" "exit_status_value e = 255 \<longleftrightarrow> e = es_not_implemented"
    for e by (cases e; simp)+
  have inj: "exit_status_value e = exit_status_value e' \<longleftrightarrow> e = e'" for e e' by (cases e; cases e'; simp)
  have st: "process_status (int (exit_status_value e)) = int (exit_status_value e)" for e
    using val(1) [of e] by (simp add: process_status_def)
  have m: "process_status (- 1) = 255" by (simp add: process_status_def)
  have c: "process_status v = 255 \<and> (\<not> lg \<or> (\<exists>w. run = Throws w))
      \<or> lg \<and> (\<exists>e. run = Ret e \<and> process_status v = int (exit_status_value e))"
    if "program_main lg run = Ret v" for lg run v
    using that by (auto simp: program_main_def m st split: if_splits cpp.splits)
  note a = c [OF assms(1)] and b = c [OF assms(2)]
  have zero: "process_status v = 0 \<longleftrightarrow> lg \<and> run = Ret es_ok" using a by (auto simp: val(2))
  have same: "process_status v = process_status v' \<and> process_status v \<noteq> 255 \<longrightarrow> lg \<and> lg' \<and> run = run'"
  proof (intro impI, elim conjE)
    assume eq: "process_status v = process_status v'" and ne: "process_status v \<noteq> 255"
    obtain e where e: "lg" "run = Ret e" "process_status v = int (exit_status_value e)" using a ne by blast
    moreover obtain e' where e': "lg'" "run' = Ret e'" "process_status v' = int (exit_status_value e')" using b eq ne by metis
    ultimately show "lg \<and> lg' \<and> run = run'" using eq inj [of e e'] by simp
  qed
  have top: "process_status v = 255 \<longleftrightarrow> \<not> lg \<or> run = Ret es_not_implemented \<or> (\<exists>what. run = Throws what)"
  proof -
    have ni: "int (exit_status_value e) = 255 \<longleftrightarrow> e = es_not_implemented" for e
      using val(3) [of e] by linarith
    from a show ?thesis
    proof
      assume "lg \<and> (\<exists>e. run = Ret e \<and> process_status v = int (exit_status_value e))"
      then obtain e where "lg" "run = Ret e" "process_status v = int (exit_status_value e)" by blast
      then show ?thesis by (simp add: val(3))
    qed blast
  qed
  show ?thesis by (intro conjI zero same top)
qed

subsection \<open>Witnesses\<close>

definition appl_lib0 :: "string appl_lib" where
  "appl_lib0 = \<lparr>al_yaml = \<lparr>yl_bad_subscript = (\<lambda>k. k), yl_bad_conversion = [], yl_as_size = (\<lambda>_. None), yl_lines = (\<lambda>_. [])\<rparr>,
     al_loc = (0, 0), al_load_file = (\<lambda>_. Inl \<lparr>ex_msg = ''no such file'', ex_line = 0, ex_column = 0\<rparr>), al_sts_name = (\<lambda>_. []),
     al_gen = gen_env0\<rparr>"

lemma process_unreadable:
  "process_one_file appl_lib0 ops mfl g c fs = (Ret (Inl es_file_cant_be_open), c, fs, [])"
  by (simp add: process_one_file_def parse_yaml_file_def load_yaml_def appl_lib0_def)

lemma worker_unreadable:
  "is_success (fst (do_connect db c)) \<Longrightarrow> worker_run appl_lib0 db mfl g [''q/a.yaml''] c fs
     = (Ret [Ev_connect True, Ev_file 0 (Some es_file_cant_be_open)],
        fst (do_destroy db (snd (do_disconnect db (snd (dbo_rollback (do_ops db) (snd (do_connect db c))))))), fs)"
  by (simp add: worker_run_def process_unreadable bind_cpp_def split_beta Let_def)

lemma psql_connects0: "is_success (fst (psql_connect libpq0 h p d u w initial_db_psql))"
  by (simp add: psql_connect_def psql_connect_str_def pq_open_def begin_transaction_def exec_command_def psql_is_connected_def pq_issue_def
      initial_db_psql_def libpq0_def guard_ok_def is_success_def Let_def)

lemma db2_connects0: "is_success (fst (db2_connect odbc_consts0 conn_driver0 h p d u w conn0))"
  by (simp add: db2_connect_def internal_allocate_handles_def internal_connect_def issue_def conn_driver0_def conn0_def
      is_odbc_success_def odbc_consts0_def is_success_def Let_def)

theorem lone_worker_refines_pool_witness:
  "\<exists>p. (pool_step 1)\<^sup>*\<^sup>* (initial_pool 1) p \<and> pool_joined p
     \<and> pl_log p = [Ev_connect True, Ev_file 0 (Some es_file_cant_be_open)] \<and> pl_first_error p = es_file_cant_be_open"
proof -
  let ?db = "psql_object libpq0 ''h'' 5432 ''d'' ''u'' ''p'' :: nat db_psql db_object"
  have "is_success (fst (do_connect ?db initial_db_psql))" by (simp add: psql_object_def psql_connects0)
  from lone_worker_refines_pool [OF worker_unreadable [OF this, of 100 "make_generator ''out'' dt_psql" undefined]]
  show ?thesis by (auto simp: first_failure_def)
qed


theorem only_outputs_written_witness:
  "fs_files (snd (snd (worker_run appl_lib0 (psql_object libpq0 ''h'' 5432 ''d'' ''u'' ''p'') 100
       (make_generator ''out'' dt_psql) [''q/a.yaml''] (initial_db_psql :: nat db_psql)
       \<lparr>fs_files = [''notes'' \<mapsto> ''x''], fs_writable = (\<lambda>_. True)\<rparr>))) ''notes'' = Some ''x''"
proof -
  let ?fs = "\<lparr>fs_files = [''notes'' \<mapsto> ''x''], fs_writable = (\<lambda>_. True)\<rparr>"
  let ?run = "worker_run appl_lib0 (psql_object libpq0 ''h'' 5432 ''d'' ''u'' ''p'') 100
       (make_generator ''out'' dt_psql) [''q/a.yaml''] (initial_db_psql :: nat db_psql) ?fs"
  have "?run = (fst ?run, fst (snd ?run), snd (snd ?run))" by simp
  from only_outputs_written [OF this, of "''notes''"] show ?thesis
    by (simp add: outputs_of_def gen_filename_eq set_yaml_fn_and_barename_def make_generator_def)
qed

theorem process_status_faithful_witness:
  "process_status (int (exit_status_value es_connection_error)) \<noteq> process_status (int (exit_status_value es_sql_syntax_err))
   \<and> process_status (- 1) = 255"
proof -
  have r: "program_main True (Ret e) = Ret (int (exit_status_value e))" "program_main False (Ret e) = Ret (- 1)" for e
    by (simp_all add: program_main_def)
  show ?thesis
    using process_status_faithful [OF r(1) [of es_connection_error] r(1) [of es_sql_syntax_err]]
      process_status_faithful [OF r(2) [of es_ok] r(1) [of es_ok]] by auto
qed

end
